theory Spec2Isabelle
  imports
    Complex_Main
    "HOL-Library.Char_ord"
    "HOL-Library.List_Lexorder"
    "HOL-Library.Product_Lexorder"
begin

section \<open>JavaScript values and helpers\<close>

text \<open>
  Request bodies, cloud payloads and outbox payloads are JSON. A JavaScript expression that
  may be \<open>undefined\<close> is a \<open>json option\<close>, with \<open>None\<close> for \<open>undefined\<close>.
\<close>

datatype json =
    JNull
  | JBool bool
  | JNum rat
  | JStr string
  | JArr "json list"
  | JObj "(string \<times> json) list"

text \<open>Decimal rendering of a number, as \<open>String(n)\<close> and template literals produce it.\<close>

definition digit_char :: "nat \<Rightarrow> char" where
  "digit_char d = ''0123456789'' ! (d mod 10)"

fun string_of_nat :: "nat \<Rightarrow> string" where
  "string_of_nat n =
     (if n < 10 then [digit_char n] else string_of_nat (n div 10) @ [digit_char (n mod 10)])"

declare string_of_nat.simps [simp del]

definition string_of_int :: "int \<Rightarrow> string" where
  "string_of_int i = (if i < 0 then CHR ''-'' # string_of_nat (nat (- i)) else string_of_nat (nat i))"

text \<open>\<open>s.padStart(n, "0")\<close>: pads on the left up to length \<open>n\<close>, never truncates.\<close>

definition padStart :: "nat \<Rightarrow> char \<Rightarrow> string \<Rightarrow> string" where
  "padStart n c s = replicate (n - length s) c @ s"

text \<open>
  Reading \<open>obj[key]\<close> on an object literal looks the key up among the object's own
  properties and then on \<open>Object.prototype\<close>. The inherited properties are functions (and,
  for \<open>__proto__\<close>, the prototype object): all of them are truthy and none is a string.
\<close>

definition Object_prototype_keys :: "string list" where
  "Object_prototype_keys =
     [''constructor'', ''__defineGetter__'', ''__defineSetter__'', ''hasOwnProperty'',
      ''__lookupGetter__'', ''__lookupSetter__'', ''isPrototypeOf'', ''propertyIsEnumerable'',
      ''toString'', ''valueOf'', ''__proto__'', ''toLocaleString'']"

datatype js_lookup = Own string | Inherited string | Undefined

definition js_index :: "(string \<times> string) list \<Rightarrow> string \<Rightarrow> js_lookup" where
  "js_index obj k =
     (case map_of obj k of
        Some v \<Rightarrow> Own v
      | None \<Rightarrow> if k \<in> set Object_prototype_keys then Inherited k else Undefined)"

text \<open>\<open>!v\<close> for a looked-up value: \<open>undefined\<close> and the empty string are falsy.\<close>

fun falsy :: "js_lookup \<Rightarrow> bool" where
  "falsy Undefined = True"
| "falsy (Own v) = (v = [])"
| "falsy (Inherited k) = False"

section \<open>Configuration and the cloud client (src/sync/cloud-client.ts)\<close>

record config =
  cloudApiUrl :: "string option"
  cloudApiKey :: "string option"
  tenantId :: "string option"
  locationId :: "string option"

definition baseUrl :: "config \<Rightarrow> string" where
  "baseUrl c =
     (let u = (case cloudApiUrl c of None \<Rightarrow> [] | Some u \<Rightarrow> u)
      in if u \<noteq> [] \<and> last u = CHR ''/'' then butlast u else u)"

definition apiKey :: "config \<Rightarrow> string" where
  "apiKey c = (case cloudApiKey c of None \<Rightarrow> [] | Some k \<Rightarrow> k)"

definition isConfigured :: "config \<Rightarrow> bool" where
  "isConfigured c = (baseUrl c \<noteq> [] \<and> apiKey c \<noteq> [])"

record CloudResponse =
  cr_ok :: bool
  cr_status :: int
  cr_data :: json
  cr_error :: "string option"

text \<open>
  What the network does with one request. \<open>InvalidUrl\<close>: \<open>new URL(path, baseUrl)\<close> throws
  (outside the client's \<open>try\<close>, so the exception reaches the caller). \<open>Rejected\<close>: \<open>fetch\<close>
  rejects (network failure, or the 30 s abort). \<open>Responded\<close>: an HTTP response with its
  status and body.
\<close>

datatype response_body = NotJson | JsonBody json | BadJson string

datatype http_result = InvalidUrl string | Rejected string | Responded int response_body

text \<open>
  \<open>CloudClient.get\<close> and \<open>CloudClient.post\<close> build the same envelope: \<open>ok\<close> is
  \<open>res.ok\<close> (status 200..299); a body announced as JSON that does not parse makes
  \<open>res.json()\<close> reject, which the \<open>catch\<close> turns into status 0 like a network failure.
\<close>

definition cloud_request :: "http_result \<Rightarrow> string + CloudResponse" where
  "cloud_request r =
     (case r of
        InvalidUrl msg \<Rightarrow> Inl msg
      | Rejected msg \<Rightarrow> Inr \<lparr>cr_ok = False, cr_status = 0, cr_data = JNull, cr_error = Some msg\<rparr>
      | Responded st body \<Rightarrow>
          (case body of
             BadJson msg \<Rightarrow> Inr \<lparr>cr_ok = False, cr_status = 0, cr_data = JNull, cr_error = Some msg\<rparr>
           | NotJson \<Rightarrow>
               Inr \<lparr>cr_ok = (200 \<le> st \<and> st \<le> 299), cr_status = st, cr_data = JNull, cr_error = None\<rparr>
           | JsonBody j \<Rightarrow>
               Inr \<lparr>cr_ok = (200 \<le> st \<and> st \<le> 299), cr_status = st, cr_data = j, cr_error = None\<rparr>))"

text \<open>\<open>res.error ?? dflt\<close>\<close>

definition error_or :: "CloudResponse \<Rightarrow> string \<Rightarrow> string" where
  "error_or res dflt = (case cr_error res of None \<Rightarrow> dflt | Some e \<Rightarrow> e)"

section \<open>The local store\<close>

text \<open>
  A row of a business table is the list of its columns with their values. Only the outbox
  is read back column by column by the engines, so it gets a record (the \<open>OutboxItem\<close>
  interface of src/sync/push-sync.ts plus the columns the engine writes).
\<close>

datatype sql_value = SNull | SNum rat | SText string

type_synonym sql_row = "(string \<times> sql_value) list"

record OutboxItem =
  ob_id :: nat
  entity_type :: string
  entity_id :: string
  action :: string
  payload :: string
  correlation_id :: "string option"
  priority :: int
  attempts :: int
  max_attempts :: int
  status :: string
  error :: "string option"
  created_at :: string
  synced_at :: "string option"

record db =
  sales :: "sql_row list"
  sale_items :: "sql_row list"
  payments :: "sql_row list"
  kitchen_orders :: "sql_row list"
  kitchen_order_items :: "sql_row list"
  users :: "sql_row list"
  terminals :: "sql_row list"
  terminal_sessions :: "sql_row list"
  reservations :: "sql_row list"
  order_sequence :: "(string \<times> int) list"
  outbox_queue :: "OutboxItem list"
  outbox_seq :: nat

text \<open>
  \<open>INSERT INTO outbox_queue (entity_type, entity_id, action, payload, correlation_id,
  priority, created_at)\<close>: the id comes from AUTOINCREMENT, the other columns take the
  defaults of src/db/schema.ts (status 'PENDING', attempts 0, max_attempts 5).
\<close>

definition insert_outbox ::
  "string \<Rightarrow> string \<Rightarrow> string \<Rightarrow> string \<Rightarrow> string option \<Rightarrow> int \<Rightarrow> string \<Rightarrow> db \<Rightarrow> db" where
  "insert_outbox et eid act pl corr prio now d =
     d\<lparr>outbox_queue := outbox_queue d @
          [\<lparr>ob_id = Suc (outbox_seq d), entity_type = et, entity_id = eid, action = act,
            payload = pl, correlation_id = corr, priority = prio, attempts = 0,
            max_attempts = 5, status = ''PENDING'', error = None, created_at = now,
            synced_at = None\<rparr>],
       outbox_seq := Suc (outbox_seq d)\<rparr>"

section \<open>Push engine (src/sync/push-sync.ts)\<close>

definition pushEndpoints :: "(string \<times> string) list" where
  "pushEndpoints =
     [(''sale'', ''/api/hub/push/sale''),
      (''kitchen_order'', ''/api/hub/push/kitchen-order''),
      (''cash_drawer'', ''/api/hub/push/cash-drawer''),
      (''shift_log'', ''/api/hub/push/shift''),
      (''gift_card'', ''/api/hub/push/gift-card''),
      (''refund'', ''/api/hub/push/refund''),
      (''store_credit'', ''/api/hub/push/store-credit'')]"

record PushResult =
  processed :: nat
  succeeded :: nat
  failed :: nat
  deadLettered :: nat

definition no_result :: PushResult where
  "no_result = \<lparr>processed = 0, succeeded = 0, failed = 0, deadLettered = 0\<rparr>"

text \<open>The envelope POSTed to the cloud, with the value passed as the path.\<close>

record PostBody =
  p_endpoint :: js_lookup
  p_entityType :: string
  p_entityId :: string
  p_action :: string
  p_payload :: json
  p_correlationId :: "string option"

text \<open>
  The environment of one engine run: the configuration, \<open>JSON.parse\<close> (\<open>None\<close> when it
  throws), what the network does with the POST issued for a claimed row, and
  \<open>datetime('now')\<close>.
\<close>

record push_env =
  pe_config :: config
  pe_parse :: "string \<Rightarrow> json option"
  pe_network :: "OutboxItem \<Rightarrow> http_result"
  pe_now :: string

text \<open>\<open>UPDATE outbox_queue SET ... WHERE id = ?\<close>\<close>

definition update_outbox :: "nat \<Rightarrow> (OutboxItem \<Rightarrow> OutboxItem) \<Rightarrow> OutboxItem list \<Rightarrow> OutboxItem list" where
  "update_outbox i f rows = map (\<lambda>r. if ob_id r = i then f r else r) rows"

record push_acc =
  a_rows :: "OutboxItem list"
  a_result :: PushResult
  a_posts :: "PostBody list"

definition mark :: "nat \<Rightarrow> (OutboxItem \<Rightarrow> OutboxItem) \<Rightarrow> (PushResult \<Rightarrow> PushResult) \<Rightarrow> push_acc \<Rightarrow> push_acc" where
  "mark i f g acc = acc\<lparr>a_rows := update_outbox i f (a_rows acc), a_result := g (a_result acc)\<rparr>"

definition inc_succeeded :: "PushResult \<Rightarrow> PushResult" where
  "inc_succeeded r = r\<lparr>succeeded := succeeded r + 1\<rparr>"

definition inc_failed :: "PushResult \<Rightarrow> PushResult" where
  "inc_failed r = r\<lparr>failed := failed r + 1\<rparr>"

definition inc_deadLettered :: "PushResult \<Rightarrow> PushResult" where
  "inc_deadLettered r = r\<lparr>deadLettered := deadLettered r + 1\<rparr>"

text \<open>
  The body of the \<open>for (const item of items)\<close> loop. \<open>item\<close> is the row as the SELECT
  returned it, so \<open>item.attempts\<close> is the count before this pickup.
\<close>

definition process_item :: "push_env \<Rightarrow> OutboxItem \<Rightarrow> push_acc \<Rightarrow> push_acc" where
  "process_item env item acc0 =
     (let i = ob_id item;
          acc = mark i (\<lambda>r. r\<lparr>status := ''PROCESSING'', attempts := attempts r + 1\<rparr>)
                  (\<lambda>r. r\<lparr>processed := processed r + 1\<rparr>) acc0;
          endpoint = js_index pushEndpoints (entity_type item)
      in if falsy endpoint then
           mark i (\<lambda>r. r\<lparr>status := ''DEAD_LETTER'', error := Some ''Unknown entity type''\<rparr>)
             inc_deadLettered acc
         else
           (case pe_parse env (payload item) of
              None \<Rightarrow>
                mark i (\<lambda>r. r\<lparr>status := ''DEAD_LETTER'', error := Some ''Invalid JSON payload''\<rparr>)
                  inc_deadLettered acc
            | Some pl \<Rightarrow>
                (case cloud_request (pe_network env item) of
                   Inl msg \<Rightarrow>
                     mark i (\<lambda>r. r\<lparr>status := ''PENDING'', error := Some msg\<rparr>) inc_failed acc
                 | Inr res \<Rightarrow>
                     (let acc' = acc\<lparr>a_posts := a_posts acc @
                                   [\<lparr>p_endpoint = endpoint, p_entityType = entity_type item,
                                     p_entityId = entity_id item, p_action = action item,
                                     p_payload = pl, p_correlationId = correlation_id item\<rparr>]\<rparr>
                      in if cr_ok res then
                           mark i (\<lambda>r. r\<lparr>status := ''SYNCED'', synced_at := Some (pe_now env)\<rparr>)
                             inc_succeeded acc'
                         else if cr_status res = 409 then
                           mark i (\<lambda>r. r\<lparr>status := ''SYNCED'', synced_at := Some (pe_now env),
                                         error := Some ''Duplicate (409)''\<rparr>)
                             inc_succeeded acc'
                         else if cr_status res \<ge> 400 \<and> cr_status res < 500 then
                           mark i (\<lambda>r. r\<lparr>status := ''DEAD_LETTER'',
                                         error := Some (''HTTP '' @ string_of_int (cr_status res) @ '': ''
                                                        @ error_or res ''Client error'')\<rparr>)
                             inc_deadLettered acc'
                         else
                           (let newAttempts = attempts item + 1
                            in if newAttempts \<ge> max_attempts item then
                                 mark i (\<lambda>r. r\<lparr>status := ''DEAD_LETTER'',
                                               error := Some (''Max attempts reached. Last: HTTP ''
                                                              @ string_of_int (cr_status res))\<rparr>)
                                   inc_deadLettered acc'
                               else
                                 mark i (\<lambda>r. r\<lparr>status := ''PENDING'',
                                               error := Some (''HTTP '' @ string_of_int (cr_status res) @ '': ''
                                                              @ error_or res ''Server error'')\<rparr>)
                                   inc_failed acc')))))"

text \<open>
  \<open>SELECT * FROM outbox_queue WHERE status = 'PENDING' AND attempts < max_attempts
  ORDER BY priority DESC, created_at ASC LIMIT ?\<close>. Rows that tie keep their table order.
\<close>

definition eligible :: "OutboxItem \<Rightarrow> bool" where
  "eligible r = (status r = ''PENDING'' \<and> attempts r < max_attempts r)"

definition select_pending :: "nat \<Rightarrow> OutboxItem list \<Rightarrow> OutboxItem list" where
  "select_pending batchSize rows =
     take batchSize (sort_key (\<lambda>r. (- priority r, created_at r)) (filter eligible rows))"

text \<open>
  \<open>processOutbox\<close>: the single-flight flag \<open>running\<close> is passed in and returned; the
  \<open>finally\<close> block resets it on every path that set it.
\<close>

definition processOutbox ::
  "push_env \<Rightarrow> nat \<Rightarrow> bool \<Rightarrow> db \<Rightarrow> PushResult \<times> PostBody list \<times> bool \<times> db" where
  "processOutbox env batchSize running d =
     (if running then (no_result, [], running, d)
      else if \<not> isConfigured (pe_config env) then (no_result, [], running, d)
      else
        (let items = select_pending batchSize (outbox_queue d)
         in if items = [] then (no_result, [], False, d)
            else
              (let acc = fold (process_item env) items
                           \<lparr>a_rows = outbox_queue d, a_result = no_result, a_posts = []\<rparr>
               in (a_result acc, a_posts acc, False, d\<lparr>outbox_queue := a_rows acc\<rparr>))))"

text \<open>\<open>retryDeadLetters(entityType?)\<close>, returning the number of rows changed.\<close>

definition retryDeadLetters :: "string option \<Rightarrow> db \<Rightarrow> nat \<times> db" where
  "retryDeadLetters entityType d =
     (let hit = (\<lambda>r. status r = ''DEAD_LETTER'' \<and>
                     (case entityType of None \<Rightarrow> True | Some t \<Rightarrow> t = [] \<or> entity_type r = t))
      in (length (filter hit (outbox_queue d)),
          d\<lparr>outbox_queue := map (\<lambda>r. if hit r then r\<lparr>status := ''PENDING'', attempts := 0\<rparr> else r)
                               (outbox_queue d)\<rparr>))"

section \<open>Statements on business tables\<close>

text \<open>
  How \<open>stmt.run(...args)\<close> of better-sqlite3 binds its arguments to the \<open>?\<close>
  placeholders: numbers, strings and \<open>null\<close> bind as they are, \<open>undefined\<close> binds as
  NULL, an array argument supplies its elements one after the other, a plain object is
  the (single) named-parameter object and supplies no positional value, and anything else
  (a boolean; a non-scalar inside an array) throws a TypeError. The number of positional
  values has to equal the number of placeholders, else a RangeError is thrown.
\<close>

fun bind_scalar :: "json \<Rightarrow> sql_value option" where
  "bind_scalar JNull = Some SNull"
| "bind_scalar (JNum q) = Some (SNum q)"
| "bind_scalar (JStr s) = Some (SText s)"
| "bind_scalar (JBool b) = None"
| "bind_scalar (JArr xs) = None"
| "bind_scalar (JObj kvs) = None"

fun bind_scalars :: "json list \<Rightarrow> sql_value list option" where
  "bind_scalars [] = Some []"
| "bind_scalars (x # xs) =
     (case bind_scalar x of
        None \<Rightarrow> None
      | Some v \<Rightarrow> (case bind_scalars xs of None \<Rightarrow> None | Some vs \<Rightarrow> Some (v # vs)))"

fun bind_arg :: "json option \<Rightarrow> sql_value list option" where
  "bind_arg None = Some [SNull]"
| "bind_arg (Some (JArr xs)) = bind_scalars xs"
| "bind_arg (Some (JObj kvs)) = Some []"
| "bind_arg (Some v) = (case bind_scalar v of None \<Rightarrow> None | Some x \<Rightarrow> Some [x])"

fun bind_all :: "json option list \<Rightarrow> sql_value list option" where
  "bind_all [] = Some []"
| "bind_all (a # as) =
     (case bind_arg a of
        None \<Rightarrow> None
      | Some vs \<Rightarrow> (case bind_all as of None \<Rightarrow> None | Some ws \<Rightarrow> Some (vs @ ws)))"

fun is_named_object :: "json option \<Rightarrow> bool" where
  "is_named_object (Some (JObj kvs)) = True"
| "is_named_object a = False"

definition bind_args :: "nat \<Rightarrow> json option list \<Rightarrow> string + sql_value list" where
  "bind_args n args =
     (if length (filter is_named_object args) > 1 then
        Inl ''TypeError: You cannot specify named parameters in two different objects''
      else
        (case bind_all args of
           None \<Rightarrow> Inl ''TypeError: SQLite3 can only bind numbers, strings, bigints, buffers, and null''
         | Some vs \<Rightarrow>
             if length vs < n then Inl ''RangeError: Too few parameter values were provided''
             else if length vs > n then Inl ''RangeError: Too many parameter values were provided''
             else Inr vs))"

text \<open>
  An INSERT names its columns; each takes the next placeholder (\<open>P\<close>) or an SQL literal
  (\<open>L\<close>, also used for \<open>datetime('now')\<close> once the clock is fixed).
\<close>

datatype slot = P | L sql_value

fun fill :: "(string \<times> slot) list \<Rightarrow> sql_value list \<Rightarrow> sql_row" where
  "fill [] vs = []"
| "fill ((c, L v) # cs) vs = (c, v) # fill cs vs"
| "fill ((c, P) # cs) [] = (c, SNull) # fill cs []"
| "fill ((c, P) # cs) (v # vs) = (c, v) # fill cs vs"

definition placeholders :: "(string \<times> slot) list \<Rightarrow> nat" where
  "placeholders cs = length (filter (\<lambda>(c, s). s = P) cs)"

definition col :: "sql_row \<Rightarrow> string \<Rightarrow> sql_value" where
  "col r c = (case map_of r c of None \<Rightarrow> SNull | Some v \<Rightarrow> v)"

fun set_col :: "string \<Rightarrow> sql_value \<Rightarrow> sql_row \<Rightarrow> sql_row" where
  "set_col c v [] = [(c, v)]"
| "set_col c v ((k, x) # r) = (if k = c then (c, v) # r else (k, x) # set_col c v r)"

text \<open>
  The constraints of a table that an INSERT of this program can violate, read off
  src/db/schema.ts: NOT NULL columns and single-column keys (PRIMARY KEY, UNIQUE; NULLs
  never collide). The foreign keys of sale_items and payments point at the sale row the
  same transaction has just inserted.
\<close>

record table_def =
  not_null :: "string list"
  unique_cols :: "string list"

definition sales_def :: table_def where
  "sales_def = \<lparr>not_null = [''tenant_id'', ''location_id'', ''order_type'', ''subtotal'',
                              ''discount_total'', ''tax_total'', ''total'', ''status'', ''created_at''],
                 unique_cols = [''id'', ''receipt_number'']\<rparr>"

definition sale_items_def :: table_def where
  "sale_items_def = \<lparr>not_null = [''sale_id'', ''product_id'', ''product_name'', ''quantity'',
                                   ''unit_price'', ''total''],
                      unique_cols = [''id'']\<rparr>"

definition payments_def :: table_def where
  "payments_def = \<lparr>not_null = [''sale_id'', ''method'', ''amount'', ''created_at''],
                    unique_cols = [''id'']\<rparr>"

definition terminal_sessions_def :: table_def where
  "terminal_sessions_def = \<lparr>not_null = [''terminal_id'', ''user_id'', ''started_at''],
                             unique_cols = [''id'']\<rparr>"

definition violates :: "table_def \<Rightarrow> sql_row \<Rightarrow> sql_row list \<Rightarrow> bool" where
  "violates t r rows =
     ((\<exists>c \<in> set (not_null t). c \<in> fst ` set r \<and> col r c = SNull) \<or>
      (\<exists>c \<in> set (unique_cols t). col r c \<noteq> SNull \<and> (\<exists>r' \<in> set rows. col r' c = col r c)))"

definition run_insert ::
  "table_def \<Rightarrow> (string \<times> slot) list \<Rightarrow> json option list \<Rightarrow> sql_row list \<Rightarrow> string + sql_row list" where
  "run_insert t cs args rows =
     (case bind_args (placeholders cs) args of
        Inl e \<Rightarrow> Inl e
      | Inr vs \<Rightarrow>
          (let r = fill cs vs
           in if violates t r rows then Inl ''SqliteError: constraint failed'' else Inr (rows @ [r])))"

text \<open>\<open>UPDATE t SET ... WHERE id = ?\<close> with a string id.\<close>

definition update_by_id :: "string \<Rightarrow> (sql_row \<Rightarrow> sql_row) \<Rightarrow> sql_row list \<Rightarrow> sql_row list" where
  "update_by_id i f rows = map (\<lambda>r. if col r ''id'' = SText i then f r else r) rows"

text \<open>\<open>SELECT ... WHERE id = ?\<close> followed by \<open>.get(id)\<close>: the first match, or \<open>undefined\<close>.\<close>

definition get_by_id :: "string \<Rightarrow> sql_row list \<Rightarrow> sql_row option" where
  "get_by_id i rows = find (\<lambda>r. col r ''id'' = SText i) rows"

section \<open>Store helpers (db/index.ts)\<close>

text \<open>
  \<open>transaction(fn)\<close> wraps \<open>fn\<close> with better-sqlite3's \<open>database.transaction\<close>: BEGIN,
  run \<open>fn\<close>, COMMIT; when \<open>fn\<close> throws, ROLLBACK and rethrow. A throwing \<open>fn\<close> is
  \<open>Inl\<close>, and the store it had reached is dropped.
\<close>

definition transaction :: "(db \<Rightarrow> string + ('a \<times> db)) \<Rightarrow> db \<Rightarrow> (string + 'a) \<times> db" where
  "transaction fn d = (case fn d of Inl e \<Rightarrow> (Inl e, d) | Inr (r, d') \<Rightarrow> (Inr r, d'))"

text \<open>
  \<open>nextReceiptNumber\<close>: \<open>INSERT INTO order_sequence (date_key, current_value) VALUES (?, 1)
  ON CONFLICT(date_key) DO UPDATE SET current_value = current_value + 1 RETURNING
  current_value\<close>, then \<open>dateKey-String(current_value).padStart(4, "0")\<close>. The date key
  (today, as YYYYMMDD) is passed in.
\<close>

fun upsert_sequence :: "string \<Rightarrow> (string \<times> int) list \<Rightarrow> int \<times> (string \<times> int) list" where
  "upsert_sequence k [] = (1, [(k, 1)])"
| "upsert_sequence k ((k', v) # rest) =
     (if k' = k then (v + 1, (k', v + 1) # rest)
      else (let (n, rest') = upsert_sequence k rest in (n, (k', v) # rest')))"

definition nextReceiptNumber :: "string \<Rightarrow> db \<Rightarrow> string \<times> db" where
  "nextReceiptNumber dateKey d =
     (let (current_value, seq') = upsert_sequence dateKey (order_sequence d);
          seq = padStart 4 (CHR ''0'') (string_of_int current_value)
      in (dateKey @ ''-'' @ seq, d\<lparr>order_sequence := seq'\<rparr>))"

text \<open>\<open>n\<close> calls one after the other on the same date key, with the values they return.\<close>

fun receipt_calls :: "nat \<Rightarrow> string \<Rightarrow> db \<Rightarrow> string list \<times> db" where
  "receipt_calls 0 dateKey d = ([], d)"
| "receipt_calls (Suc n) dateKey d =
     (let (r, d') = nextReceiptNumber dateKey d;
          (rs, d'') = receipt_calls n dateKey d'
      in (r # rs, d''))"

section \<open>The HTTP surface\<close>

text \<open>
  Process state next to the store: the PIN rate-limit buckets and the recent-user list of
  api/auth.ts, and the frames handed to \<open>broadcast\<close> of realtime/websocket.ts.
\<close>

record rate_entry =
  count :: nat
  resetAt :: int

record ws_event =
  ev_name :: string
  ev_data :: json
  ev_role :: "string option"

record hub =
  store :: db
  pinAttempts :: "string \<Rightarrow> rate_entry option"
  recentUserIds :: "string list"
  broadcasts :: "ws_event list"

text \<open>
  What a request reads from outside: the configuration, the identifiers \<open>generateId()\<close>
  returns (the k-th call of the request gets \<open>re_ids k\<close>), today's date key, the SQL and
  ISO clocks, \<open>Date.now()\<close>, \<open>JSON.stringify\<close>, \<open>JSON.parse\<close> (\<open>None\<close> when it throws),
  and bcrypt (\<open>re_compare\<close> is \<open>None\<close> when
  the comparison throws on a corrupt hash).
\<close>

record route_env =
  re_config :: config
  re_ids :: "nat \<Rightarrow> string"
  re_dateKey :: string
  re_now :: string
  re_nowIso :: string
  re_clock :: int
  re_stringify :: "json \<Rightarrow> string"
  re_parse :: "string \<Rightarrow> json option"
  re_hashSync :: "string \<Rightarrow> string"
  re_compare :: "string \<Rightarrow> string \<Rightarrow> bool option"

text \<open>A reply is a status code with a JSON body; \<open>Inl\<close> is an exception that escapes the handler.\<close>

type_synonym reply = "string + (nat \<times> json)"

text \<open>\<open>x ?? d\<close>, and \<open>v.k\<close> on a value that is not null.\<close>

fun dflt :: "json option \<Rightarrow> json \<Rightarrow> json" where
  "dflt None d = d"
| "dflt (Some JNull) d = d"
| "dflt (Some v) d = v"

fun js_prop :: "json \<Rightarrow> string \<Rightarrow> json option" where
  "js_prop (JObj kvs) k = map_of kvs k"
| "js_prop v k = None"

definition or_empty :: "string option \<Rightarrow> string" where
  "or_empty x = (case x of None \<Rightarrow> [] | Some v \<Rightarrow> v)"

text \<open>\<open>for (const x of v)\<close>: arrays and strings are iterable, other values throw.\<close>

fun js_iterate :: "json \<Rightarrow> string + json list" where
  "js_iterate (JArr xs) = Inr xs"
| "js_iterate (JStr s) = Inr (map (\<lambda>c. JStr [c]) s)"
| "js_iterate v = Inl ''TypeError: object is not iterable''"

subsection \<open>POST /api/sales (src/api/sales.ts)\<close>

definition sale_columns :: "string \<Rightarrow> (string \<times> slot) list" where
  "sale_columns now =
     [(''id'', P), (''tenant_id'', P), (''location_id'', P), (''terminal_id'', P),
      (''receipt_number'', P), (''order_type'', P), (''customer_id'', P), (''customer_name'', P),
      (''table_session_id'', P), (''kitchen_order_id'', P), (''subtotal'', P),
      (''discount_total'', P), (''coupon_discount'', P), (''tax_total'', P), (''tax_breakdown'', P),
      (''delivery_charge'', P), (''round_off'', P), (''total'', P), (''gratuity'', P),
      (''amount_paid'', P), (''change_given'', P), (''status'', L (SText ''COMPLETED'')),
      (''cashier_id'', P), (''cashier_name'', P), (''notes'', P), (''metadata'', P),
      (''data_blob'', P), (''created_at'', L (SText now)), (''sync_status'', L (SText ''PENDING''))]"

definition sale_args :: "route_env \<Rightarrow> string \<Rightarrow> string \<Rightarrow> json \<Rightarrow> json option list" where
  "sale_args env saleId receiptNumber body =
     [Some (JStr saleId), Some (JStr (or_empty (tenantId (re_config env)))),
      Some (JStr (or_empty (locationId (re_config env)))),
      Some (dflt (js_prop body ''terminalId'') JNull), Some (JStr receiptNumber),
      Some (dflt (js_prop body ''orderType'') (JStr ''TAKE_OUT'')),
      Some (dflt (js_prop body ''customerId'') JNull), Some (dflt (js_prop body ''customerName'') JNull),
      Some (dflt (js_prop body ''tableSessionId'') JNull),
      Some (dflt (js_prop body ''kitchenOrderId'') JNull),
      Some (dflt (js_prop body ''subtotal'') (JNum 0)), Some (dflt (js_prop body ''discountTotal'') (JNum 0)),
      Some (dflt (js_prop body ''couponDiscount'') (JNum 0)), Some (dflt (js_prop body ''taxTotal'') (JNum 0)),
      Some (JStr (re_stringify env (dflt (js_prop body ''taxBreakdown'') (JArr [])))),
      Some (dflt (js_prop body ''deliveryCharge'') (JNum 0)), Some (dflt (js_prop body ''roundOff'') (JNum 0)),
      Some (dflt (js_prop body ''total'') (JNum 0)), Some (dflt (js_prop body ''gratuity'') (JNum 0)),
      Some (dflt (js_prop body ''amountPaid'') (JNum 0)), Some (dflt (js_prop body ''changeGiven'') (JNum 0)),
      Some (dflt (js_prop body ''cashierId'') JNull), Some (dflt (js_prop body ''cashierName'') JNull),
      Some (dflt (js_prop body ''notes'') JNull),
      Some (JStr (re_stringify env (dflt (js_prop body ''metadata'') (JObj [])))),
      Some (JStr (re_stringify env body))]"

definition sale_item_columns :: "(string \<times> slot) list" where
  "sale_item_columns =
     [(''id'', P), (''sale_id'', P), (''product_id'', P), (''product_name'', P), (''variant_id'', P),
      (''variant_name'', P), (''quantity'', P), (''unit_price'', P), (''discount'', P),
      (''discount_type'', P), (''tax'', P), (''total'', P), (''modifiers'', P), (''metadata'', P)]"

definition sale_item_args :: "route_env \<Rightarrow> string \<Rightarrow> string \<Rightarrow> json \<Rightarrow> json option list" where
  "sale_item_args env itemId saleId item =
     [Some (JStr itemId), Some (JStr saleId), js_prop item ''productId'', js_prop item ''productName'',
      Some (dflt (js_prop item ''variantId'') JNull), Some (dflt (js_prop item ''variantName'') JNull),
      Some (dflt (js_prop item ''quantity'') (JNum 1)), Some (dflt (js_prop item ''unitPrice'') (JNum 0)),
      Some (dflt (js_prop item ''discount'') (JNum 0)), Some (dflt (js_prop item ''discountType'') JNull),
      Some (dflt (js_prop item ''tax'') (JNum 0)), Some (dflt (js_prop item ''total'') (JNum 0)),
      Some (JStr (re_stringify env (dflt (js_prop item ''modifiers'') (JArr [])))),
      Some (JStr (re_stringify env (dflt (js_prop item ''metadata'') (JObj []))))]"

definition payment_columns :: "string \<Rightarrow> (string \<times> slot) list" where
  "payment_columns now =
     [(''id'', P), (''sale_id'', P), (''method'', P), (''amount'', P), (''tip_amount'', P),
      (''reference'', P), (''card_last_four'', P), (''card_brand'', P), (''created_at'', L (SText now))]"

definition payment_args :: "string \<Rightarrow> string \<Rightarrow> json \<Rightarrow> json option list" where
  "payment_args paymentId saleId payment =
     [Some (JStr paymentId), Some (JStr saleId), js_prop payment ''method'', js_prop payment ''amount'',
      Some (dflt (js_prop payment ''tipAmount'') (JNum 0)), Some (dflt (js_prop payment ''reference'') JNull),
      Some (dflt (js_prop payment ''cardLastFour'') JNull), Some (dflt (js_prop payment ''cardBrand'') JNull)]"

text \<open>
  The two \<open>for\<close> loops. \<open>k\<close> counts the identifiers minted so far; reading a property of a
  \<open>null\<close> element throws.
\<close>

fun insert_sale_items :: "route_env \<Rightarrow> string \<Rightarrow> nat \<Rightarrow> json list \<Rightarrow> db \<Rightarrow> string + (nat \<times> db)" where
  "insert_sale_items env saleId k [] d = Inr (k, d)"
| "insert_sale_items env saleId k (item # items) d =
     (if item = JNull then Inl ''TypeError: Cannot read properties of null''
      else
        (case run_insert sale_items_def sale_item_columns
                (sale_item_args env (re_ids env k) saleId item) (sale_items d) of
           Inl e \<Rightarrow> Inl e
         | Inr rows \<Rightarrow> insert_sale_items env saleId (Suc k) items (d\<lparr>sale_items := rows\<rparr>)))"

fun insert_payments :: "route_env \<Rightarrow> string \<Rightarrow> nat \<Rightarrow> json list \<Rightarrow> db \<Rightarrow> string + (nat \<times> db)" where
  "insert_payments env saleId k [] d = Inr (k, d)"
| "insert_payments env saleId k (payment # ps) d =
     (if payment = JNull then Inl ''TypeError: Cannot read properties of null''
      else
        (case run_insert payments_def (payment_columns (re_now env))
                (payment_args (re_ids env k) saleId payment) (payments d) of
           Inl e \<Rightarrow> Inl e
         | Inr rows \<Rightarrow> insert_payments env saleId (Suc k) ps (d\<lparr>payments := rows\<rparr>)))"

text \<open>The reply object; a property whose value is \<open>undefined\<close> is left out by the serialiser.\<close>

definition sale_reply :: "route_env \<Rightarrow> string \<Rightarrow> string \<Rightarrow> json \<Rightarrow> json" where
  "sale_reply env saleId receiptNumber body =
     JObj ([(''id'', JStr saleId), (''receiptNumber'', JStr receiptNumber),
            (''status'', JStr ''COMPLETED'')]
           @ (case js_prop body ''total'' of None \<Rightarrow> [] | Some t \<Rightarrow> [(''total'', t)])
           @ [(''createdAt'', JStr (re_nowIso env))])"

text \<open>The function handed to \<open>transaction\<close>. A request without a body has \<open>body = None\<close>.\<close>

definition sale_txn :: "route_env \<Rightarrow> json option \<Rightarrow> db \<Rightarrow> string + (json \<times> db)" where
  "sale_txn env req_body d0 =
     (let saleId = re_ids env 0;
          (receiptNumber, d1) = nextReceiptNumber (re_dateKey env) d0
      in case req_body of
           None \<Rightarrow> Inl ''TypeError: Cannot read properties of undefined''
         | Some JNull \<Rightarrow> Inl ''TypeError: Cannot read properties of null''
         | Some body \<Rightarrow>
             (case run_insert sales_def (sale_columns (re_now env))
                     (sale_args env saleId receiptNumber body) (sales d1) of
                Inl e \<Rightarrow> Inl e
              | Inr rows \<Rightarrow>
                  (case js_iterate (dflt (js_prop body ''items'') (JArr [])) of
                     Inl e \<Rightarrow> Inl e
                   | Inr items \<Rightarrow>
                       (case insert_sale_items env saleId 1 items (d1\<lparr>sales := rows\<rparr>) of
                          Inl e \<Rightarrow> Inl e
                        | Inr (k, d2) \<Rightarrow>
                            (case js_iterate (dflt (js_prop body ''payments'') (JArr [])) of
                               Inl e \<Rightarrow> Inl e
                             | Inr ps \<Rightarrow>
                                 (case insert_payments env saleId k ps d2 of
                                    Inl e \<Rightarrow> Inl e
                                  | Inr (k', d3) \<Rightarrow>
                                      Inr (sale_reply env saleId receiptNumber body,
                                           insert_outbox ''sale'' saleId ''create''
                                             (re_stringify env body) (Some saleId) 10
                                             (re_now env) d3)))))))"

definition post_sale :: "route_env \<Rightarrow> json option \<Rightarrow> hub \<Rightarrow> reply \<times> hub" where
  "post_sale env req_body h =
     (case transaction (sale_txn env req_body) (store h) of
        (Inl e, d) \<Rightarrow> (Inl e, h\<lparr>store := d\<rparr>)
      | (Inr j, d) \<Rightarrow> (Inr (200, j), h\<lparr>store := d\<rparr>))"

subsection \<open>POST /api/kitchen-orders/:id/bump (api/kitchen-orders.ts)\<close>

definition statusFlow :: "(string \<times> string) list" where
  "statusFlow = [(''PENDING'', ''PREPARING''), (''PREPARING'', ''READY''), (''READY'', ''COMPLETED'')]"

text \<open>A column value used as a property key or in a template literal.\<close>

fun sql_to_string :: "sql_value \<Rightarrow> string" where
  "sql_to_string (SText s) = s"
| "sql_to_string SNull = ''null''"
| "sql_to_string (SNum q) = string_of_int \<lfloor>q\<rfloor>"

fun sql_to_json :: "sql_value \<Rightarrow> json" where
  "sql_to_json (SText s) = JStr s"
| "sql_to_json SNull = JNull"
| "sql_to_json (SNum q) = JNum q"

fun status_key :: "sql_value \<Rightarrow> js_lookup" where
  "status_key (SText s) = js_index statusFlow s"
| "status_key v = Undefined"

text \<open>
  \<open>UPDATE kitchen_orders SET status = ?, updated_at = datetime('now'), sync_status =
  'PENDING'\<close>, with \<open>fired_at\<close> or \<open>completed_at\<close> when the next status asks for it.
\<close>

definition bump_order :: "string \<Rightarrow> string \<Rightarrow> sql_row \<Rightarrow> sql_row" where
  "bump_order nextStatus now r =
     (let r1 = set_col ''sync_status'' (SText ''PENDING'')
                 (set_col ''updated_at'' (SText now) (set_col ''status'' (SText nextStatus) r));
          r2 = (if nextStatus = ''PREPARING'' then set_col ''fired_at'' (SText now) r1 else r1)
      in if nextStatus = ''COMPLETED'' then set_col ''completed_at'' (SText now) r2 else r2)"

text \<open>\<open>UPDATE kitchen_order_items SET status = ? WHERE kitchen_order_id = ? AND status != 'VOIDED'\<close>\<close>

definition bump_items :: "string \<Rightarrow> string \<Rightarrow> sql_row list \<Rightarrow> sql_row list" where
  "bump_items oid nextStatus rows =
     map (\<lambda>r. if col r ''kitchen_order_id'' = SText oid \<and> col r ''status'' \<noteq> SNull
                  \<and> col r ''status'' \<noteq> SText ''VOIDED''
               then set_col ''status'' (SText nextStatus) r else r) rows"

definition bump_txn :: "route_env \<Rightarrow> string \<Rightarrow> js_lookup \<Rightarrow> db \<Rightarrow> string + (string \<times> db)" where
  "bump_txn env oid nextStatus d =
     (case nextStatus of
        Own ns \<Rightarrow>
          Inr (ns,
               insert_outbox ''kitchen_order'' oid ''update''
                 (re_stringify env (JObj [(''id'', JStr oid), (''status'', JStr ns)])) None 5 (re_now env)
                 (d\<lparr>kitchen_orders := update_by_id oid (bump_order ns (re_now env)) (kitchen_orders d),
                    kitchen_order_items := bump_items oid ns (kitchen_order_items d)\<rparr>))
      | Inherited k \<Rightarrow> Inl ''TypeError: SQLite3 can only bind numbers, strings, bigints, buffers, and null''
      | Undefined \<Rightarrow> Inl ''TypeError: SQLite3 can only bind numbers, strings, bigints, buffers, and null'')"

text \<open>
  The handler: the status is read outside the transaction, the three writes run inside it,
  and \<open>broadcast\<close> is called after it has returned. A value of \<open>statusFlow[order.status]\<close>
  that is truthy but no string (an inherited property) cannot be bound, so the UPDATE throws.
\<close>

definition post_bump :: "route_env \<Rightarrow> string \<Rightarrow> hub \<Rightarrow> reply \<times> hub" where
  "post_bump env oid h =
     (case get_by_id oid (kitchen_orders (store h)) of
        None \<Rightarrow> (Inr (404, JObj [(''error'', JStr ''Kitchen order not found'')]), h)
      | Some order \<Rightarrow>
          (let nextStatus = status_key (col order ''status'')
           in if falsy nextStatus then
                (Inr (200, JObj [(''success'', JBool False),
                                 (''message'', JStr (''Cannot bump from status ''
                                                     @ sql_to_string (col order ''status'')))]), h)
              else
                (case transaction (bump_txn env oid nextStatus) (store h) of
                   (Inl e, d) \<Rightarrow> (Inl e, h\<lparr>store := d\<rparr>)
                 | (Inr ns, d) \<Rightarrow>
                     (Inr (200, JObj [(''success'', JBool True),
                                      (''previousStatus'', sql_to_json (col order ''status'')),
                                      (''newStatus'', JStr ns)]),
                      h\<lparr>store := d,
                        broadcasts := broadcasts h @
                          [\<lparr>ev_name = ''order:status'',
                            ev_data = JObj [(''id'', JStr oid), (''status'', JStr ns),
                                            (''previousStatus'', sql_to_json (col order ''status''))],
                            ev_role = None\<rparr>]\<rparr>))))"

subsection \<open>POST /api/kitchen-orders/:orderId/items/:itemId/status (api/kitchen-orders.ts)\<close>

text \<open>
  The handler destructures the body, reads the item, runs one UPDATE and answers. It calls
  neither \<open>transaction\<close> nor the INSERT into outbox_queue that the other routes of the file
  issue. The statement binds its arguments like every \<open>run\<close>; the last value is the item
  id, the first the new status or the void reason. The status column has no NOT NULL
  constraint.
\<close>

definition post_item_status ::
  "route_env \<Rightarrow> string \<Rightarrow> string \<Rightarrow> json option \<Rightarrow> hub \<Rightarrow> reply \<times> hub" where
  "post_item_status env orderId itemId req_body h =
     (case req_body of
        None \<Rightarrow> (Inl ''TypeError: Cannot destructure property of undefined'', h)
      | Some JNull \<Rightarrow> (Inl ''TypeError: Cannot destructure property of null'', h)
      | Some body \<Rightarrow>
          (case find (\<lambda>r. col r ''id'' = SText itemId \<and> col r ''kitchen_order_id'' = SText orderId)
                  (kitchen_order_items (store h)) of
             None \<Rightarrow> (Inr (404, JObj [(''error'', JStr ''Item not found'')]), h)
           | Some item \<Rightarrow>
               (let status = js_prop body ''status'';
                    voidReason = js_prop body ''voidReason''
                in if status = Some (JStr ''VOIDED'') then
                     (case bind_args 2 [Some (dflt voidReason JNull), Some (JStr itemId)] of
                        Inl e \<Rightarrow> (Inl e, h)
                      | Inr vs \<Rightarrow>
                          (Inr (200, JObj [(''success'', JBool True)]),
                           h\<lparr>store := (store h)\<lparr>kitchen_order_items :=
                                update_by_id itemId
                                  (\<lambda>r. set_col ''void_reason'' (hd vs)
                                         (set_col ''voided_at'' (SText (re_now env))
                                           (set_col ''status'' (SText ''VOIDED'') r)))
                                  (kitchen_order_items (store h))\<rparr>\<rparr>))
                   else
                     (case bind_args 2 [status, Some (JStr itemId)] of
                        Inl e \<Rightarrow> (Inl e, h)
                      | Inr vs \<Rightarrow>
                          (Inr (200, JObj [(''success'', JBool True)]),
                           h\<lparr>store := (store h)\<lparr>kitchen_order_items :=
                                update_by_id itemId (set_col ''status'' (hd vs))
                                  (kitchen_order_items (store h))\<rparr>\<rparr>)))))"

subsection \<open>POST /api/users/:userId/change-pin (src/api/users.ts)\<close>

definition change_pin_txn :: "route_env \<Rightarrow> string \<Rightarrow> string \<Rightarrow> db \<Rightarrow> string + (unit \<times> db)" where
  "change_pin_txn env userId pinHash d =
     Inr ((),
          insert_outbox ''user'' userId ''update_pin''
            (re_stringify env (JObj [(''userId'', JStr userId), (''pinHash'', JStr pinHash)])) None 5
            (re_now env)
            (d\<lparr>users := update_by_id userId
                           (\<lambda>r. set_col ''updated_at'' (SText (re_now env))
                                  (set_col ''pin_hash'' (SText pinHash) r))
                           (users d)\<rparr>))"

definition post_change_pin :: "route_env \<Rightarrow> string \<Rightarrow> string \<Rightarrow> hub \<Rightarrow> reply \<times> hub" where
  "post_change_pin env userId newPin h =
     (case find (\<lambda>r. col r ''id'' = SText userId
                     \<and> col r ''tenant_id'' = SText (or_empty (tenantId (re_config env))))
             (users (store h)) of
        None \<Rightarrow> (Inr (404, JObj [(''error'', JStr ''User not found'')]), h)
      | Some user \<Rightarrow>
          (let pinHash = re_hashSync env newPin
           in case transaction (change_pin_txn env userId pinHash) (store h) of
                (Inl e, d) \<Rightarrow> (Inl e, h\<lparr>store := d\<rparr>)
              | (Inr u, d) \<Rightarrow> (Inr (200, JObj [(''success'', JBool True)]), h\<lparr>store := d\<rparr>)))"

subsection \<open>POST /api/auth/pin (api/auth.ts)\<close>

definition PIN_RATE_LIMIT :: nat where
  "PIN_RATE_LIMIT = 10"

definition PIN_RATE_WINDOW_MS :: int where
  "PIN_RATE_WINDOW_MS = 5 * 60 * 1000"

definition MAX_RECENT_USERS :: nat where
  "MAX_RECENT_USERS = 5"

definition checkPinRateLimit ::
  "int \<Rightarrow> string \<Rightarrow> (string \<Rightarrow> rate_entry option) \<Rightarrow> bool \<times> (string \<Rightarrow> rate_entry option)" where
  "checkPinRateLimit now ip m =
     (case m ip of
        None \<Rightarrow> (True, m(ip \<mapsto> \<lparr>count = 1, resetAt = now + PIN_RATE_WINDOW_MS\<rparr>))
      | Some entry \<Rightarrow>
          if now \<ge> resetAt entry then
            (True, m(ip \<mapsto> \<lparr>count = 1, resetAt = now + PIN_RATE_WINDOW_MS\<rparr>))
          else
            (count entry + 1 \<le> PIN_RATE_LIMIT, m(ip \<mapsto> entry\<lparr>count := count entry + 1\<rparr>)))"

text \<open>The ten-minute cleanup timer.\<close>

definition cleanup_pinAttempts :: "int \<Rightarrow> (string \<Rightarrow> rate_entry option) \<Rightarrow> (string \<Rightarrow> rate_entry option)" where
  "cleanup_pinAttempts now m =
     (\<lambda>ip. case m ip of
              None \<Rightarrow> None
            | Some entry \<Rightarrow> if now \<ge> resetAt entry then None else Some entry)"

definition recordRecentUser :: "string \<Rightarrow> string list \<Rightarrow> string list" where
  "recordRecentUser userId ids =
     (let ids' = userId # remove1 userId ids
      in if length ids' > MAX_RECENT_USERS then butlast ids' else ids')"

text \<open>\<open>!pin || pin.length < 4 || pin.length > 10\<close>\<close>

definition pin_malformed :: "string option \<Rightarrow> bool" where
  "pin_malformed pin =
     (case pin of None \<Rightarrow> True | Some p \<Rightarrow> p = [] \<or> length p < 4 \<or> length p > 10)"

text \<open>
  The users the SELECT returns, and the two passes over them: the recent ids first, in
  list order, then the users not in the recent list. A comparison that throws is skipped.
\<close>

definition pin_users :: "route_env \<Rightarrow> db \<Rightarrow> sql_row list" where
  "pin_users env d =
     filter (\<lambda>u. col u ''tenant_id'' = SText (or_empty (tenantId (re_config env)))
                \<and> col u ''is_active'' = SNum 1 \<and> col u ''pin_hash'' \<noteq> SNull)
       (users d)"

definition pin_matches :: "route_env \<Rightarrow> string \<Rightarrow> sql_row \<Rightarrow> bool" where
  "pin_matches env pin u = (re_compare env pin (sql_to_string (col u ''pin_hash'')) = Some True)"

fun try_recent :: "route_env \<Rightarrow> string \<Rightarrow> sql_row list \<Rightarrow> string list \<Rightarrow> sql_row option" where
  "try_recent env pin us [] = None"
| "try_recent env pin us (recentId # rest) =
     (case find (\<lambda>u. col u ''id'' = SText recentId) us of
        None \<Rightarrow> try_recent env pin us rest
      | Some candidate \<Rightarrow>
          if pin_matches env pin candidate then Some candidate else try_recent env pin us rest)"

definition find_pin_user :: "route_env \<Rightarrow> string \<Rightarrow> sql_row list \<Rightarrow> string list \<Rightarrow> sql_row option" where
  "find_pin_user env pin us recent =
     (case try_recent env pin us recent of
        Some u \<Rightarrow> Some u
      | None \<Rightarrow>
          find (pin_matches env pin)
            (filter (\<lambda>u. sql_to_string (col u ''id'') \<notin> set recent) us))"

definition session_txn :: "route_env \<Rightarrow> string \<Rightarrow> string \<Rightarrow> sql_row \<Rightarrow> db \<Rightarrow> string + (unit \<times> db)" where
  "session_txn env sessionId terminalId user d =
     (case run_insert terminal_sessions_def
             [(''id'', P), (''terminal_id'', P), (''user_id'', P), (''user_name'', P),
              (''started_at'', L (SText (re_now env))), (''is_active'', L (SNum 1))]
             [Some (JStr sessionId), Some (JStr terminalId),
              Some (JStr (sql_to_string (col user ''id''))),
              Some (sql_to_json (col user ''name''))]
             (terminal_sessions d) of
        Inl e \<Rightarrow> Inl e
      | Inr rows \<Rightarrow>
          Inr ((),
               d\<lparr>terminal_sessions := rows,
                 terminals := update_by_id terminalId
                   (\<lambda>r. set_col ''last_seen_at'' (SText (re_now env))
                          (set_col ''status'' (SText ''ONLINE'')
                            (set_col ''current_user_name'' (col user ''name'')
                              (set_col ''current_user_id'' (col user ''id'') r))))
                   (terminals d)\<rparr>))"

text \<open>
  The request: \<open>req.ip\<close>, \<open>body.pin\<close>, \<open>body.terminalId\<close> and the \<open>x-terminal-id\<close>
  header.
\<close>

record pin_request =
  pr_ip :: "string option"
  pr_pin :: "string option"
  pr_terminalId :: "string option"
  pr_header_terminalId :: "string option"

text \<open>\<open>safeParseJson(value, [])\<close>\<close>

definition safeParseJson :: "route_env \<Rightarrow> sql_value \<Rightarrow> json" where
  "safeParseJson env v =
     (case v of
        SText s \<Rightarrow> (case re_parse env s of None \<Rightarrow> JArr [] | Some j \<Rightarrow> j)
      | SNull \<Rightarrow> JArr []
      | SNum q \<Rightarrow> JArr [])"

definition user_json :: "route_env \<Rightarrow> sql_row \<Rightarrow> json" where
  "user_json env u =
     JObj [(''id'', sql_to_json (col u ''id'')), (''name'', sql_to_json (col u ''name'')),
           (''email'', sql_to_json (col u ''email'')), (''role'', sql_to_json (col u ''role'')),
           (''permissions'', safeParseJson env (col u ''permissions'')),
           (''maxDiscount'', sql_to_json (col u ''max_discount''))]"

definition post_auth_pin :: "route_env \<Rightarrow> pin_request \<Rightarrow> hub \<Rightarrow> reply \<times> hub" where
  "post_auth_pin env req h =
     (if pin_malformed (pr_pin req) then
        (Inr (400, JObj [(''error'', JStr ''PIN must be 4-10 characters'')]), h)
      else
        (let pin = or_empty (pr_pin req);
             clientIp = (case pr_ip req of None \<Rightarrow> ''unknown'' | Some ip \<Rightarrow> ip);
             (allowed, buckets) = checkPinRateLimit (re_clock env) clientIp (pinAttempts h);
             h1 = h\<lparr>pinAttempts := buckets\<rparr>
         in if \<not> allowed then
              (Inr (429, JObj [(''error'', JStr ''Too many PIN attempts. Try again later.'')]), h1)
            else
              (case find_pin_user env pin (pin_users env (store h1)) (recentUserIds h1) of
                 None \<Rightarrow> (Inr (401, JObj [(''error'', JStr ''Invalid PIN'')]), h1)
               | Some user \<Rightarrow>
                   (let h2 = h1\<lparr>recentUserIds :=
                                  recordRecentUser (sql_to_string (col user ''id'')) (recentUserIds h1)\<rparr>;
                        sessionId = re_ids env 0;
                        ok = (Inr (200, JObj [(''success'', JBool True), (''user'', user_json env user),
                                              (''sessionId'', JStr sessionId)]) :: reply)
                    in case (case pr_terminalId req of None \<Rightarrow> pr_header_terminalId req
                                                            | Some t \<Rightarrow> Some t) of
                         None \<Rightarrow> (ok, h2)
                       | Some tid \<Rightarrow>
                           if tid = [] \<or> get_by_id tid (terminals (store h2)) = None then (ok, h2)
                           else
                             (case transaction (session_txn env sessionId tid user) (store h2) of
                                (Inl e, d) \<Rightarrow> (Inl e, h2\<lparr>store := d\<rparr>)
                              | (Inr u, d) \<Rightarrow> (ok, h2\<lparr>store := d\<rparr>))))))"

text \<open>What happens on the hub between two moments: PIN requests and ticks of the cleanup timer.\<close>

datatype auth_event = PinRequest route_env pin_request | CleanupTick int

fun event_time :: "auth_event \<Rightarrow> int" where
  "event_time (PinRequest env req) = re_clock env"
| "event_time (CleanupTick t) = t"

fun auth_step :: "auth_event \<Rightarrow> hub \<Rightarrow> hub" where
  "auth_step (PinRequest env req) h = snd (post_auth_pin env req h)"
| "auth_step (CleanupTick t) h = h\<lparr>pinAttempts := cleanup_pinAttempts t (pinAttempts h)\<rparr>"

text \<open>A well-formed PIN attempt from the given address.\<close>

fun attempt_from :: "string \<Rightarrow> auth_event \<Rightarrow> bool" where
  "attempt_from ip (PinRequest env req) =
     (\<not> pin_malformed (pr_pin req) \<and> (case pr_ip req of None \<Rightarrow> ''unknown'' | Some a \<Rightarrow> a) = ip)"
| "attempt_from ip (CleanupTick t) = False"

section \<open>Pull engine (sync/pull-sync.ts)\<close>

record PullResult =
  entity :: string
  pulled :: nat
  errors :: "string list"

text \<open>A row of sync_state; \<open>entity_type\<close> is the key of the table.\<close>

record sync_row =
  last_synced_at :: "string option"
  last_version :: "string option"
  cursor :: "string option"
  record_count :: nat
  sync_status :: string
  updated_at :: "string option"

text \<open>
  The engine writes some sixty reference tables through two generic helpers. Their
  contents are kept abstract (\<open>'t\<close>); sync_state, which the claims are about, is explicit.
\<close>

record 't pull_state =
  ref_tables :: 't
  sync_state :: "string \<Rightarrow> sync_row option"

text \<open>
  The environment of a cycle. \<open>pl_network path params\<close> is what the network does with the
  GET. The per-entity field mapping of one cloud item (\<open>transformItems\<close> and the
  \<open>rawItems.map\<close> of each handler) is \<open>pl_row_of\<close>, \<open>Inl\<close> when it throws (an item
  that is \<open>null\<close>, say). \<open>pl_prepare\<close>: \<open>db.prepare\<close> succeeds for the table.
  \<open>pl_run\<close>: one \<open>stmt.run\<close> of the upsert or insert, \<open>None\<close> when it throws.
  \<open>pl_delete_all\<close>: \<open>DELETE FROM table\<close>. \<open>pl_extra\<close>: the further writes of a handler
  (companion tables of products, the data blob of pizza_location_config, the deletedIds of
  kitchen_orders and sales) with the exception they end in, if any. \<open>pl_write_one\<close>: the
  \<open>INSERT OR REPLACE\<close> of the two settings handlers. \<open>pl_terminals\<close>: the ids the
  SELECT on terminals returns.
\<close>

record ('t, 'r) pull_env =
  pl_config :: config
  pl_network :: "string \<Rightarrow> (string \<times> string) list \<Rightarrow> http_result"
  pl_now :: string
  pl_row_of :: "string \<Rightarrow> json \<Rightarrow> string + 'r"
  pl_prepare :: "string \<Rightarrow> bool"
  pl_run :: "string \<Rightarrow> 'r \<Rightarrow> 't \<Rightarrow> 't option"
  pl_delete_all :: "string \<Rightarrow> 't \<Rightarrow> 't"
  pl_extra :: "string \<Rightarrow> json \<Rightarrow> 't \<Rightarrow> 't \<times> string option"
  pl_write_one :: "string \<Rightarrow> json \<Rightarrow> 't \<Rightarrow> 't option"
  pl_terminals :: "'t \<Rightarrow> string list"

fun extractItems :: "json \<Rightarrow> json list" where
  "extractItems (JArr xs) = xs"
| "extractItems (JObj kvs) =
     (case map_of kvs ''items'' of Some (JArr xs) \<Rightarrow> xs | _ \<Rightarrow> [])"
| "extractItems v = []"

text \<open>\<open>rawItems.map(f)\<close> with an \<open>f\<close> that may throw: the first exception ends the map.\<close>

fun map_rows :: "(json \<Rightarrow> string + 'r) \<Rightarrow> json list \<Rightarrow> string + 'r list" where
  "map_rows f [] = Inr []"
| "map_rows f (x # xs) =
     (case f x of
        Inl e \<Rightarrow> Inl e
      | Inr r \<Rightarrow> (case map_rows f xs of Inl e \<Rightarrow> Inl e | Inr rs \<Rightarrow> Inr (r # rs)))"

definition getSyncState :: "string \<Rightarrow> (string \<Rightarrow> sync_row option) \<Rightarrow> sync_row" where
  "getSyncState entityType m =
     (case m entityType of
        Some row \<Rightarrow> row
      | None \<Rightarrow> \<lparr>last_synced_at = None, last_version = None, cursor = None, record_count = 0,
                  sync_status = ''IDLE'', updated_at = None\<rparr>)"

definition updateSyncState ::
  "string \<Rightarrow> nat \<Rightarrow> string \<Rightarrow> (string \<Rightarrow> sync_row option) \<Rightarrow> (string \<Rightarrow> sync_row option)" where
  "updateSyncState entityType recordCount now m =
     m(entityType \<mapsto>
        (case m entityType of
           None \<Rightarrow> \<lparr>last_synced_at = Some now, last_version = None, cursor = None,
                     record_count = recordCount, sync_status = ''SUCCESS'', updated_at = Some now\<rparr>
         | Some row \<Rightarrow> row\<lparr>last_synced_at := Some now, record_count := recordCount,
                             sync_status := ''SUCCESS'', updated_at := Some now\<rparr>))"

text \<open>
  The loop inside \<open>insertMany\<close> and \<open>replaceTable\<close>: a row whose statement throws is
  logged and skipped; the count is of the rows that went in.
\<close>

fun run_each :: "('r \<Rightarrow> 't \<Rightarrow> 't option) \<Rightarrow> 'r list \<Rightarrow> nat \<Rightarrow> 't \<Rightarrow> nat \<times> 't" where
  "run_each run [] n t = (n, t)"
| "run_each run (r # rs) n t =
     (case run r t of None \<Rightarrow> run_each run rs n t | Some t' \<Rightarrow> run_each run rs (Suc n) t')"

definition upsertRows :: "('t, 'r) pull_env \<Rightarrow> string \<Rightarrow> 'r list \<Rightarrow> 't \<Rightarrow> string + (nat \<times> 't)" where
  "upsertRows env tableName rows t =
     (if rows = [] then Inr (0, t)
      else if \<not> pl_prepare env tableName then Inl ''SqliteError: prepare failed''
      else Inr (run_each (pl_run env tableName) rows 0 t))"

definition replaceTable :: "('t, 'r) pull_env \<Rightarrow> string \<Rightarrow> 'r list \<Rightarrow> 't \<Rightarrow> string + 't" where
  "replaceTable env tableName rows t =
     (if rows = [] then Inr t
      else if \<not> pl_prepare env tableName then Inl ''SqliteError: prepare failed''
      else Inr (snd (run_each (pl_run env tableName) rows 0 (pl_delete_all env tableName t))))"

text \<open>
  The handlers differ in three places. How the response is read: through
  \<open>fetchAndTransform\<close> (404 gives no rows, any other failure throws), or directly, where a
  failure is returned as the entity's result, with or without the 404 exception. How the
  rows are written: \<open>upsertRows\<close>, or \<open>replaceTable\<close> with \<open>rows.length\<close> as the count, or,
  in \<open>pullPizzaCheesesPrices\<close>, \<open>replaceTable\<close> followed by a read of the variable
  \<open>count\<close>, which that function does not declare. Whether further writes come before or
  after \<open>updateSyncState\<close>.
\<close>

datatype fetch_kind = FetchAndTransform | Direct | Direct404

datatype write_kind = Upsert | Replace | ReplaceThenCount

datatype extra_kind = NoExtra | ExtraBeforeState | ExtraAfterState

record handler =
  h_entity :: string
  h_path :: string
  h_since :: bool
  h_fetch :: fetch_kind
  h_write :: write_kind
  h_extra :: extra_kind

definition http_error :: "CloudResponse \<Rightarrow> string" where
  "http_error res = error_or res (''HTTP '' @ string_of_int (cr_status res))"

definition handler_params :: "handler \<Rightarrow> 't pull_state \<Rightarrow> (string \<times> string) list" where
  "handler_params hdl st =
     (if h_since hdl then
        (case last_synced_at (getSyncState (h_entity hdl) (sync_state st)) of
           None \<Rightarrow> []
         | Some ts \<Rightarrow> if ts = [] then [] else [(''sinceVersion'', ts)])
      else [])"

definition write_rows ::
  "('t, 'r) pull_env \<Rightarrow> handler \<Rightarrow> 'r list \<Rightarrow> 't \<Rightarrow> (string + nat) \<times> 't" where
  "write_rows env hdl rows t =
     (case h_write hdl of
        Upsert \<Rightarrow>
          (case upsertRows env (h_entity hdl) rows t of
             Inl e \<Rightarrow> (Inl e, t)
           | Inr (n, t') \<Rightarrow> (Inr n, t'))
      | Replace \<Rightarrow>
          (case replaceTable env (h_entity hdl) rows t of
             Inl e \<Rightarrow> (Inl e, t)
           | Inr t' \<Rightarrow> (Inr (length rows), t'))
      | ReplaceThenCount \<Rightarrow>
          (case replaceTable env (h_entity hdl) rows t of
             Inl e \<Rightarrow> (Inl e, t)
           | Inr t' \<Rightarrow> (Inl ''ReferenceError: count is not defined'', t')))"

text \<open>What a handler does once it holds the items of the response.\<close>

definition store_items ::
  "('t, 'r) pull_env \<Rightarrow> handler \<Rightarrow> json \<Rightarrow> json list \<Rightarrow> 't pull_state \<Rightarrow> (string + PullResult) \<times> 't pull_state" where
  "store_items env hdl data items st =
     (case map_rows (pl_row_of env (h_entity hdl)) items of
        Inl e \<Rightarrow> (Inl e, st)
      | Inr rows \<Rightarrow>
          (case write_rows env hdl rows (ref_tables st) of
             (Inl e, t) \<Rightarrow> (Inl e, st\<lparr>ref_tables := t\<rparr>)
           | (Inr n, t) \<Rightarrow>
               (let done = \<lparr>entity = h_entity hdl, pulled = n, errors = []\<rparr>
                in case h_extra hdl of
                     NoExtra \<Rightarrow>
                       (Inr done,
                        \<lparr>ref_tables = t,
                         sync_state = updateSyncState (h_entity hdl) n (pl_now env) (sync_state st)\<rparr>)
                   | ExtraBeforeState \<Rightarrow>
                       (case pl_extra env (h_entity hdl) data t of
                          (t', Some e) \<Rightarrow> (Inl e, st\<lparr>ref_tables := t'\<rparr>)
                        | (t', None) \<Rightarrow>
                            (Inr done,
                             \<lparr>ref_tables = t',
                              sync_state = updateSyncState (h_entity hdl) n (pl_now env) (sync_state st)\<rparr>))
                   | ExtraAfterState \<Rightarrow>
                       (case pl_extra env (h_entity hdl) data t of
                          (t', Some e) \<Rightarrow>
                            (Inl e,
                             \<lparr>ref_tables = t',
                              sync_state = updateSyncState (h_entity hdl) n (pl_now env) (sync_state st)\<rparr>)
                        | (t', None) \<Rightarrow>
                            (Inr done,
                             \<lparr>ref_tables = t',
                              sync_state = updateSyncState (h_entity hdl) n (pl_now env) (sync_state st)\<rparr>)))))"

definition run_handler ::
  "('t, 'r) pull_env \<Rightarrow> handler \<Rightarrow> 't pull_state \<Rightarrow> (string + PullResult) \<times> 't pull_state" where
  "run_handler env hdl st =
     (case cloud_request (pl_network env (h_path hdl) (handler_params hdl st)) of
        Inl e \<Rightarrow> (Inl e, st)
      | Inr res \<Rightarrow>
          if cr_ok res then store_items env hdl (cr_data res) (extractItems (cr_data res)) st
          else
            (case h_fetch hdl of
               FetchAndTransform \<Rightarrow>
                 if cr_status res = 404 then store_items env hdl JNull [] st
                 else (Inl (http_error res), st)
             | Direct \<Rightarrow>
                 (Inr \<lparr>entity = h_entity hdl, pulled = 0, errors = [http_error res]\<rparr>, st)
             | Direct404 \<Rightarrow>
                 if cr_status res = 404 then
                   (Inr \<lparr>entity = h_entity hdl, pulled = 0, errors = []\<rparr>, st)
                 else (Inr \<lparr>entity = h_entity hdl, pulled = 0, errors = [http_error res]\<rparr>, st)))"

text \<open>\<open>!data || !data.id\<close>\<close>

fun js_truthy :: "json option \<Rightarrow> bool" where
  "js_truthy None = False"
| "js_truthy (Some JNull) = False"
| "js_truthy (Some (JBool b)) = b"
| "js_truthy (Some (JNum q)) = (q \<noteq> 0)"
| "js_truthy (Some (JStr s)) = (s \<noteq> [])"
| "js_truthy (Some (JArr xs)) = True"
| "js_truthy (Some (JObj kvs)) = True"

definition has_id :: "json \<Rightarrow> bool" where
  "has_id data = (js_truthy (Some data) \<and> js_truthy (js_prop data ''id''))"

definition pullLocationSettings ::
  "('t, 'r) pull_env \<Rightarrow> 't pull_state \<Rightarrow> (string + PullResult) \<times> 't pull_state" where
  "pullLocationSettings env st =
     (case cloud_request (pl_network env ''/api/hub/sync/location-settings'' []) of
        Inl e \<Rightarrow> (Inl e, st)
      | Inr res \<Rightarrow>
          if \<not> cr_ok res then
            (Inr \<lparr>entity = ''location_settings'', pulled = 0, errors = [http_error res]\<rparr>, st)
          else if \<not> has_id (cr_data res) then
            (Inr \<lparr>entity = ''location_settings'', pulled = 0, errors = []\<rparr>, st)
          else
            (case pl_write_one env ''location_settings'' (cr_data res) (ref_tables st) of
               None \<Rightarrow> (Inl ''SqliteError: INSERT OR REPLACE failed'', st)
             | Some t \<Rightarrow>
                 (Inr \<lparr>entity = ''location_settings'', pulled = 1, errors = []\<rparr>,
                  \<lparr>ref_tables = t,
                   sync_state = updateSyncState ''location_settings'' 1 (pl_now env) (sync_state st)\<rparr>)))"

text \<open>The loop of \<open>pullTerminalSettings\<close> over the registered terminals.\<close>

fun terminal_loop ::
  "('t, 'r) pull_env \<Rightarrow> string list \<Rightarrow> nat \<Rightarrow> string list \<Rightarrow> 't \<Rightarrow> (string + (nat \<times> string list)) \<times> 't" where
  "terminal_loop env [] n errs t = (Inr (n, errs), t)"
| "terminal_loop env (tid # rest) n errs t =
     (case cloud_request (pl_network env ''/api/hub/sync/terminal-settings'' [(''terminalId'', tid)]) of
        Inl e \<Rightarrow> (Inl e, t)
      | Inr res \<Rightarrow>
          if \<not> cr_ok res then
            terminal_loop env rest n (errs @ [''Terminal '' @ tid @ '': '' @ http_error res]) t
          else if \<not> has_id (cr_data res) then terminal_loop env rest n errs t
          else
            (case pl_write_one env ''terminal_settings'' (cr_data res) t of
               None \<Rightarrow> (Inl ''SqliteError: INSERT OR REPLACE failed'', t)
             | Some t' \<Rightarrow> terminal_loop env rest (Suc n) errs t'))"

definition pullTerminalSettings ::
  "('t, 'r) pull_env \<Rightarrow> 't pull_state \<Rightarrow> (string + PullResult) \<times> 't pull_state" where
  "pullTerminalSettings env st =
     (let terminals = pl_terminals env (ref_tables st)
      in if terminals = [] then
           (Inr \<lparr>entity = ''terminal_settings'', pulled = 0, errors = []\<rparr>, st)
         else
           (case terminal_loop env terminals 0 [] (ref_tables st) of
              (Inl e, t) \<Rightarrow> (Inl e, st\<lparr>ref_tables := t\<rparr>)
            | (Inr (n, errs), t) \<Rightarrow>
                (Inr \<lparr>entity = ''terminal_settings'', pulled = n, errors = errs\<rparr>,
                 \<lparr>ref_tables = t,
                  sync_state = updateSyncState ''terminal_settings'' n (pl_now env) (sync_state st)\<rparr>)))"

text \<open>
  The plan of \<open>runFullSync\<close>, in its order. Every handler writes the table named like its
  entity.
\<close>

datatype plan_entry = Generic handler | LocationSettings | TerminalSettings

definition mk_handler ::
  "string \<Rightarrow> string \<Rightarrow> bool \<Rightarrow> fetch_kind \<Rightarrow> write_kind \<Rightarrow> extra_kind \<Rightarrow> handler" where
  "mk_handler e p s f w x =
     \<lparr>h_entity = e, h_path = p, h_since = s, h_fetch = f, h_write = w, h_extra = x\<rparr>"

definition entities :: "plan_entry list" where
  "entities =
     [Generic (mk_handler ''categories'' ''/api/hub/sync/categories'' True FetchAndTransform Upsert NoExtra),
      Generic (mk_handler ''products'' ''/api/hub/sync/products'' True Direct Upsert ExtraBeforeState),
      Generic (mk_handler ''product_variants'' ''/api/hub/sync/product-variants'' True FetchAndTransform Upsert NoExtra),
      Generic (mk_handler ''tax_types'' ''/api/hub/sync/tax-types'' False FetchAndTransform Upsert NoExtra),
      Generic (mk_handler ''location_taxes'' ''/api/hub/sync/location-taxes'' False FetchAndTransform Upsert NoExtra),
      Generic (mk_handler ''location_category_taxes'' ''/api/hub/sync/location-category-taxes'' False FetchAndTransform Upsert NoExtra),
      Generic (mk_handler ''customers'' ''/api/hub/sync/customers'' True FetchAndTransform Upsert NoExtra),
      Generic (mk_handler ''modifier_groups'' ''/api/hub/sync/modifier-groups'' False FetchAndTransform Upsert NoExtra),
      Generic (mk_handler ''modifiers'' ''/api/hub/sync/modifiers'' False FetchAndTransform Upsert NoExtra),
      Generic (mk_handler ''product_modifier_groups'' ''/api/hub/sync/product-modifier-groups'' False FetchAndTransform Upsert NoExtra),
      Generic (mk_handler ''discount_templates'' ''/api/hub/sync/discount-templates'' False Direct Upsert NoExtra),
      Generic (mk_handler ''gift_cards'' ''/api/hub/sync/gift-cards'' False Direct Upsert NoExtra),
      Generic (mk_handler ''coupon_codes'' ''/api/hub/sync/coupons'' False Direct Upsert NoExtra),
      Generic (mk_handler ''deals'' ''/api/hub/sync/deals'' False Direct Upsert NoExtra),
      Generic (mk_handler ''deal_items'' ''/api/hub/sync/deal-items'' False Direct404 Upsert NoExtra),
      Generic (mk_handler ''deal_time_restrictions'' ''/api/hub/sync/deal-time-restrictions'' False FetchAndTransform Upsert NoExtra),
      Generic (mk_handler ''deal_size_prices'' ''/api/hub/sync/deal-size-prices'' False FetchAndTransform Upsert NoExtra),
      Generic (mk_handler ''users'' ''/api/hub/sync/users'' True Direct Upsert NoExtra),
      LocationSettings,
      TerminalSettings,
      Generic (mk_handler ''floors'' ''/api/hub/sync/floors'' False Direct Upsert NoExtra),
      Generic (mk_handler ''areas'' ''/api/hub/sync/areas'' False Direct Upsert NoExtra),
      Generic (mk_handler ''tables'' ''/api/hub/sync/tables'' False Direct Upsert NoExtra),
      Generic (mk_handler ''courses'' ''/api/hub/sync/courses'' False Direct Upsert NoExtra),
      Generic (mk_handler ''note_presets'' ''/api/hub/sync/note-presets'' False FetchAndTransform Upsert NoExtra),
      Generic (mk_handler ''location_product_overrides'' ''/api/hub/sync/location-product-overrides'' False FetchAndTransform Upsert NoExtra),
      Generic (mk_handler ''pizza_size_prices'' ''/api/hub/sync/pizza-size-prices'' False Direct404 Upsert NoExtra),
      Generic (mk_handler ''pizza_topping_prices'' ''/api/hub/sync/pizza-topping-prices'' False Direct404 Replace NoExtra),
      Generic (mk_handler ''pizza_crust_prices'' ''/api/hub/sync/pizza-crust-prices'' False Direct404 Replace NoExtra),
      Generic (mk_handler ''pizza_sauce_prices'' ''/api/hub/sync/pizza-sauce-prices'' False Direct404 Replace NoExtra),
      Generic (mk_handler ''pizza_cheese_prices'' ''/api/hub/sync/pizza-cheese-prices'' False Direct404 ReplaceThenCount NoExtra),
      Generic (mk_handler ''pizza_size_order_type_prices'' ''/api/hub/sync/pizza-size-order-type-prices'' False FetchAndTransform Upsert NoExtra),
      Generic (mk_handler ''pizza_location_config'' ''/api/hub/sync/pizza-location-config'' False Direct404 Upsert ExtraAfterState),
      Generic (mk_handler ''roles'' ''/api/hub/sync/roles'' False FetchAndTransform Upsert NoExtra),
      Generic (mk_handler ''inventory_levels'' ''/api/hub/sync/inventory-levels'' False FetchAndTransform Upsert NoExtra),
      Generic (mk_handler ''post_codes'' ''/api/hub/sync/post-codes'' False FetchAndTransform Upsert NoExtra),
      Generic (mk_handler ''customer_addresses'' ''/api/hub/sync/customer-addresses'' False FetchAndTransform Upsert NoExtra),
      Generic (mk_handler ''category_schedules'' ''/api/hub/sync/category-schedules'' False FetchAndTransform Upsert NoExtra),
      Generic (mk_handler ''price_schedules'' ''/api/hub/sync/price-schedules'' False FetchAndTransform Upsert NoExtra),
      Generic (mk_handler ''deal_size_order_type_prices'' ''/api/hub/sync/deal-size-order-type-prices'' False FetchAndTransform Upsert NoExtra),
      Generic (mk_handler ''location_business_hours'' ''/api/hub/sync/location-business-hours'' False FetchAndTransform Upsert NoExtra),
      Generic (mk_handler ''web_order_settings'' ''/api/hub/sync/web-order-settings'' False Direct404 Upsert NoExtra),
      Generic (mk_handler ''caller_id_config'' ''/api/hub/sync/caller-id-config'' True FetchAndTransform Upsert NoExtra),
      Generic (mk_handler ''caller_id_lines'' ''/api/hub/sync/caller-id-lines'' True FetchAndTransform Upsert NoExtra),
      Generic (mk_handler ''cash_drawers'' ''/api/hub/sync/cash-drawers'' False FetchAndTransform Upsert NoExtra),
      Generic (mk_handler ''cash_drawer_transactions'' ''/api/hub/sync/cash-drawer-transactions'' False FetchAndTransform Upsert NoExtra),
      Generic (mk_handler ''staff_banks'' ''/api/hub/sync/staff-banks'' False FetchAndTransform Upsert NoExtra),
      Generic (mk_handler ''staff_bank_transactions'' ''/api/hub/sync/staff-bank-transactions'' False FetchAndTransform Upsert NoExtra),
      Generic (mk_handler ''store_credits'' ''/api/hub/sync/store-credits'' False FetchAndTransform Upsert NoExtra),
      Generic (mk_handler ''kitchen_orders'' ''/api/hub/sync/kitchen-orders'' True Direct404 Upsert ExtraBeforeState),
      Generic (mk_handler ''kitchen_order_items'' ''/api/hub/sync/kitchen-order-items'' False Direct404 Upsert NoExtra),
      Generic (mk_handler ''sales'' ''/api/hub/sync/sales'' True Direct404 Upsert ExtraBeforeState),
      Generic (mk_handler ''sale_items'' ''/api/hub/sync/sale-items'' False Direct404 Upsert NoExtra)]"

fun entry_name :: "plan_entry \<Rightarrow> string" where
  "entry_name (Generic hdl) = h_entity hdl"
| "entry_name LocationSettings = ''location_settings''"
| "entry_name TerminalSettings = ''terminal_settings''"

fun run_entry ::
  "('t, 'r) pull_env \<Rightarrow> plan_entry \<Rightarrow> 't pull_state \<Rightarrow> (string + PullResult) \<times> 't pull_state" where
  "run_entry env (Generic hdl) st = run_handler env hdl st"
| "run_entry env LocationSettings st = pullLocationSettings env st"
| "run_entry env TerminalSettings st = pullTerminalSettings env st"

text \<open>
  The \<open>for (const entity of entities)\<close> loop with its \<open>try\<close>/\<open>catch\<close>: a handler that throws
  contributes a result with its message, and the loop goes on.
\<close>

fun pull_loop ::
  "('t, 'r) pull_env \<Rightarrow> plan_entry list \<Rightarrow> PullResult list \<Rightarrow> 't pull_state \<Rightarrow> PullResult list \<times> 't pull_state" where
  "pull_loop env [] results st = (results, st)"
| "pull_loop env (e # es) results st =
     (case run_entry env e st of
        (Inr result, st') \<Rightarrow> pull_loop env es (results @ [result]) st'
      | (Inl msg, st') \<Rightarrow>
          pull_loop env es (results @ [\<lparr>entity = entry_name e, pulled = 0, errors = [msg]\<rparr>]) st')"

definition runFullSync ::
  "('t, 'r) pull_env \<Rightarrow> bool \<Rightarrow> 't pull_state \<Rightarrow> PullResult list \<times> bool \<times> 't pull_state" where
  "runFullSync env running st =
     (if running then ([], running, st)
      else if \<not> isConfigured (pl_config env) then ([], running, st)
      else (let (results, st') = pull_loop env entities [] st in (results, False, st')))"


section \<open>Notions used in the statements\<close>

subsection \<open>Push engine\<close>

definition settle :: "push_env \<Rightarrow> OutboxItem \<Rightarrow> OutboxItem \<Rightarrow> OutboxItem" where
  "settle env item r0 =
     (let r = r0\<lparr>status := ''PROCESSING'', attempts := attempts r0 + 1\<rparr>
      in if falsy (js_index pushEndpoints (entity_type item)) then
           r\<lparr>status := ''DEAD_LETTER'', error := Some ''Unknown entity type''\<rparr>
         else
           (case pe_parse env (payload item) of
              None \<Rightarrow> r\<lparr>status := ''DEAD_LETTER'', error := Some ''Invalid JSON payload''\<rparr>
            | Some pl \<Rightarrow>
                (case cloud_request (pe_network env item) of
                   Inl msg \<Rightarrow> r\<lparr>status := ''PENDING'', error := Some msg\<rparr>
                 | Inr res \<Rightarrow>
                     if cr_ok res then r\<lparr>status := ''SYNCED'', synced_at := Some (pe_now env)\<rparr>
                     else if cr_status res = 409 then
                       r\<lparr>status := ''SYNCED'', synced_at := Some (pe_now env),
                         error := Some ''Duplicate (409)''\<rparr>
                     else if cr_status res \<ge> 400 \<and> cr_status res < 500 then
                       r\<lparr>status := ''DEAD_LETTER'',
                         error := Some (''HTTP '' @ string_of_int (cr_status res) @ '': ''
                                        @ error_or res ''Client error'')\<rparr>
                     else if attempts item + 1 \<ge> max_attempts item then
                       r\<lparr>status := ''DEAD_LETTER'',
                         error := Some (''Max attempts reached. Last: HTTP ''
                                        @ string_of_int (cr_status res))\<rparr>
                     else
                       r\<lparr>status := ''PENDING'',
                         error := Some (''HTTP '' @ string_of_int (cr_status res) @ '': ''
                                        @ error_or res ''Server error'')\<rparr>)))"

definition outbox_row :: "db \<Rightarrow> nat \<Rightarrow> OutboxItem option" where
  "outbox_row d i = find (\<lambda>r. ob_id r = i) (outbox_queue d)"

definition always_500 :: "push_env \<Rightarrow> nat \<Rightarrow> bool" where
  "always_500 env i = (\<forall>x. ob_id x = i \<longrightarrow> (\<exists>b. pe_network env x = Responded 500 b))"

text \<open>
  What happens to the outbox over time: ticks of the push engine, each with its batch size
  and its environment, and routes that enqueue a row through the INSERT modelled by
  \<open>insert_outbox\<close>. \<open>picked\<close> says whether a tick picks up the row with a given id,
  \<open>pickups\<close> counts these ticks along a run, and \<open>run_posts\<close> collects the envelopes POSTed.
  \<open>outbox_wf\<close> is what AUTOINCREMENT guarantees.
\<close>

datatype outbox_event =
    PushTick push_env nat
  | Enqueue string string string string "string option" int string

fun outbox_step :: "outbox_event \<Rightarrow> db \<Rightarrow> db" where
  "outbox_step (PushTick env batchSize) d = snd (snd (snd (processOutbox env batchSize False d)))"
| "outbox_step (Enqueue et eid act pl corr prio now) d = insert_outbox et eid act pl corr prio now d"

definition outbox_run :: "outbox_event list \<Rightarrow> db \<Rightarrow> db" where
  "outbox_run evs d = fold outbox_step evs d"

fun picked :: "nat \<Rightarrow> outbox_event \<Rightarrow> db \<Rightarrow> bool" where
  "picked i (PushTick env batchSize) d =
     (isConfigured (pe_config env) \<and> i \<in> ob_id ` set (select_pending batchSize (outbox_queue d)))"
| "picked i (Enqueue et eid act pl corr prio now) d = False"

fun pickups :: "nat \<Rightarrow> outbox_event list \<Rightarrow> db \<Rightarrow> nat" where
  "pickups i [] d = 0"
| "pickups i (ev # evs) d = (if picked i ev d then 1 else 0) + pickups i evs (outbox_step ev d)"

fun posts_of :: "outbox_event \<Rightarrow> db \<Rightarrow> PostBody list" where
  "posts_of (PushTick env batchSize) d = fst (snd (processOutbox env batchSize False d))"
| "posts_of (Enqueue et eid act pl corr prio now) d = []"

fun run_posts :: "outbox_event list \<Rightarrow> db \<Rightarrow> PostBody list" where
  "run_posts [] d = []"
| "run_posts (ev # evs) d = posts_of ev d @ run_posts evs (outbox_step ev d)"

definition outbox_wf :: "db \<Rightarrow> bool" where
  "outbox_wf d =
     (distinct (map ob_id (outbox_queue d)) \<and> (\<forall>r \<in> set (outbox_queue d). ob_id r \<le> outbox_seq d))"

fun tick_500 :: "nat \<Rightarrow> string \<Rightarrow> outbox_event \<Rightarrow> bool" where
  "tick_500 i pl (PushTick env batchSize) = (pe_parse env pl \<noteq> None \<and> always_500 env i)"
| "tick_500 i pl (Enqueue et eid act cp corr prio now) = True"

definition enqueued_types :: "string list" where
  "enqueued_types =
     [''sale'', ''kitchen_order'', ''cash_drawer'', ''cash_drawer_transaction'', ''shift_log'',
      ''shift_break'', ''gift_card'', ''refund'', ''store_credit'', ''table_session'', ''user'',
      ''staff_bank_transaction'', ''customer'', ''inventory'', ''guest_check'', ''guest_check_item'']"

subsection \<open>Receipt numbers\<close>

definition digit_val :: "char \<Rightarrow> nat" where
  "digit_val c = of_char c - 48"

definition nat_of_digits :: "string \<Rightarrow> nat" where
  "nat_of_digits s = foldl (\<lambda>a c. 10 * a + digit_val c) 0 s"

definition is_digit :: "char \<Rightarrow> bool" where
  "is_digit c = (c \<in> set ''0123456789'')"

definition is_receipt_form :: "string \<Rightarrow> bool" where
  "is_receipt_form s =
     (length s = 13 \<and> list_all is_digit (take 8 s) \<and> s ! 8 = CHR ''-'' \<and> list_all is_digit (drop 9 s))"

definition current_value :: "(string \<times> int) list \<Rightarrow> string \<Rightarrow> int" where
  "current_value seq k = (case map_of seq k of None \<Rightarrow> 0 | Some v \<Rightarrow> v)"

definition empty_db :: db where
  "empty_db = \<lparr>sales = [], sale_items = [], payments = [], kitchen_orders = [],
               kitchen_order_items = [], users = [], terminals = [], terminal_sessions = [],
               reservations = [], order_sequence = [], outbox_queue = [], outbox_seq = 0\<rparr>"

subsection \<open>Routes\<close>

definition sale_outbox_row :: "route_env \<Rightarrow> json \<Rightarrow> db \<Rightarrow> OutboxItem" where
  "sale_outbox_row env body d =
     \<lparr>ob_id = Suc (outbox_seq d), entity_type = ''sale'', entity_id = re_ids env 0,
      action = ''create'', payload = re_stringify env body, correlation_id = Some (re_ids env 0),
      priority = 10, attempts = 0, max_attempts = 5, status = ''PENDING'', error = None,
      created_at = re_now env, synced_at = None\<rparr>"

definition order_col :: "hub \<Rightarrow> string \<Rightarrow> string \<Rightarrow> sql_value" where
  "order_col h oid c = (case get_by_id oid (kitchen_orders (store h)) of None \<Rightarrow> SNull | Some r \<Rightarrow> col r c)"

definition bump_outbox_row :: "route_env \<Rightarrow> string \<Rightarrow> string \<Rightarrow> db \<Rightarrow> OutboxItem" where
  "bump_outbox_row env oid ns d =
     \<lparr>ob_id = Suc (outbox_seq d), entity_type = ''kitchen_order'', entity_id = oid,
      action = ''update'',
      payload = re_stringify env (JObj [(''id'', JStr oid), (''status'', JStr ns)]),
      correlation_id = None, priority = 5, attempts = 0, max_attempts = 5, status = ''PENDING'',
      error = None, created_at = re_now env, synced_at = None\<rparr>"

definition bump_event :: "string \<Rightarrow> string \<Rightarrow> string \<Rightarrow> ws_event" where
  "bump_event oid prev ns =
     \<lparr>ev_name = ''order:status'',
      ev_data = JObj [(''id'', JStr oid), (''status'', JStr ns), (''previousStatus'', JStr prev)],
      ev_role = None\<rparr>"

subsection \<open>Pull engine\<close>

definition pull_completes :: "('t, 'r) pull_env \<Rightarrow> handler \<Rightarrow> bool" where
  "pull_completes env hdl =
     (pl_prepare env (h_entity hdl) \<and>
      (\<forall>ps. \<exists>res rows.
         cloud_request (pl_network env (h_path hdl) ps) = Inr res \<and> cr_ok res
         \<and> map_rows (pl_row_of env (h_entity hdl)) (extractItems (cr_data res)) = Inr rows
         \<and> (\<forall>t. snd (pl_extra env (h_entity hdl) (cr_data res) t) = None)))"

definition pull_fails :: "('t, 'r) pull_env \<Rightarrow> handler \<Rightarrow> bool" where
  "pull_fails env hdl =
     (\<forall>ps. case cloud_request (pl_network env (h_path hdl) ps) of
             Inl e \<Rightarrow> True
           | Inr res \<Rightarrow> \<not> cr_ok res \<and> cr_status res \<noteq> 404)"

definition direct_entities :: "string list" where
  "direct_entities = [''products'', ''discount_templates'', ''gift_cards'', ''coupon_codes'', ''deals'',
                      ''users'', ''floors'', ''areas'', ''tables'', ''courses'']"





definition succeeded_with :: "('t, 'r) pull_env \<Rightarrow> string \<Rightarrow> PullResult list \<Rightarrow> 't pull_state \<Rightarrow> bool" where
  "succeeded_with env e results st =
     (\<exists>row. sync_state st e = Some row \<and> sync_status row = ''SUCCESS''
        \<and> last_synced_at row = Some (pl_now env)
        \<and> (\<exists>errs. \<lparr>entity = e, pulled = record_count row, errors = errs\<rparr> \<in> set results))"



section \<open>Example hubs, clouds and requests\<close>

definition cfg0 :: config where
  "cfg0 = \<lparr>cloudApiUrl = Some ''https://cloud.example/'', cloudApiKey = Some ''hub-key'',
           tenantId = Some ''t1'', locationId = Some ''l1''\<rparr>"

definition pull_state0 :: "unit pull_state" where
  "pull_state0 = \<lparr>ref_tables = (), sync_state = (\<lambda>k. None)\<rparr>"

definition env_one_500 :: "(unit, unit) pull_env" where
  "env_one_500 =
     \<lparr>pl_config = cfg0,
      pl_network = (\<lambda>path ps. if path = ''/api/hub/sync/categories'' then Responded 500 NotJson
                               else Responded 200 (JsonBody (JObj [(''items'', JArr [])]))),
      pl_now = ''2024-01-01 00:00:00'',
      pl_row_of = (\<lambda>e j. Inr ()),
      pl_prepare = (\<lambda>t. True),
      pl_run = (\<lambda>t r s. Some s),
      pl_delete_all = (\<lambda>t s. s),
      pl_extra = (\<lambda>e j s. (s, None)),
      pl_write_one = (\<lambda>e j s. Some s),
      pl_terminals = (\<lambda>s. [])\<rparr>"

definition parse_braces :: "string \<Rightarrow> json option" where
  "parse_braces s = (if s = ''{}'' then Some (JObj []) else None)"

definition push_env_500 :: push_env where
  "push_env_500 = \<lparr>pe_config = cfg0, pe_parse = parse_braces,
                    pe_network = (\<lambda>r. Responded 500 NotJson), pe_now = ''2024-01-01 00:00:05''\<rparr>"

definition push_env_409 :: push_env where
  "push_env_409 = \<lparr>pe_config = cfg0, pe_parse = parse_braces,
                    pe_network = (\<lambda>r. Responded 409 NotJson), pe_now = ''2024-01-01 00:00:10''\<rparr>"

definition push_env_201 :: push_env where
  "push_env_201 = \<lparr>pe_config = cfg0, pe_parse = parse_braces,
                    pe_network = (\<lambda>r. Responded 201 NotJson), pe_now = ''2024-01-01 00:00:10''\<rparr>"

definition sale_row :: OutboxItem where
  "sale_row = \<lparr>ob_id = 1, entity_type = ''sale'', entity_id = ''s1'', action = ''create'',
                payload = ''{}'', correlation_id = Some ''s1'', priority = 10, attempts = 0,
                max_attempts = 3, status = ''PENDING'', error = None,
                created_at = ''2024-01-01 00:00:00'', synced_at = None\<rparr>"

definition db_one_sale :: db where
  "db_one_sale = empty_db\<lparr>outbox_queue := [sale_row], outbox_seq := 1\<rparr>"

definition example_ids :: "nat \<Rightarrow> string" where
  "example_ids k = (if k = 0 then ''id0'' else if k = 1 then ''id1'' else if k = 2 then ''id2'' else ''idn'')"

definition example_stringify :: "json \<Rightarrow> string" where
  "example_stringify j = ''{}''"

definition route_env0 :: route_env where
  "route_env0 =
     \<lparr>re_config = cfg0, re_ids = example_ids, re_dateKey = ''20240101'',
      re_now = ''2024-01-01 12:00:00'', re_nowIso = ''2024-01-01T12:00:00.000Z'',
      re_clock = 1000, re_stringify = example_stringify, re_parse = parse_braces,
      re_hashSync = (\<lambda>pin. ''$2a$12$hash''), re_compare = (\<lambda>pin h. Some False)\<rparr>"

definition hub0 :: hub where
  "hub0 = \<lparr>store = empty_db, pinAttempts = (\<lambda>ip. None), recentUserIds = [], broadcasts = []\<rparr>"

definition sale_body :: json where
  "sale_body =
     JObj [(''total'', JNum 10),
           (''items'', JArr [JObj [(''productId'', JStr ''p1''), (''productName'', JStr ''Tea''),
                                   (''quantity'', JNum 1), (''unitPrice'', JNum 10)] ]),
           (''payments'', JArr [JObj [(''method'', JStr ''CASH''), (''amount'', JNum 10)] ])]"

definition pin_req :: pin_request where
  "pin_req = \<lparr>pr_ip = Some ''10.0.0.7'', pr_pin = Some ''1234'', pr_terminalId = None,
              pr_header_terminalId = None\<rparr>"

definition order_k1 :: sql_row where
  "order_k1 = [(''id'', SText ''k1''), (''status'', SText ''PENDING''), (''order_type'', SText ''DINE_IN'')]"

definition hub_k1 :: hub where
  "hub_k1 = hub0\<lparr>store := empty_db\<lparr>kitchen_orders := [order_k1]\<rparr>\<rparr>"

definition hub_u1 :: hub where
  "hub_u1 = hub0\<lparr>store := empty_db\<lparr>users :=
                 [ [(''id'', SText ''u1''), (''tenant_id'', SText ''t1''), (''name'', SText ''Ann''),
                   (''pin_hash'', SText ''$2a$12$old''), (''is_active'', SNum 1)] ]\<rparr>,
               recentUserIds := [''u1'']\<rparr>"

definition env_404 :: "(unit, unit) pull_env" where
  "env_404 = env_one_500\<lparr>pl_network := (\<lambda>path ps. Responded 404 NotJson)\<rparr>"

definition pullProducts :: handler where
  "pullProducts = mk_handler ''products'' ''/api/hub/sync/products'' True Direct Upsert ExtraBeforeState"

definition pullCategories :: handler where
  "pullCategories = mk_handler ''categories'' ''/api/hub/sync/categories'' True FetchAndTransform Upsert NoExtra"

definition push_env_409_unreadable :: push_env where
  "push_env_409_unreadable =
     \<lparr>pe_config = cfg0, pe_parse = parse_braces,
      pe_network = (\<lambda>r. Responded 409 (BadJson ''Unexpected end of JSON input'')),
      pe_now = ''2024-01-01 00:00:10''\<rparr>"

definition three_ticks_500 :: "outbox_event list" where
  "three_ticks_500 =
     [PushTick push_env_500 20,
      Enqueue ''user'' ''u1'' ''update_pin'' ''{}'' None 5 ''2024-01-01 00:00:06'',
      PushTick push_env_500 20, PushTick push_env_500 20]"

definition item_i1 :: sql_row where
  "item_i1 = [(''id'', SText ''i1''), (''kitchen_order_id'', SText ''k1''), (''product_id'', SText ''p1''),
              (''product_name'', SText ''Tea''), (''quantity'', SNum 1), (''status'', SText ''PENDING'')]"

definition hub_item :: hub where
  "hub_item = hub0\<lparr>store := empty_db\<lparr>kitchen_orders := [order_k1], kitchen_order_items := [item_i1]\<rparr>\<rparr>"

definition entities_with_errors :: "PullResult list \<Rightarrow> string list" where
  "entities_with_errors results = map entity (filter (\<lambda>r. errors r \<noteq> []) results)"

fun result_404 :: "plan_entry \<Rightarrow> PullResult" where
  "result_404 (Generic hdl) =
     \<lparr>entity = h_entity hdl, pulled = 0,
      errors = (if h_entity hdl \<in> set direct_entities then [''HTTP 404''] else [])\<rparr>"
| "result_404 LocationSettings = \<lparr>entity = ''location_settings'', pulled = 0, errors = [''HTTP 404'']\<rparr>"
| "result_404 TerminalSettings = \<lparr>entity = ''terminal_settings'', pulled = 0, errors = []\<rparr>"



section \<open>Push engine: the outbox state machine\<close>

lemma process_item_rows:
  "a_rows (process_item env item acc) = update_outbox (ob_id item) (settle env item) (a_rows acc)"
  unfolding process_item_def settle_def mark_def Let_def update_outbox_def
  by (auto split: option.splits sum.splits)

lemma settle_id [simp]: "ob_id (settle env item r) = ob_id r"
  unfolding settle_def Let_def by (auto split: option.splits sum.splits)

lemma fold_process_rows:
  "a_rows (fold (process_item env) items acc) =
     fold (\<lambda>it. update_outbox (ob_id it) (settle env it)) items (a_rows acc)"
  by (induction items arbitrary: acc) (simp_all add: process_item_rows)

lemma fold_settle_distinct:
  assumes "distinct (map ob_id rows)" and "set items \<subseteq> set rows" and "distinct (map ob_id items)"
  shows "fold (\<lambda>it. update_outbox (ob_id it) (settle env it)) items rows =
           map (\<lambda>r. if r \<in> set items then settle env r r else r) rows"
  using assms(2,3)
proof (induction items rule: rev_induct)
  case Nil
  then show ?case by simp
next
  case (snoc x xs)
  have xin: "x \<in> set rows" using snoc.prems by simp
  have IH: "fold (\<lambda>it. update_outbox (ob_id it) (settle env it)) xs rows =
           map (\<lambda>r. if r \<in> set xs then settle env r r else r) rows"
    using snoc by simp
  have xnot: "ob_id x \<notin> ob_id ` set xs" using snoc.prems(2) by simp
  have "update_outbox (ob_id x) (settle env x) (map (\<lambda>r. if r \<in> set xs then settle env r r else r) rows)
        = map (\<lambda>r. if r \<in> set (xs @ [x]) then settle env r r else r) rows"
    unfolding update_outbox_def map_map
  proof (rule map_cong[OF refl])
    fix r assume rin: "r \<in> set rows"
    show "((\<lambda>r. if ob_id r = ob_id x then settle env x r else r) \<circ>
          (\<lambda>r. if r \<in> set xs then settle env r r else r)) r
          = (if r \<in> set (xs @ [x]) then settle env r r else r)"
    proof (cases "r \<in> set xs")
      case True
      then have "ob_id r \<noteq> ob_id x" using xnot by (metis imageI)
      then show ?thesis using True by simp
    next
      case False
      show ?thesis
      proof (cases "ob_id r = ob_id x")
        case True
        then have "r = x" using assms(1) rin xin by (meson distinct_map inj_onD)
        then show ?thesis using False by simp
      next
        case F2: False
        then have "r \<noteq> x" by auto
        then show ?thesis using False F2 by simp
      qed
    qed
  qed
  then show ?case using IH by simp
qed

lemma select_pending_subset: "set (select_pending b rows) \<subseteq> {r \<in> set rows. eligible r}"
  unfolding select_pending_def using set_take_subset[of b] by fastforce

lemma select_pending_distinct:
  assumes "distinct (map ob_id rows)"
  shows "distinct (map ob_id (select_pending b rows))"
proof -
  let ?ys = "sort_key (\<lambda>r. (- priority r, created_at r)) (filter eligible rows)"
  have "distinct (map ob_id (filter eligible rows))"
    using assms by (rule distinct_map_filter)
  then have ys: "distinct ?ys \<and> inj_on ob_id (set ?ys)"
    by (simp add: distinct_map)
  have "distinct (take b ?ys)" using ys by simp
  moreover have "inj_on ob_id (set (take b ?ys))"
    using ys set_take_subset[of b ?ys] by (meson inj_on_subset)
  ultimately show ?thesis
    unfolding select_pending_def by (simp only: distinct_map simp_thms)
qed

lemma processOutbox_rows:
  assumes "distinct (map ob_id (outbox_queue d))" and "isConfigured (pe_config env)"
  shows "outbox_queue (snd (snd (snd (processOutbox env b False d)))) =
           map (\<lambda>r. if r \<in> set (select_pending b (outbox_queue d)) then settle env r r else r)
             (outbox_queue d)"
proof (cases "select_pending b (outbox_queue d) = []")
  case True
  then show ?thesis using assms by (simp add: processOutbox_def)
next
  case False
  have sub: "set (select_pending b (outbox_queue d)) \<subseteq> set (outbox_queue d)"
    using select_pending_subset by fastforce
  show ?thesis
    using False assms(2)
    by (simp add: processOutbox_def Let_def fold_process_rows
        fold_settle_distinct[OF assms(1) sub select_pending_distinct[OF assms(1)] ])
qed

lemma find_map_id:
  assumes "distinct (map ob_id rows)" and "r \<in> set rows" and "\<And>x. ob_id (f x) = ob_id x"
  shows "find (\<lambda>x. ob_id x = ob_id r) (map f rows) = Some (f r)"
  using assms(1,2)
proof (induction rows)
  case Nil
  then show ?case by simp
next
  case (Cons a rows)
  then show ?case using assms(3) by (auto simp: image_iff)
qed

lemma process_item_posts:
  assumes "\<forall>p \<in> set (a_posts acc). \<not> falsy (js_index pushEndpoints (p_entityType p))"
  shows "\<forall>p \<in> set (a_posts (process_item env item acc)). \<not> falsy (js_index pushEndpoints (p_entityType p))"
  using assms unfolding process_item_def mark_def Let_def
  by (auto split: option.splits sum.splits)

lemma fold_process_posts:
  assumes "\<forall>p \<in> set (a_posts acc). \<not> falsy (js_index pushEndpoints (p_entityType p))"
  shows "\<forall>p \<in> set (a_posts (fold (process_item env) items acc)).
           \<not> falsy (js_index pushEndpoints (p_entityType p))"
  using assms
proof (induction items arbitrary: acc)
  case Nil
  then show ?case by simp
next
  case (Cons x xs)
  show ?case using Cons.IH[OF process_item_posts[OF Cons.prems] ] by simp
qed

lemma processOutbox_posts:
  "\<forall>p \<in> set (fst (snd (processOutbox env b running d))).
      \<not> falsy (js_index pushEndpoints (p_entityType p))"
proof -
  have "\<forall>p \<in> set (a_posts (fold (process_item env) (select_pending b (outbox_queue d))
            \<lparr>a_rows = outbox_queue d, a_result = no_result, a_posts = []\<rparr>)).
          \<not> falsy (js_index pushEndpoints (p_entityType p))"
    by (rule fold_process_posts) simp
  then show ?thesis by (simp add: processOutbox_def Let_def)
qed

lemma processOutbox_claimed_row:
  assumes "distinct (map ob_id (outbox_queue d))" and "isConfigured (pe_config env)"
    and "item \<in> set (select_pending b (outbox_queue d))"
  shows "outbox_row (snd (snd (snd (processOutbox env b False d)))) (ob_id item) =
           Some (settle env item item)"
proof -
  have in_rows: "item \<in> set (outbox_queue d)"
    using assms(3) select_pending_subset by fastforce
  let ?f = "\<lambda>r. if r \<in> set (select_pending b (outbox_queue d)) then settle env r r else r"
  have "find (\<lambda>x. ob_id x = ob_id item) (map ?f (outbox_queue d)) = Some (?f item)"
    by (rule find_map_id[OF assms(1) in_rows]) simp
  then show ?thesis
    using assms(3) by (simp add: outbox_row_def processOutbox_rows[OF assms(1,2)])
qed

lemma cloud_request_500:
  "\<exists>res. cloud_request (Responded 500 b) = Inr res \<and> \<not> cr_ok res \<and> (cr_status res = 500 \<or> cr_status res = 0)"
  by (cases b) (simp_all add: cloud_request_def)

section \<open>Push engine: runs of ticks and enqueued rows\<close>

lemma processOutbox_unconfigured:
  "\<not> isConfigured (pe_config env) \<Longrightarrow> snd (snd (snd (processOutbox env b False d))) = d"
  by (simp add: processOutbox_def)

lemma processOutbox_seq:
  "outbox_seq (snd (snd (snd (processOutbox env b False d)))) = outbox_seq d"
  by (simp add: processOutbox_def Let_def)

lemma outbox_wf_step:
  assumes "outbox_wf d"
  shows "outbox_wf (outbox_step ev d)"
proof (cases ev)
  case (PushTick env b)
  show ?thesis
  proof (cases "isConfigured (pe_config env)")
    case True
    have d: "distinct (map ob_id (outbox_queue d))" using assms by (simp add: outbox_wf_def)
    have eq: "(\<lambda>x. ob_id (if x \<in> set (select_pending b (outbox_queue d)) then settle env x x else x))
              = ob_id"
      by (rule ext) simp
    show ?thesis
      using assms unfolding outbox_wf_def PushTick outbox_step.simps processOutbox_seq
        processOutbox_rows[OF d True]
      by (auto simp: comp_def eq)
  next
    case False
    then show ?thesis using assms by (simp add: PushTick processOutbox_unconfigured)
  qed
next
  case (Enqueue et eid act pl corr prio now)
  show ?thesis
    using assms unfolding outbox_wf_def Enqueue by (auto simp: insert_outbox_def)
qed

lemma outbox_wf_run: "outbox_wf d \<Longrightarrow> outbox_wf (outbox_run evs d)"
  unfolding outbox_run_def
  by (induction evs arbitrary: d) (simp_all add: outbox_wf_step)

lemma outbox_row_member:
  assumes "distinct (map ob_id (outbox_queue d))" and "x \<in> set (outbox_queue d)"
  shows "outbox_row d (ob_id x) = Some x"
  using find_map_id[OF assms, of id] by (simp add: outbox_row_def)

lemma picked_tick_iff:
  assumes "distinct (map ob_id (outbox_queue d))" and "r \<in> set (outbox_queue d)"
  shows "picked (ob_id r) (PushTick env b) d =
           (isConfigured (pe_config env) \<and> r \<in> set (select_pending b (outbox_queue d)))"
proof -
  have "r \<in> set (select_pending b (outbox_queue d))"
    if x: "x \<in> set (select_pending b (outbox_queue d))" and e: "ob_id x = ob_id r" for x
  proof -
    have "x \<in> set (outbox_queue d)" using x select_pending_subset by fastforce
    then have "x = r" using assms e by (meson distinct_map inj_onD)
    then show ?thesis using x by simp
  qed
  then show ?thesis by auto
qed

lemma unpicked_member:
  assumes "outbox_wf d" and "r \<in> set (outbox_queue d)" and "\<not> picked (ob_id r) ev d"
  shows "r \<in> set (outbox_queue (outbox_step ev d))"
proof (cases ev)
  case (PushTick env b)
  have d: "distinct (map ob_id (outbox_queue d))" using assms(1) by (simp add: outbox_wf_def)
  show ?thesis
  proof (cases "isConfigured (pe_config env)")
    case True
    then have "r \<notin> set (select_pending b (outbox_queue d))"
      using assms(3) by (auto simp: PushTick)
    then show ?thesis
      using assms(2) unfolding PushTick outbox_step.simps processOutbox_rows[OF d True]
      by (auto simp: image_iff intro!: bexI[of _ r])
  next
    case False
    then show ?thesis using assms(2) by (simp add: PushTick processOutbox_unconfigured)
  qed
next
  case (Enqueue et eid act pl corr prio now)
  show ?thesis using assms(2) by (simp add: Enqueue insert_outbox_def)
qed

lemma picked_member:
  assumes "outbox_wf d" and "r \<in> set (outbox_queue d)" and "picked (ob_id r) (PushTick env b) d"
  shows "settle env r r \<in> set (outbox_queue (outbox_step (PushTick env b) d))"
proof -
  have d: "distinct (map ob_id (outbox_queue d))" using assms(1) by (simp add: outbox_wf_def)
  have c: "isConfigured (pe_config env)" and s: "r \<in> set (select_pending b (outbox_queue d))"
    using assms(3)[unfolded picked_tick_iff[OF d assms(2)] ] by simp_all
  show ?thesis
    using assms(2) s unfolding outbox_step.simps processOutbox_rows[OF d c]
    by (auto simp: image_iff intro!: bexI[of _ r])
qed

lemma ineligible_not_picked:
  assumes "outbox_wf d" and "r \<in> set (outbox_queue d)" and "\<not> eligible r"
  shows "\<not> picked (ob_id r) ev d"
proof (cases ev)
  case (PushTick env b)
  have d: "distinct (map ob_id (outbox_queue d))" using assms(1) by (simp add: outbox_wf_def)
  have "r \<notin> set (select_pending b (outbox_queue d))"
    using assms(3) select_pending_subset by fastforce
  then show ?thesis unfolding PushTick picked_tick_iff[OF d assms(2)] by simp
next
  case (Enqueue et eid act pl corr prio now)
  then show ?thesis by simp
qed

lemma ineligible_stays:
  assumes "outbox_wf d" and "r \<in> set (outbox_queue d)" and "\<not> eligible r"
  shows "r \<in> set (outbox_queue (outbox_run evs d)) \<and> pickups (ob_id r) evs d = 0"
  using assms(1,2)
proof (induction evs arbitrary: d)
  case Nil
  then show ?case by (simp add: outbox_run_def)
next
  case (Cons ev evs)
  have np: "\<not> picked (ob_id r) ev d" using ineligible_not_picked[OF Cons.prems assms(3)] .
  have m: "r \<in> set (outbox_queue (outbox_step ev d))" using unpicked_member[OF Cons.prems np] .
  show ?case
    using Cons.IH[OF outbox_wf_step[OF Cons.prems(1)] m] np by (simp add: outbox_run_def)
qed

lemma outbox_run_Cons: "outbox_run (ev # evs) d = outbox_run evs (outbox_step ev d)"
  by (simp add: outbox_run_def)

lemma settle_500_row:
  assumes "\<not> falsy (js_index pushEndpoints (entity_type x))"
    and "pe_parse env (payload x) \<noteq> None"
    and "pe_network env x = Responded 500 b"
  shows "\<exists>s. settle env x x =
            x\<lparr>attempts := attempts x + 1,
              status := (if attempts x + 1 \<ge> max_attempts x then ''DEAD_LETTER'' else ''PENDING''),
              error := Some ((if attempts x + 1 \<ge> max_attempts x
                              then ''Max attempts reached. Last: HTTP '' else ''HTTP '') @ s)\<rparr>"
proof -
  obtain res where res: "cloud_request (Responded 500 b) = Inr res" "\<not> cr_ok res"
    "cr_status res = 500 \<or> cr_status res = 0"
    using cloud_request_500 by blast
  obtain pl where pl: "pe_parse env (payload x) = Some pl" using assms(2) by auto
  show ?thesis
    using assms(1,3) res pl by (auto simp: settle_def)
qed

lemma fresh_row_500_run:
  assumes "outbox_wf d" and "r \<in> set (outbox_queue d)"
    and "\<not> falsy (js_index pushEndpoints (entity_type r))"
    and "\<forall>ev \<in> set evs. tick_500 (ob_id r) (payload r) ev"
    and "status r = ''PENDING''" and "attempts r = int a" and "max_attempts r = int m" and "a < m"
  shows "\<exists>x \<in> set (outbox_queue (outbox_run evs d)). ob_id x = ob_id r
           \<and> attempts x = int (a + pickups (ob_id r) evs d)
           \<and> a + pickups (ob_id r) evs d \<le> m
           \<and> (pickups (ob_id r) evs d = 0 \<longrightarrow> x = r)
           \<and> (a + pickups (ob_id r) evs d < m \<longrightarrow> status x = ''PENDING''
                \<and> (0 < pickups (ob_id r) evs d \<longrightarrow> (\<exists>s. error x = Some (''HTTP '' @ s))))
           \<and> (a + pickups (ob_id r) evs d = m \<longrightarrow> status x = ''DEAD_LETTER''
                \<and> (\<exists>s. error x = Some (''Max attempts reached. Last: HTTP '' @ s)))"
  using assms
proof (induction evs arbitrary: d r a)
  case Nil
  then show ?case by (auto simp: outbox_run_def)
next
  case (Cons ev evs)
  note wf' = outbox_wf_step[OF Cons.prems(1), of ev]
  have rest: "\<forall>e \<in> set evs. tick_500 (ob_id r) (payload r) e" using Cons.prems(4) by simp
  show ?case
  proof (cases "picked (ob_id r) ev d")
    case False
    have m: "r \<in> set (outbox_queue (outbox_step ev d))"
      using unpicked_member[OF Cons.prems(1,2) False] .
    show ?thesis
      using Cons.IH[OF wf' m Cons.prems(3) rest Cons.prems(5-8)] False
      by (simp add: outbox_run_Cons)
  next
    case True
    then obtain env b where ev: "ev = PushTick env b" by (cases ev) auto
    let ?r' = "settle env r r"
    have m: "?r' \<in> set (outbox_queue (outbox_step ev d))"
      using picked_member[OF Cons.prems(1,2) True[unfolded ev] ] by (simp add: ev)
    have t: "pe_parse env (payload r) \<noteq> None" "always_500 env (ob_id r)"
      using Cons.prems(4) by (simp_all add: ev)
    obtain bd where bd: "pe_network env r = Responded 500 bd"
      using t(2) by (auto simp: always_500_def)
    obtain s where s: "?r' =
            r\<lparr>attempts := attempts r + 1,
              status := (if attempts r + 1 \<ge> max_attempts r then ''DEAD_LETTER'' else ''PENDING''),
              error := Some ((if attempts r + 1 \<ge> max_attempts r
                              then ''Max attempts reached. Last: HTTP '' else ''HTTP '') @ s)\<rparr>"
      using settle_500_row[OF Cons.prems(3) t(1) bd] by blast
    have id': "ob_id ?r' = ob_id r" by simp
    have same: "entity_type ?r' = entity_type r" "payload ?r' = payload r"
      "max_attempts ?r' = int m" "attempts ?r' = int (Suc a)"
      using Cons.prems(6,7) by (simp_all add: s)
    show ?thesis
    proof (cases "Suc a < m")
      case lt: True
      have st: "status ?r' = ''PENDING''" "\<exists>u. error ?r' = Some (''HTTP '' @ u)"
        using lt Cons.prems(6,7) by (simp_all add: s)
      have rest': "\<forall>e \<in> set evs. tick_500 (ob_id ?r') (payload ?r') e"
        using rest by (simp add: same)
      have ep: "\<not> falsy (js_index pushEndpoints (entity_type ?r'))"
        using Cons.prems(3) by (simp add: same)
      let ?p = "pickups (ob_id ?r') evs (outbox_step ev d)"
      have "\<exists>x \<in> set (outbox_queue (outbox_run evs (outbox_step ev d))). ob_id x = ob_id ?r'
           \<and> attempts x = int (Suc a + ?p)
           \<and> Suc a + ?p \<le> m
           \<and> (?p = 0 \<longrightarrow> x = ?r')
           \<and> (Suc a + ?p < m \<longrightarrow> status x = ''PENDING''
                \<and> (0 < ?p \<longrightarrow> (\<exists>s. error x = Some (''HTTP '' @ s))))
           \<and> (Suc a + ?p = m \<longrightarrow> status x = ''DEAD_LETTER''
                \<and> (\<exists>s. error x = Some (''Max attempts reached. Last: HTTP '' @ s)))"
        using Cons.IH[OF wf' m ep rest' st(1) same(4) same(3) lt] .
      then obtain x where xin: "x \<in> set (outbox_queue (outbox_run evs (outbox_step ev d)))"
        and xc: "ob_id x = ob_id ?r'
           \<and> attempts x = int (Suc a + ?p)
           \<and> Suc a + ?p \<le> m
           \<and> (?p = 0 \<longrightarrow> x = ?r')
           \<and> (Suc a + ?p < m \<longrightarrow> status x = ''PENDING''
                \<and> (0 < ?p \<longrightarrow> (\<exists>s. error x = Some (''HTTP '' @ s))))
           \<and> (Suc a + ?p = m \<longrightarrow> status x = ''DEAD_LETTER''
                \<and> (\<exists>s. error x = Some (''Max attempts reached. Last: HTTP '' @ s)))"
        by (rule bexE)
      note x = xin xc[THEN conjunct1] xc[THEN conjunct2, THEN conjunct1]
        xc[THEN conjunct2, THEN conjunct2, THEN conjunct1]
        xc[THEN conjunct2, THEN conjunct2, THEN conjunct2, THEN conjunct1]
        xc[THEN conjunct2, THEN conjunct2, THEN conjunct2, THEN conjunct2, THEN conjunct1]
        xc[THEN conjunct2, THEN conjunct2, THEN conjunct2, THEN conjunct2, THEN conjunct2]
      have err: "Suc a + pickups (ob_id r) evs (outbox_step ev d) < m \<Longrightarrow> \<exists>s. error x = Some (''HTTP '' @ s)"
      proof (cases "pickups (ob_id r) evs (outbox_step ev d) = 0")
        case True
        then have "x = ?r'" using x(5) by (simp add: id')
        then show ?thesis using st(2) by simp
      next
        case False
        assume "Suc a + pickups (ob_id r) evs (outbox_step ev d) < m"
        then show ?thesis using x(6) False by (simp add: id')
      qed
      show ?thesis
        apply (rule bexI[of _ x])
        using x True err by (simp_all add: outbox_run_Cons id')
    next
      case ge: False
      then have am: "Suc a = m" using Cons.prems(8) by simp
      have st: "status ?r' = ''DEAD_LETTER''"
        "\<exists>u. error ?r' = Some (''Max attempts reached. Last: HTTP '' @ u)"
        using am Cons.prems(6,7) by (auto simp: s)
      have ne: "\<not> eligible ?r'" using st(1) by (simp add: eligible_def)
      have stay: "?r' \<in> set (outbox_queue (outbox_run evs (outbox_step ev d)))"
        "pickups (ob_id ?r') evs (outbox_step ev d) = 0"
        using ineligible_stays[OF wf' m ne] by simp_all
      show ?thesis
        apply (rule bexI[of _ ?r'])
        using stay True st am same by (simp_all add: outbox_run_Cons id')
    qed
  qed
qed

text \<open>
  Claim C2. Take an outbox whose ids are distinct and not above the AUTOINCREMENT counter,
  and in it a row that is PENDING with \<open>a\<close> attempts made, fewer than its
  \<open>max_attempts = m\<close> (a fresh row has \<open>a = 0\<close>), that has an endpoint and a payload that
  parses, and whose POST is answered with HTTP 500 at every tick. Let any sequence of
  engine ticks, of any batch size and with any backlog, and of routes enqueueing further
  rows go by. The attempts counter of the row is \<open>a\<close> plus the number of ticks that picked
  the row up, and never exceeds \<open>m\<close>. While it is below \<open>m\<close> the row is PENDING, with the
  error of the last attempt recorded; at the pickup that makes it \<open>m\<close> the row becomes
  DEAD_LETTER with the message "Max attempts reached", and it is picked up no more. For a
  fresh row this is after exactly \<open>m\<close> pickups.
\<close>

theorem push_always_500_dead_letters:
  assumes "outbox_wf d" and "r \<in> set (outbox_queue d)"
    and "\<not> falsy (js_index pushEndpoints (entity_type r))"
    and "\<forall>ev \<in> set evs. tick_500 (ob_id r) (payload r) ev"
    and "status r = ''PENDING''" and "attempts r = int a" and "max_attempts r = int m" and "a < m"
  shows "\<exists>x. outbox_row (outbox_run evs d) (ob_id r) = Some x
       \<and> attempts x = int (a + pickups (ob_id r) evs d)
       \<and> a + pickups (ob_id r) evs d \<le> m
       \<and> (a + pickups (ob_id r) evs d < m \<longrightarrow> status x = ''PENDING''
            \<and> (0 < pickups (ob_id r) evs d \<longrightarrow> (\<exists>s. error x = Some (''HTTP '' @ s))))
       \<and> (a + pickups (ob_id r) evs d = m \<longrightarrow> status x = ''DEAD_LETTER''
            \<and> (\<exists>s. error x = Some (''Max attempts reached. Last: HTTP '' @ s)))"
proof -
  let ?p = "pickups (ob_id r) evs d"
  have "\<exists>x \<in> set (outbox_queue (outbox_run evs d)). ob_id x = ob_id r
           \<and> attempts x = int (a + ?p)
           \<and> a + ?p \<le> m
           \<and> (?p = 0 \<longrightarrow> x = r)
           \<and> (a + ?p < m \<longrightarrow> status x = ''PENDING''
                \<and> (0 < ?p \<longrightarrow> (\<exists>s. error x = Some (''HTTP '' @ s))))
           \<and> (a + ?p = m \<longrightarrow> status x = ''DEAD_LETTER''
                \<and> (\<exists>s. error x = Some (''Max attempts reached. Last: HTTP '' @ s)))"
    using fresh_row_500_run[OF assms] .
  then obtain x where xin: "x \<in> set (outbox_queue (outbox_run evs d))"
    and xc: "ob_id x = ob_id r
           \<and> attempts x = int (a + ?p)
           \<and> a + ?p \<le> m
           \<and> (?p = 0 \<longrightarrow> x = r)
           \<and> (a + ?p < m \<longrightarrow> status x = ''PENDING''
                \<and> (0 < ?p \<longrightarrow> (\<exists>s. error x = Some (''HTTP '' @ s))))
           \<and> (a + ?p = m \<longrightarrow> status x = ''DEAD_LETTER''
                \<and> (\<exists>s. error x = Some (''Max attempts reached. Last: HTTP '' @ s)))"
    by (rule bexE)
  have wf: "distinct (map ob_id (outbox_queue (outbox_run evs d)))"
    using outbox_wf_run[OF assms(1), of evs] by (simp add: outbox_wf_def)
  have "outbox_row (outbox_run evs d) (ob_id r) = Some x"
    using outbox_row_member[OF wf xin] xc by simp
  then show ?thesis using xc by simp
qed

lemma run_posts_known:
  "\<forall>p \<in> set (run_posts evs d). \<not> falsy (js_index pushEndpoints (p_entityType p))"
proof (induction evs arbitrary: d)
  case Nil
  then show ?case by simp
next
  case (Cons ev evs)
  have "\<forall>p \<in> set (posts_of ev d). \<not> falsy (js_index pushEndpoints (p_entityType p))"
    using processOutbox_posts by (cases ev) simp_all
  then show ?case using Cons.IH by auto
qed

lemma settled_row_stays:
  assumes "outbox_wf d" and "isConfigured (pe_config env)"
    and "item \<in> set (select_pending b (outbox_queue d))"
    and "status (settle env item item) \<noteq> ''PENDING''"
  shows "outbox_row (outbox_run evs (outbox_step (PushTick env b) d)) (ob_id item) =
           Some (settle env item item)
       \<and> pickups (ob_id item) evs (outbox_step (PushTick env b) d) = 0"
proof -
  have dd: "distinct (map ob_id (outbox_queue d))" using assms(1) by (simp add: outbox_wf_def)
  have in_rows: "item \<in> set (outbox_queue d)"
    using assms(3) select_pending_subset by fastforce
  have p: "picked (ob_id item) (PushTick env b) d"
    unfolding picked_tick_iff[OF dd in_rows] using assms(2,3) by simp
  have m: "settle env item item \<in> set (outbox_queue (outbox_step (PushTick env b) d))"
    using picked_member[OF assms(1) in_rows p] .
  have ne: "\<not> eligible (settle env item item)" using assms(4) by (simp add: eligible_def)
  note wf' = outbox_wf_step[OF assms(1), of "PushTick env b"]
  have stay: "settle env item item \<in> set (outbox_queue (outbox_run evs (outbox_step (PushTick env b) d)))"
    "pickups (ob_id (settle env item item)) evs (outbox_step (PushTick env b) d) = 0"
    using ineligible_stays[OF wf' m ne] by simp_all
  have wf: "distinct (map ob_id (outbox_queue (outbox_run evs (outbox_step (PushTick env b) d))))"
    using outbox_wf_run[OF wf', of evs] by (simp add: outbox_wf_def)
  show ?thesis
    using outbox_row_member[OF wf stay(1)] stay(2) by simp
qed

text \<open>
  Claim C3, as the code has it. A claimed row with an endpoint and a payload that parses,
  whose POST is answered with HTTP 409 and a body the client can read (not announced as
  JSON, or JSON that parses), is SYNCED after the tick, with \<open>synced_at\<close> set, the attempt
  counted and the note 'Duplicate (409)': the state a 2xx answer leads to, the note apart.
  The row may be at any pickup, the second included. Whatever ticks and enqueued rows
  follow, the row stays as it is and is not picked up again.
\<close>

theorem push_409_marks_synced:
  assumes "outbox_wf d" and "isConfigured (pe_config env)"
    and "item \<in> set (select_pending batchSize (outbox_queue d))"
    and "\<not> falsy (js_index pushEndpoints (entity_type item))"
    and "pe_parse env (payload item) \<noteq> None"
    and "pe_network env item = Responded st body"
    and "\<forall>msg. body \<noteq> BadJson msg"
    and "(200 \<le> st \<and> st \<le> 299) \<or> st = 409"
  shows "outbox_row (outbox_run evs (outbox_step (PushTick env batchSize) d)) (ob_id item) =
           Some (item\<lparr>attempts := attempts item + 1, status := ''SYNCED'',
                      synced_at := Some (pe_now env),
                      error := (if st = 409 then Some ''Duplicate (409)'' else error item)\<rparr>)
       \<and> pickups (ob_id item) evs (outbox_step (PushTick env batchSize) d) = 0"
proof -
  obtain pl where pl: "pe_parse env (payload item) = Some pl" using assms(5) by auto
  have s: "settle env item item =
             item\<lparr>attempts := attempts item + 1, status := ''SYNCED'',
                  synced_at := Some (pe_now env),
                  error := (if st = 409 then Some ''Duplicate (409)'' else error item)\<rparr>"
    using assms(4,6,7,8) pl by (cases body) (auto simp: settle_def cloud_request_def)
  have ns: "status (settle env item item) \<noteq> ''PENDING''" by (simp add: s)
  show ?thesis
    using settled_row_stays[OF assms(1,2,3) ns, of evs] by (simp add: s)
qed

text \<open>
  Claim C10. A claimed row whose entity type is not a key of \<open>pushEndpoints\<close> is marked
  DEAD_LETTER with error 'Unknown entity type' at that pickup, with the attempt counted.
  Whatever ticks and enqueued rows follow, it stays so and is not picked up again, and no
  POST of the run carries its entity type. The lookup \<open>this.pushEndpoints[item.entity_type]\<close>
  would also find the names every object inherits; the statement takes the type to be none
  of them, which holds for every row the hub can hold: each INSERT into outbox_queue in
  the routes names its entity type as a literal, and \<open>enqueued_types\<close> lists them. Nine of
  them are outside the map, 'user' among them.
\<close>

theorem push_unknown_entity_dead_letters:
  assumes "outbox_wf d" and "isConfigured (pe_config env)"
    and "item \<in> set (select_pending batchSize (outbox_queue d))"
    and "entity_type item \<notin> fst ` set pushEndpoints"
    and "entity_type item \<notin> set Object_prototype_keys"
  shows "outbox_row (outbox_run evs (outbox_step (PushTick env batchSize) d)) (ob_id item) =
           Some (item\<lparr>attempts := attempts item + 1, status := ''DEAD_LETTER'',
                      error := Some ''Unknown entity type''\<rparr>)
       \<and> pickups (ob_id item) evs (outbox_step (PushTick env batchSize) d) = 0
       \<and> entity_type item \<notin> p_entityType ` set (run_posts (PushTick env batchSize # evs) d)
       \<and> (\<forall>t \<in> set enqueued_types. t \<notin> set Object_prototype_keys)
       \<and> filter (\<lambda>t. t \<notin> fst ` set pushEndpoints) enqueued_types =
           [''cash_drawer_transaction'', ''shift_break'', ''table_session'', ''user'',
            ''staff_bank_transaction'', ''customer'', ''inventory'', ''guest_check'',
            ''guest_check_item'']"
proof -
  have u: "js_index pushEndpoints (entity_type item) = Undefined"
  proof -
    have "map_of pushEndpoints (entity_type item) = None"
      using assms(4) by (simp add: map_of_eq_None_iff)
    then show ?thesis using assms(5) by (simp add: js_index_def)
  qed
  have s: "settle env item item =
             item\<lparr>attempts := attempts item + 1, status := ''DEAD_LETTER'',
                  error := Some ''Unknown entity type''\<rparr>"
    by (simp add: settle_def u)
  have ns: "status (settle env item item) \<noteq> ''PENDING''" by (simp add: s)
  have a: "outbox_row (outbox_run evs (outbox_step (PushTick env batchSize) d)) (ob_id item) =
           Some (item\<lparr>attempts := attempts item + 1, status := ''DEAD_LETTER'',
                      error := Some ''Unknown entity type''\<rparr>)
       \<and> pickups (ob_id item) evs (outbox_step (PushTick env batchSize) d) = 0"
    using settled_row_stays[OF assms(1,2,3) ns, of evs] by (simp add: s)
  have b: "entity_type item \<notin> p_entityType ` set (run_posts (PushTick env batchSize # evs) d)"
  proof
    assume "entity_type item \<in> p_entityType ` set (run_posts (PushTick env batchSize # evs) d)"
    then obtain p where p: "entity_type item = p_entityType p"
      "p \<in> set (run_posts (PushTick env batchSize # evs) d)" by (rule imageE)
    have "\<not> falsy (js_index pushEndpoints (p_entityType p))"
      using run_posts_known p(2) by blast
    then show False using u p(1) by simp
  qed
  have c: "\<forall>t \<in> set enqueued_types. t \<notin> set Object_prototype_keys"
    by (simp add: enqueued_types_def Object_prototype_keys_def)
  have e: "filter (\<lambda>t. t \<notin> fst ` set pushEndpoints) enqueued_types =
           [''cash_drawer_transaction'', ''shift_break'', ''table_session'', ''user'',
            ''staff_bank_transaction'', ''customer'', ''inventory'', ''guest_check'',
            ''guest_check_item'']"
    by (simp add: enqueued_types_def pushEndpoints_def)
  show ?thesis using a b c e by blast
qed

section \<open>Receipt numbers\<close>

lemma below_ten:
  assumes "(d::nat) < 10"
  shows "d = 0 \<or> d = 1 \<or> d = 2 \<or> d = 3 \<or> d = 4 \<or> d = 5 \<or> d = 6 \<or> d = 7 \<or> d = 8 \<or> d = 9"
  using assms by arith

lemma digit_val_digit_char: "d < 10 \<Longrightarrow> digit_val (digit_char d) = d"
  using below_ten[of d] by (auto simp: digit_val_def digit_char_def)

lemma is_digit_digit_char: "is_digit (digit_char d)"
  using below_ten[of "d mod 10"] by (auto simp: is_digit_def digit_char_def)

lemma string_of_nat_nonempty: "string_of_nat n \<noteq> []"
  by (subst string_of_nat.simps) simp

lemma nat_of_digits_snoc: "nat_of_digits (s @ [c]) = 10 * nat_of_digits s + digit_val c"
  by (simp add: nat_of_digits_def)

lemma nat_of_digits_string_of_nat: "nat_of_digits (string_of_nat n) = n"
proof (induction n rule: string_of_nat.induct)
  case (1 n)
  show ?case
  proof (cases "n < 10")
    case True
    then show ?thesis
      by (subst string_of_nat.simps) (simp add: nat_of_digits_def digit_val_digit_char)
  next
    case False
    have "nat_of_digits (string_of_nat n) = 10 * nat_of_digits (string_of_nat (n div 10)) + digit_val (digit_char (n mod 10))"
      using False by (subst string_of_nat.simps) (simp add: nat_of_digits_snoc)
    then show ?thesis using 1 False by (simp add: digit_val_digit_char)
  qed
qed

lemma nat_of_digits_zeros: "nat_of_digits (replicate k (CHR ''0'') @ s) = nat_of_digits s"
proof -
  have "foldl (\<lambda>a c. 10 * a + digit_val c) 0 (replicate k (CHR ''0'')) = 0"
    by (induction k) (simp_all add: digit_val_def)
  then show ?thesis by (simp add: nat_of_digits_def)
qed

lemma nat_of_digits_padStart: "nat_of_digits (padStart m (CHR ''0'') (string_of_nat n)) = n"
  by (simp add: padStart_def nat_of_digits_zeros nat_of_digits_string_of_nat)

lemma padStart_inj:
  "padStart m (CHR ''0'') (string_of_nat a) = padStart m (CHR ''0'') (string_of_nat b) \<Longrightarrow> a = b"
  by (metis nat_of_digits_padStart)

lemma string_of_nat_digits: "list_all is_digit (string_of_nat n)"
proof (induction n rule: string_of_nat.induct)
  case (1 n)
  show ?case
  proof (cases "n < 10")
    case True
    then show ?thesis by (subst string_of_nat.simps) (simp add: is_digit_digit_char)
  next
    case False
    then show ?thesis using 1 by (subst string_of_nat.simps) (simp add: is_digit_digit_char)
  qed
qed

lemma length_string_of_nat: "0 < k \<Longrightarrow> (length (string_of_nat n) \<le> k) = (n < 10 ^ k)"
proof (induction n arbitrary: k rule: string_of_nat.induct)
  case (1 n)
  show ?case
  proof (cases "n < 10")
    case True
    have "(10::nat) ^ 1 \<le> 10 ^ k" using 1(2) by (intro power_increasing) simp_all
    then have "n < 10 ^ k" using True by simp
    then show ?thesis using True 1(2) by (subst string_of_nat.simps) simp
  next
    case False
    show ?thesis
    proof (cases k)
      case 0
      then show ?thesis using 1(2) by simp
    next
      case (Suc j)
      show ?thesis
      proof (cases "j = 0")
        case True
        then show ?thesis using False Suc
          by (subst string_of_nat.simps) (simp add: string_of_nat_nonempty)
      next
        case F: False
        have "(length (string_of_nat (n div 10)) \<le> j) = (n div 10 < 10 ^ j)"
          using 1(1)[OF False, of j] F by simp
        moreover have "(n div 10 < 10 ^ j) = (n < 10 ^ Suc j)"
          by (simp add: less_mult_imp_div_less div_less_iff_less_mult mult.commute)
        ultimately show ?thesis using False Suc by (subst string_of_nat.simps) simp
      qed
    qed
  qed
qed

lemma length_padStart4: "n \<le> 9999 \<Longrightarrow> length (padStart 4 (CHR ''0'') (string_of_nat n)) = 4"
proof -
  assume "n \<le> 9999"
  then have "n < 10 ^ 4" by simp
  then have "length (string_of_nat n) \<le> 4" using length_string_of_nat[of 4 n] by simp
  then show ?thesis by (simp add: padStart_def)
qed

lemma upsert_sequence_next:
  "fst (upsert_sequence k seq) = current_value seq k + 1 \<and>
   map_of (snd (upsert_sequence k seq)) k = Some (current_value seq k + 1)"
  by (induction seq) (auto simp: current_value_def split: prod.splits)

lemma nextReceiptNumber_next:
  assumes "current_value (order_sequence d) dk = int c"
  shows "fst (nextReceiptNumber dk d) = dk @ ''-'' @ padStart 4 (CHR ''0'') (string_of_nat (Suc c))"
    and "current_value (order_sequence (snd (nextReceiptNumber dk d))) dk = int (Suc c)"
proof -
  obtain v seq' where u: "upsert_sequence dk (order_sequence d) = (v, seq')" by fastforce
  have v: "v = int (Suc c)" and m: "map_of seq' dk = Some (int (Suc c))"
    using upsert_sequence_next[of dk "order_sequence d"] u assms by simp_all
  show "fst (nextReceiptNumber dk d) = dk @ ''-'' @ padStart 4 (CHR ''0'') (string_of_nat (Suc c))"
    by (simp add: nextReceiptNumber_def u v string_of_int_def del: of_nat_Suc)
  show "current_value (order_sequence (snd (nextReceiptNumber dk d))) dk = int (Suc c)"
    by (simp add: nextReceiptNumber_def u current_value_def m)
qed

lemma receipt_calls_values:
  assumes "current_value (order_sequence d) dk = int c"
  shows "fst (receipt_calls n dk d) =
           map (\<lambda>i. dk @ ''-'' @ padStart 4 (CHR ''0'') (string_of_nat (c + i))) [1..<Suc n]"
  using assms
proof (induction n arbitrary: d c)
  case 0
  then show ?case by simp
next
  case (Suc n)
  obtain r d' where rd: "nextReceiptNumber dk d = (r, d')" by fastforce
  have r: "r = dk @ ''-'' @ padStart 4 (CHR ''0'') (string_of_nat (Suc c))"
    and c': "current_value (order_sequence d') dk = int (Suc c)"
    using nextReceiptNumber_next[OF Suc.prems] rd by simp_all
  have IH: "fst (receipt_calls n dk d') =
           map (\<lambda>i. dk @ ''-'' @ padStart 4 (CHR ''0'') (string_of_nat (Suc c + i))) [1..<Suc n]"
    using Suc.IH[OF c'] .
  have up: "[Suc 1..<Suc (Suc n)] = map Suc [1..<Suc n]"
    by (simp only: map_Suc_upt)
  have shift: "map (\<lambda>i. dk @ ''-'' @ padStart 4 (CHR ''0'') (string_of_nat (Suc c + i))) [1..<Suc n]
             = map (\<lambda>i. dk @ ''-'' @ padStart 4 (CHR ''0'') (string_of_nat (c + i))) [Suc 1..<Suc (Suc n)]"
    unfolding up by (simp add: comp_def del: upt_Suc)
  have "[1..<Suc (Suc n)] = 1 # [Suc 1..<Suc (Suc n)]"
    by (rule upt_conv_Cons) simp
  then show ?case
    using rd r IH shift by (simp add: split_beta del: upt_Suc)
qed

lemma receipt_calls_fresh:
  assumes "map_of (order_sequence d) dk = None"
  shows "fst (receipt_calls n dk d) =
           map (\<lambda>i. dk @ ''-'' @ padStart 4 (CHR ''0'') (string_of_nat i)) [1..<Suc n]"
  using receipt_calls_values[of d dk 0 n] assms by (simp add: current_value_def)

text \<open>
  Claim C6, as the code has it. On a date key that has no row yet, \<open>n\<close> calls of
  \<open>nextReceiptNumber\<close> return \<open>n\<close> distinct values; the \<open>i\<close>-th is the date key, a
  dash, and the decimal numeral of \<open>i\<close> padded with zeros on the left to at least four
  digits, so the numeric suffixes are 1, 2, ..., \<open>n\<close>. The value has the form
  YYYYMMDD-NNNN as long as \<open>i\<close> is at most 9999 (and the date key has eight digits). The
  calls are taken one after the other: the statement is synchronous and the process has a
  single thread.
\<close>

theorem receipt_numbers_contiguous:
  assumes "map_of (order_sequence d) dateKey = None"
  shows "length (fst (receipt_calls n dateKey d)) = n
       \<and> distinct (fst (receipt_calls n dateKey d))
       \<and> (\<forall>i<n. fst (receipt_calls n dateKey d) ! i
                   = dateKey @ ''-'' @ padStart 4 (CHR ''0'') (string_of_nat (Suc i))
               \<and> nat_of_digits (drop (length dateKey + 1) (fst (receipt_calls n dateKey d) ! i)) = Suc i
               \<and> (Suc i \<le> 9999 \<and> length dateKey = 8 \<and> list_all is_digit dateKey
                    \<longrightarrow> is_receipt_form (fst (receipt_calls n dateKey d) ! i)))"
proof -
  let ?f = "\<lambda>i. dateKey @ ''-'' @ padStart 4 (CHR ''0'') (string_of_nat i)"
  have rs: "fst (receipt_calls n dateKey d) = map ?f [1..<Suc n]"
    using receipt_calls_fresh[OF assms] .
  have len: "length (fst (receipt_calls n dateKey d)) = n" by (simp add: rs)
  have "inj_on ?f (set [1..<Suc n])"
    by (rule inj_onI) (auto dest: padStart_inj)
  then have dist: "distinct (fst (receipt_calls n dateKey d))"
    unfolding rs by (simp add: distinct_map del: upt_Suc)
  have nth: "fst (receipt_calls n dateKey d) ! i = ?f (Suc i)" if "i < n" for i
    using that unfolding rs by (simp del: upt_Suc)
  have form: "is_receipt_form (?f (Suc i))"
    if "Suc i \<le> 9999" "length dateKey = 8" "list_all is_digit dateKey" for i
  proof -
    have l4: "length (padStart 4 (CHR ''0'') (string_of_nat (Suc i))) = 4"
      using length_padStart4[OF that(1)] .
    have dg: "list_all is_digit (padStart 4 (CHR ''0'') (string_of_nat (Suc i)))"
    proof -
      have z: "is_digit (CHR ''0'')" by (simp add: is_digit_def)
      show ?thesis
        using string_of_nat_digits[of "Suc i"] z by (auto simp: padStart_def list_all_iff)
    qed
    show ?thesis
      using that(2,3) l4 dg by (simp add: is_receipt_form_def nth_append)
  qed
  show ?thesis
    using len dist nth form by (simp add: nat_of_digits_padStart)
qed

lemma string_of_nat_10000: "string_of_nat 10000 = ''10000''"
  by (simp add: string_of_nat.simps digit_char_def)

text \<open>
  Claim C6 promises the form YYYYMMDD-NNNN for every \<open>n\<close>. The ten-thousandth value of
  a day is 20240101-10000.
\<close>

theorem receipt_10000_has_five_digits:
  "\<not> is_receipt_form (fst (receipt_calls 10000 ''20240101'' empty_db) ! 9999)"
proof -
  have "map_of (order_sequence empty_db) ''20240101'' = None" by (simp add: empty_db_def)
  then have "fst (receipt_calls 10000 ''20240101'' empty_db) =
           map (\<lambda>i. ''20240101'' @ ''-'' @ padStart 4 (CHR ''0'') (string_of_nat i)) [1..<Suc 10000]"
    by (rule receipt_calls_fresh)
  then have "fst (receipt_calls 10000 ''20240101'' empty_db) ! 9999 = ''20240101-10000''"
    by (simp add: string_of_nat_10000 padStart_def del: upt_Suc)
  then show ?thesis by (simp add: is_receipt_form_def)
qed

section \<open>POST /api/sales\<close>

lemma bind_args_two_strings:
  assumes "bind_args n (Some (JStr a) # Some (JStr b) # args) = Inr vs"
  shows "\<exists>ws. vs = SText a # SText b # ws"
  using assms unfolding bind_args_def
  by (auto split: if_splits option.splits)

lemma run_insert_two_strings:
  assumes "run_insert t ((c1, P) # (c2, P) # cs) (Some (JStr a) # Some (JStr b) # args) rows = Inr rows'"
    and "c1 \<noteq> c2"
  shows "\<exists>r. rows' = rows @ [r] \<and> col r c1 = SText a \<and> col r c2 = SText b"
proof -
  obtain vs where vs: "bind_args (placeholders ((c1, P) # (c2, P) # cs))
      (Some (JStr a) # Some (JStr b) # args) = Inr vs"
    and r: "rows' = rows @ [fill ((c1, P) # (c2, P) # cs) vs]"
    using assms(1) unfolding run_insert_def Let_def
    by (auto split: sum.splits if_splits)
  obtain ws where "vs = SText a # SText b # ws" using bind_args_two_strings[OF vs] by blast
  then show ?thesis using r assms(2) by (simp add: col_def)
qed

lemma insert_sale_items_result:
  assumes "insert_sale_items env saleId k items d = Inr (k', d')"
  shows "\<exists>new. d' = d\<lparr>sale_items := sale_items d @ new\<rparr> \<and> length new = length items
           \<and> (\<forall>r \<in> set new. col r ''sale_id'' = SText saleId) \<and> k' = k + length items"
  using assms
proof (induction items arbitrary: k d)
  case Nil
  then show ?case by simp
next
  case (Cons item items)
  from Cons.prems obtain rows where
    ins: "run_insert sale_items_def sale_item_columns (sale_item_args env (re_ids env k) saleId item)
            (sale_items d) = Inr rows"
    and rest: "insert_sale_items env saleId (Suc k) items (d\<lparr>sale_items := rows\<rparr>) = Inr (k', d')"
    by (auto split: if_splits sum.splits)
  obtain r where r: "rows = sale_items d @ [r]" "col r ''sale_id'' = SText saleId"
    using run_insert_two_strings[of sale_items_def "''id''" "''sale_id''" _ "re_ids env k" saleId]
      ins unfolding sale_item_columns_def sale_item_args_def by fastforce
  obtain new where new: "d' = (d\<lparr>sale_items := rows\<rparr>)\<lparr>sale_items := sale_items (d\<lparr>sale_items := rows\<rparr>) @ new\<rparr>"
    "length new = length items" "\<forall>r \<in> set new. col r ''sale_id'' = SText saleId"
    "k' = Suc k + length items"
    using Cons.IH[OF rest] by blast
  show ?case
    by (rule exI[of _ "r # new"]) (use r new in simp)
qed

lemma insert_payments_result:
  assumes "insert_payments env saleId k ps d = Inr (k', d')"
  shows "\<exists>new. d' = d\<lparr>payments := payments d @ new\<rparr> \<and> length new = length ps
           \<and> (\<forall>r \<in> set new. col r ''sale_id'' = SText saleId)"
  using assms
proof (induction ps arbitrary: k d)
  case Nil
  then show ?case by simp
next
  case (Cons p ps)
  from Cons.prems obtain rows where
    ins: "run_insert payments_def (payment_columns (re_now env)) (payment_args (re_ids env k) saleId p)
            (payments d) = Inr rows"
    and rest: "insert_payments env saleId (Suc k) ps (d\<lparr>payments := rows\<rparr>) = Inr (k', d')"
    by (auto split: if_splits sum.splits)
  obtain r where r: "rows = payments d @ [r]" "col r ''sale_id'' = SText saleId"
    using run_insert_two_strings[of payments_def "''id''" "''sale_id''" _ "re_ids env k" saleId]
      ins unfolding payment_columns_def payment_args_def by fastforce
  obtain new where new: "d' = (d\<lparr>payments := rows\<rparr>)\<lparr>payments := payments (d\<lparr>payments := rows\<rparr>) @ new\<rparr>"
    "length new = length ps" "\<forall>r \<in> set new. col r ''sale_id'' = SText saleId"
    using Cons.IH[OF rest] by blast
  show ?case
    by (rule exI[of _ "r # new"]) (use r new in simp)
qed

lemma sale_txn_result:
  assumes "sale_txn env req_body d = Inr (j, d')"
  shows "\<exists>body sale items pays its ps.
           req_body = Some body
         \<and> sales d' = sales d @ [sale] \<and> col sale ''id'' = SText (re_ids env 0)
         \<and> js_iterate (dflt (js_prop body ''items'') (JArr [])) = Inr its
         \<and> sale_items d' = sale_items d @ items \<and> length items = length its
         \<and> (\<forall>r \<in> set items. col r ''sale_id'' = SText (re_ids env 0))
         \<and> js_iterate (dflt (js_prop body ''payments'') (JArr [])) = Inr ps
         \<and> payments d' = payments d @ pays \<and> length pays = length ps
         \<and> (\<forall>r \<in> set pays. col r ''sale_id'' = SText (re_ids env 0))
         \<and> outbox_queue d' = outbox_queue d @ [sale_outbox_row env body d]"
proof -
  obtain rn d1 where n: "nextReceiptNumber (re_dateKey env) d = (rn, d1)" by fastforce
  have d1: "d1 = d\<lparr>order_sequence := order_sequence d1\<rparr>"
    using n by (auto simp: nextReceiptNumber_def split: prod.splits)
  from assms n obtain body rows its k d2 ps k' d3 where
    b: "req_body = Some body"
    and s: "run_insert sales_def (sale_columns (re_now env)) (sale_args env (re_ids env 0) rn body)
              (sales d1) = Inr rows"
    and i: "js_iterate (dflt (js_prop body ''items'') (JArr [])) = Inr its"
    and ii: "insert_sale_items env (re_ids env 0) 1 its (d1\<lparr>sales := rows\<rparr>) = Inr (k, d2)"
    and p: "js_iterate (dflt (js_prop body ''payments'') (JArr [])) = Inr ps"
    and pp: "insert_payments env (re_ids env 0) k ps d2 = Inr (k', d3)"
    and fin: "d' = insert_outbox ''sale'' (re_ids env 0) ''create'' (re_stringify env body)
                     (Some (re_ids env 0)) 10 (re_now env) d3"
    unfolding sale_txn_def Let_def
    by (auto split: option.splits json.splits sum.splits prod.splits)
  obtain sale where sale: "rows = sales d1 @ [sale]" "col sale ''id'' = SText (re_ids env 0)"
    using run_insert_two_strings[of sales_def "''id''" "''tenant_id''" _ "re_ids env 0"]
      s unfolding sale_columns_def sale_args_def by fastforce
  obtain items where items: "d2 = (d1\<lparr>sales := rows\<rparr>)\<lparr>sale_items := sale_items (d1\<lparr>sales := rows\<rparr>) @ items\<rparr>"
    "length items = length its" "\<forall>r \<in> set items. col r ''sale_id'' = SText (re_ids env 0)"
    using insert_sale_items_result[OF ii] by blast
  obtain pays where pays: "d3 = d2\<lparr>payments := payments d2 @ pays\<rparr>"
    "length pays = length ps" "\<forall>r \<in> set pays. col r ''sale_id'' = SText (re_ids env 0)"
    using insert_payments_result[OF pp] by blast
  have e1: "sales d1 = sales d" "sale_items d1 = sale_items d" "payments d1 = payments d"
    "outbox_queue d1 = outbox_queue d" "outbox_seq d1 = outbox_seq d"
    by (subst d1, simp)+
  show ?thesis
    apply (rule exI[of _ body], rule exI[of _ sale], rule exI[of _ items], rule exI[of _ pays],
        rule exI[of _ its], rule exI[of _ ps])
    using b sale items pays i p fin e1
    by (simp add: insert_outbox_def sale_outbox_row_def)
qed

text \<open>
  POST /api/sales. The handler is one call of \<open>transaction\<close>: either it replies 200 and
  the store has gained exactly one sales row with the new id, one sale_items row per
  element of \<open>body.items\<close> and one payments row per element of \<open>body.payments\<close>, all
  carrying that sale id, and exactly one outbox_queue row (entity_type 'sale', entity_id the
  sale id, action 'create', priority 10, PENDING); or an exception escapes, and the hub is
  as it was before the request: no business row, no outbox row, and the receipt sequence
  is not advanced.
\<close>

theorem post_sale_atomic:
  "(case post_sale env req_body h of
      (Inl e, h') \<Rightarrow> h' = h
    | (Inr (code, j), h') \<Rightarrow>
        code = 200 \<and>
        (\<exists>body sale items pays its ps.
           req_body = Some body
         \<and> sales (store h') = sales (store h) @ [sale] \<and> col sale ''id'' = SText (re_ids env 0)
         \<and> js_iterate (dflt (js_prop body ''items'') (JArr [])) = Inr its
         \<and> sale_items (store h') = sale_items (store h) @ items \<and> length items = length its
         \<and> (\<forall>r \<in> set items. col r ''sale_id'' = SText (re_ids env 0))
         \<and> js_iterate (dflt (js_prop body ''payments'') (JArr [])) = Inr ps
         \<and> payments (store h') = payments (store h) @ pays \<and> length pays = length ps
         \<and> (\<forall>r \<in> set pays. col r ''sale_id'' = SText (re_ids env 0))
         \<and> outbox_queue (store h') = outbox_queue (store h) @ [sale_outbox_row env body (store h)]))"
proof (cases "sale_txn env req_body (store h)")
  case (Inl e)
  then show ?thesis by (simp add: post_sale_def transaction_def)
next
  case (Inr r)
  obtain j d' where r: "r = (j, d')" by fastforce
  show ?thesis
    using sale_txn_result[OF Inr[unfolded r] ] Inr r
    by (simp add: post_sale_def transaction_def)
qed

section \<open>Kitchen bump, PIN change and the recent-user list\<close>

lemma col_set_col: "col (set_col c v r) c' = (if c' = c then v else col r c')"
  by (induction r) (auto simp: col_def)

lemma find_update_by_id:
  assumes "\<And>r. col (f r) ''id'' = col r ''id''"
  shows "get_by_id i (update_by_id i f rows) = map_option f (get_by_id i rows)"
  unfolding get_by_id_def update_by_id_def
  by (induction rows) (auto simp: assms)

lemma bump_order_id: "col (bump_order ns now r) ''id'' = col r ''id''"
  by (simp add: bump_order_def Let_def col_set_col)

lemma bump_step:
  assumes "get_by_id oid (kitchen_orders (store h)) = Some order"
    and "col order ''status'' = SText s"
    and "js_index statusFlow s = Own ns" and "ns \<noteq> []"
  shows "fst (post_bump env oid h) =
           Inr (200, JObj [(''success'', JBool True), (''previousStatus'', JStr s), (''newStatus'', JStr ns)])"
    and "outbox_queue (store (snd (post_bump env oid h))) =
           outbox_queue (store h) @ [bump_outbox_row env oid ns (store h)]"
    and "broadcasts (snd (post_bump env oid h)) = broadcasts h @ [bump_event oid s ns]"
    and "get_by_id oid (kitchen_orders (store (snd (post_bump env oid h)))) =
           Some (bump_order ns (re_now env) order)"
  using assms
  by (simp_all add: post_bump_def transaction_def bump_txn_def insert_outbox_def
      bump_outbox_row_def bump_event_def find_update_by_id bump_order_id)

lemma bump_refused:
  assumes "get_by_id oid (kitchen_orders (store h)) = Some order"
    and "col order ''status'' = SText s"
    and "js_index statusFlow s = Undefined"
  shows "post_bump env oid h =
           (Inr (200, JObj [(''success'', JBool False),
                            (''message'', JStr (''Cannot bump from status '' @ s))]), h)"
  using assms by (simp add: post_bump_def)

lemma statusFlow_steps:
  "js_index statusFlow ''PENDING'' = Own ''PREPARING''"
  "js_index statusFlow ''PREPARING'' = Own ''READY''"
  "js_index statusFlow ''READY'' = Own ''COMPLETED''"
  "js_index statusFlow ''COMPLETED'' = Undefined"
  by (simp_all add: js_index_def statusFlow_def Object_prototype_keys_def)

text \<open>
  Claim C8. Starting from an order in status PENDING, three bumps answer success and take
  the order to PREPARING (with \<open>fired_at\<close> set to the time of the bump), READY and
  COMPLETED (with \<open>completed_at\<close> set). Each of them appends exactly one outbox row
  (kitchen_order, update) and, after the transaction has returned, exactly one
  order:status frame. A fourth bump answers \<open>{success: false}\<close> and leaves the hub
  unchanged.
\<close>

theorem bump_advances_order:
  assumes "get_by_id oid (kitchen_orders (store h0)) = Some order"
    and "col order ''status'' = SText ''PENDING''"
    and "h1 = snd (post_bump env1 oid h0)"
    and "h2 = snd (post_bump env2 oid h1)"
    and "h3 = snd (post_bump env3 oid h2)"
  shows "fst (post_bump env1 oid h0) =
           Inr (200, JObj [(''success'', JBool True), (''previousStatus'', JStr ''PENDING''),
                           (''newStatus'', JStr ''PREPARING'')])
       \<and> order_col h1 oid ''status'' = SText ''PREPARING''
       \<and> order_col h1 oid ''fired_at'' = SText (re_now env1)
       \<and> outbox_queue (store h1) = outbox_queue (store h0) @ [bump_outbox_row env1 oid ''PREPARING'' (store h0)]
       \<and> broadcasts h1 = broadcasts h0 @ [bump_event oid ''PENDING'' ''PREPARING'']
       \<and> fst (post_bump env2 oid h1) =
           Inr (200, JObj [(''success'', JBool True), (''previousStatus'', JStr ''PREPARING''),
                           (''newStatus'', JStr ''READY'')])
       \<and> order_col h2 oid ''status'' = SText ''READY''
       \<and> outbox_queue (store h2) = outbox_queue (store h1) @ [bump_outbox_row env2 oid ''READY'' (store h1)]
       \<and> broadcasts h2 = broadcasts h1 @ [bump_event oid ''PREPARING'' ''READY'']
       \<and> fst (post_bump env3 oid h2) =
           Inr (200, JObj [(''success'', JBool True), (''previousStatus'', JStr ''READY''),
                           (''newStatus'', JStr ''COMPLETED'')])
       \<and> order_col h3 oid ''status'' = SText ''COMPLETED''
       \<and> order_col h3 oid ''completed_at'' = SText (re_now env3)
       \<and> outbox_queue (store h3) = outbox_queue (store h2) @ [bump_outbox_row env3 oid ''COMPLETED'' (store h2)]
       \<and> broadcasts h3 = broadcasts h2 @ [bump_event oid ''READY'' ''COMPLETED'']
       \<and> post_bump env4 oid h3 =
           (Inr (200, JObj [(''success'', JBool False),
                            (''message'', JStr ''Cannot bump from status COMPLETED'')]), h3)"
proof -
  note s1 = bump_step[OF assms(1,2) statusFlow_steps(1), of env1, folded assms(3)]
  let ?o1 = "bump_order ''PREPARING'' (re_now env1) order"
  have st1: "col ?o1 ''status'' = SText ''PREPARING''"
    and f1: "col ?o1 ''fired_at'' = SText (re_now env1)"
    by (simp_all add: bump_order_def Let_def col_set_col)
  have g1: "get_by_id oid (kitchen_orders (store h1)) = Some ?o1" using s1(4) by simp
  note s2 = bump_step[OF g1 st1 statusFlow_steps(2), of env2, folded assms(4)]
  let ?o2 = "bump_order ''READY'' (re_now env2) ?o1"
  have st2: "col ?o2 ''status'' = SText ''READY''"
    by (simp add: bump_order_def Let_def col_set_col)
  have g2: "get_by_id oid (kitchen_orders (store h2)) = Some ?o2" using s2(4) by simp
  note s3 = bump_step[OF g2 st2 statusFlow_steps(3), of env3, folded assms(5)]
  let ?o3 = "bump_order ''COMPLETED'' (re_now env3) ?o2"
  have st3: "col ?o3 ''status'' = SText ''COMPLETED''"
    and c3: "col ?o3 ''completed_at'' = SText (re_now env3)"
    by (simp_all add: bump_order_def Let_def col_set_col)
  have g3: "get_by_id oid (kitchen_orders (store h3)) = Some ?o3" using s3(4) by simp
  have s4: "post_bump env4 oid h3 =
           (Inr (200, JObj [(''success'', JBool False),
                            (''message'', JStr ''Cannot bump from status COMPLETED'')]), h3)"
    using bump_refused[OF g3 st3 statusFlow_steps(4), of env4] by simp
  show ?thesis
    using s1(1-3) s2(1-3) s3(1-3) s4 g1 g2 g3 st1 f1 st2 st3 c3
    by (simp add: order_col_def)
qed

lemma length_recordRecentUser: "length ids \<le> 5 \<Longrightarrow> length (recordRecentUser u ids) \<le> 5"
  by (auto simp: recordRecentUser_def Let_def MAX_RECENT_USERS_def length_remove1)

lemma recentUserIds_change_pin:
  "recentUserIds (snd (post_change_pin env userId newPin h)) = recentUserIds h"
  by (simp add: post_change_pin_def transaction_def change_pin_txn_def Let_def split: option.splits)

lemma recentUserIds_auth_bound:
  assumes "length (recentUserIds h) \<le> 5"
  shows "length (recentUserIds (snd (post_auth_pin env req h))) \<le> 5"
  using assms length_recordRecentUser[OF assms]
  by (auto simp: post_auth_pin_def Let_def transaction_def split: prod.splits option.splits sum.splits)

text \<open>
  Claim C9, as the code has it. POST /api/users/:userId/change-pin leaves the recent-user
  list as it is: the list lives in api/auth.ts and the handler in api/users.ts has no
  access to it. The list stays within five entries across PIN logins; \<open>recordRecentUser\<close>
  puts the user in front, keeps the entries distinct, and on a full list drops the last,
  least recently used entry.
\<close>

theorem change_pin_keeps_recent_users:
  "recentUserIds (snd (post_change_pin env userId newPin h)) = recentUserIds h
   \<and> (length (recentUserIds h) \<le> 5 \<longrightarrow> length (recentUserIds (snd (post_auth_pin env' req h))) \<le> 5)
   \<and> (length ids \<le> 5 \<longrightarrow> length (recordRecentUser u ids) \<le> 5)
   \<and> hd (recordRecentUser u ids) = u
   \<and> (distinct ids \<longrightarrow> distinct (recordRecentUser u ids))
   \<and> (length ids = 5 \<and> u \<notin> set ids \<longrightarrow> recordRecentUser u ids = u # butlast ids)"
proof -
  have a: "hd (recordRecentUser u ids) = u"
    by (cases "remove1 u ids") (auto simp: recordRecentUser_def Let_def MAX_RECENT_USERS_def)
  have b: "distinct ids \<longrightarrow> distinct (recordRecentUser u ids)"
    by (auto simp: recordRecentUser_def Let_def distinct_butlast dest: in_set_butlastD)
  have c: "length ids = 5 \<and> u \<notin> set ids \<longrightarrow> recordRecentUser u ids = u # butlast ids"
    by (auto simp: recordRecentUser_def Let_def MAX_RECENT_USERS_def remove1_idem)
  show ?thesis
    using recentUserIds_change_pin recentUserIds_auth_bound length_recordRecentUser a b c by blast
qed

section \<open>PIN rate limit\<close>

lemma post_auth_pin_buckets:
  "pinAttempts (snd (post_auth_pin env req h)) =
     (if pin_malformed (pr_pin req) then pinAttempts h
      else snd (checkPinRateLimit (re_clock env)
                 (case pr_ip req of None \<Rightarrow> ''unknown'' | Some ip \<Rightarrow> ip) (pinAttempts h)))"
  by (auto simp: post_auth_pin_def Let_def transaction_def
      split: prod.splits option.splits sum.splits)

lemma post_auth_pin_limited:
  assumes "\<not> pin_malformed (pr_pin req)"
    and "\<not> fst (checkPinRateLimit (re_clock env)
                 (case pr_ip req of None \<Rightarrow> ''unknown'' | Some ip \<Rightarrow> ip) (pinAttempts h))"
  shows "fst (post_auth_pin env req h) =
           Inr (429, JObj [(''error'', JStr ''Too many PIN attempts. Try again later.'')])"
proof -
  obtain a b where c: "checkPinRateLimit (re_clock env)
                 (case pr_ip req of None \<Rightarrow> ''unknown'' | Some ip \<Rightarrow> ip) (pinAttempts h) = (a, b)"
    by fastforce
  then have "\<not> a" using assms(2) by simp
  then show ?thesis using assms(1) c by (simp add: post_auth_pin_def Let_def)
qed

lemma auth_step_in_window:
  assumes "pinAttempts h ip = Some e" and "event_time ev < resetAt e"
  shows "pinAttempts (auth_step ev h) ip =
           Some (e\<lparr>count := count e + (if attempt_from ip ev then 1 else 0)\<rparr>)"
proof (cases ev)
  case (PinRequest env req)
  then show ?thesis
    using assms
    by (auto simp: post_auth_pin_buckets checkPinRateLimit_def split: option.splits)
next
  case (CleanupTick t)
  then show ?thesis using assms by (simp add: cleanup_pinAttempts_def)
qed

lemma auth_run_in_window:
  assumes "pinAttempts h ip = Some e" and "\<forall>ev \<in> set evs. event_time ev < resetAt e"
  shows "pinAttempts (fold auth_step evs h) ip =
           Some (e\<lparr>count := count e + length (filter (attempt_from ip) evs)\<rparr>)"
  using assms
proof (induction evs arbitrary: h e)
  case Nil
  then show ?case by simp
next
  case (Cons ev evs)
  let ?e' = "e\<lparr>count := count e + (if attempt_from ip ev then 1 else 0)\<rparr>"
  have s: "pinAttempts (auth_step ev h) ip = Some ?e'"
    using auth_step_in_window[OF Cons.prems(1)] Cons.prems(2) by simp
  have w: "\<forall>ev \<in> set evs. event_time ev < resetAt ?e'" using Cons.prems(2) by simp
  show ?case using Cons.IH[OF s w] by simp
qed

lemma first_attempt_opens_window:
  assumes "attempt_from ip (PinRequest env req)"
    and "pinAttempts h ip = None \<or> (\<exists>e. pinAttempts h ip = Some e \<and> resetAt e \<le> re_clock env)"
  shows "pinAttempts (auth_step (PinRequest env req) h) ip =
           Some \<lparr>count = 1, resetAt = re_clock env + PIN_RATE_WINDOW_MS\<rparr>"
  using assms by (auto simp: post_auth_pin_buckets checkPinRateLimit_def)

text \<open>
  Claim C7. A well-formed attempt from an address opens a window (no bucket yet, or an
  expired one). If at least nine more well-formed attempts from the same address follow,
  among any other requests and cleanup ticks, all before the window closes, then the next
  well-formed attempt from that address inside the window is answered 429, whatever
  bcrypt would say about the PIN.
\<close>

theorem pin_eleventh_attempt_429:
  assumes "attempt_from ip (PinRequest env1 req1)"
    and "pinAttempts h ip = None \<or> (\<exists>e. pinAttempts h ip = Some e \<and> resetAt e \<le> re_clock env1)"
    and "\<forall>ev \<in> set evs. event_time ev < re_clock env1 + PIN_RATE_WINDOW_MS"
    and "9 \<le> length (filter (attempt_from ip) evs)"
    and "attempt_from ip (PinRequest env req)"
    and "re_clock env < re_clock env1 + PIN_RATE_WINDOW_MS"
  shows "fst (post_auth_pin env req (fold auth_step evs (auth_step (PinRequest env1 req1) h))) =
           Inr (429, JObj [(''error'', JStr ''Too many PIN attempts. Try again later.'')])"
proof -
  let ?h1 = "auth_step (PinRequest env1 req1) h"
  let ?e1 = "\<lparr>count = 1, resetAt = re_clock env1 + PIN_RATE_WINDOW_MS\<rparr>"
  have o: "pinAttempts ?h1 ip = Some ?e1"
    using first_attempt_opens_window[OF assms(1,2)] .
  have w: "\<forall>ev \<in> set evs. event_time ev < resetAt ?e1" using assms(3) by simp
  have r: "pinAttempts (fold auth_step evs ?h1) ip =
             Some (?e1\<lparr>count := count ?e1 + length (filter (attempt_from ip) evs)\<rparr>)"
    using auth_run_in_window[OF o w] .
  have ip: "(case pr_ip req of None \<Rightarrow> ''unknown'' | Some a \<Rightarrow> a) = ip" and wf: "\<not> pin_malformed (pr_pin req)"
    using assms(5) by simp_all
  have "\<not> fst (checkPinRateLimit (re_clock env)
                 (case pr_ip req of None \<Rightarrow> ''unknown'' | Some ip \<Rightarrow> ip)
                 (pinAttempts (fold auth_step evs ?h1)))"
    unfolding ip using r assms(4,6) by (simp add: checkPinRateLimit_def PIN_RATE_LIMIT_def)
  then show ?thesis by (rule post_auth_pin_limited[OF wf])
qed

section \<open>Pull engine: 404 and fault isolation\<close>

lemma cloud_request_404:
  assumes "cloud_request r = Inr res" and "cr_status res = 404"
  shows "\<not> cr_ok res" and "http_error res = ''HTTP 404''"
proof -
  have s: "string_of_int 404 = ''404''"
    by (simp add: string_of_int_def string_of_nat.simps digit_char_def)
  have "\<not> cr_ok res \<and> cr_error res = None"
    using assms by (auto simp: cloud_request_def split: http_result.splits response_body.splits)
  then show "\<not> cr_ok res" and "http_error res = ''HTTP 404''"
    using assms(2) s by (simp_all add: http_error_def error_or_def)
qed

lemma store_items_empty:
  assumes "h_write hdl \<noteq> ReplaceThenCount" and "h_extra hdl = NoExtra"
  shows "store_items env hdl data [] st =
           (Inr \<lparr>entity = h_entity hdl, pulled = 0, errors = []\<rparr>,
            st\<lparr>sync_state := updateSyncState (h_entity hdl) 0 (pl_now env) (sync_state st)\<rparr>)"
  using assms
  by (cases "h_write hdl")
     (simp_all add: store_items_def write_rows_def upsertRows_def replaceTable_def)

lemma fetch_handlers_plain:
  "\<forall>e \<in> set entities. \<forall>hdl. e = Generic hdl \<longrightarrow> h_fetch hdl = FetchAndTransform \<longrightarrow>
      h_write hdl = Upsert \<and> h_extra hdl = NoExtra"
  by (simp add: entities_def mk_handler_def)


lemma updateSyncState_other: "k \<noteq> e \<Longrightarrow> updateSyncState e n now m k = m k"
  by (simp add: updateSyncState_def)

lemma updateSyncState_same:
  "\<exists>row. updateSyncState e n now m e = Some row \<and> sync_status row = ''SUCCESS''
         \<and> record_count row = n \<and> last_synced_at row = Some now"
  by (cases "m e") (simp_all add: updateSyncState_def)

lemma store_items_frame:
  assumes "k \<noteq> h_entity hdl"
  shows "sync_state (snd (store_items env hdl data items st)) k = sync_state st k"
  using assms
  by (auto simp: store_items_def Let_def updateSyncState_other
      split: sum.splits prod.splits extra_kind.splits option.splits)

lemma store_items_entity:
  assumes "store_items env hdl data items st = (Inr r, st')"
  shows "entity r = h_entity hdl"
  using assms
  by (auto simp: store_items_def Let_def split: sum.splits prod.splits extra_kind.splits option.splits)

lemma run_handler_frame:
  assumes "k \<noteq> h_entity hdl"
  shows "sync_state (snd (run_handler env hdl st)) k = sync_state st k"
  using assms
  by (auto simp: run_handler_def store_items_frame split: sum.splits fetch_kind.splits)

lemma run_handler_entity:
  assumes "run_handler env hdl st = (Inr r, st')"
  shows "entity r = h_entity hdl"
  using assms
  by (auto simp: run_handler_def split: sum.splits fetch_kind.splits if_splits
      dest: store_items_entity)

lemma pullLocationSettings_frame:
  assumes "k \<noteq> ''location_settings''"
  shows "sync_state (snd (pullLocationSettings env st)) k = sync_state st k"
  using assms
  by (auto simp: pullLocationSettings_def updateSyncState_other split: sum.splits option.splits)

lemma pullLocationSettings_entity:
  assumes "pullLocationSettings env st = (Inr r, st')"
  shows "entity r = ''location_settings''"
  using assms
  by (auto simp: pullLocationSettings_def split: sum.splits option.splits if_splits)

lemma pullTerminalSettings_frame:
  assumes "k \<noteq> ''terminal_settings''"
  shows "sync_state (snd (pullTerminalSettings env st)) k = sync_state st k"
  using assms
  by (auto simp: pullTerminalSettings_def Let_def updateSyncState_other
      split: sum.splits prod.splits)

lemma pullTerminalSettings_entity:
  assumes "pullTerminalSettings env st = (Inr r, st')"
  shows "entity r = ''terminal_settings''"
  using assms
  by (auto simp: pullTerminalSettings_def Let_def split: sum.splits prod.splits if_splits)

lemma run_entry_frame:
  assumes "k \<noteq> entry_name e"
  shows "sync_state (snd (run_entry env e st)) k = sync_state st k"
  using assms
  by (cases e) (simp_all add: run_handler_frame pullLocationSettings_frame pullTerminalSettings_frame)

lemma run_entry_entity:
  assumes "run_entry env e st = (Inr r, st')"
  shows "entity r = entry_name e"
  using assms
  by (cases e) (auto dest: run_handler_entity pullLocationSettings_entity pullTerminalSettings_entity)

lemma pull_loop_names:
  "map entity (fst (pull_loop env es acc st)) = map entity acc @ map entry_name es"
proof (induction es arbitrary: acc st)
  case Nil
  then show ?case by simp
next
  case (Cons e es)
  obtain x st' where r: "run_entry env e st = (x, st')" by fastforce
  show ?case
  proof (cases x)
    case (Inl msg)
    then show ?thesis using r Cons.IH by simp
  next
    case (Inr res)
    then show ?thesis using r Cons.IH run_entry_entity[of env e st res st'] by simp
  qed
qed

lemma pull_loop_frame:
  assumes "k \<notin> entry_name ` set es"
  shows "sync_state (snd (pull_loop env es acc st)) k = sync_state st k"
  using assms
proof (induction es arbitrary: acc st)
  case Nil
  then show ?case by simp
next
  case (Cons e es)
  obtain x st' where r: "run_entry env e st = (x, st')" by fastforce
  have f: "sync_state st' k = sync_state st k"
    using run_entry_frame[of k e env st] Cons.prems r by simp
  have k: "k \<notin> entry_name ` set es" using Cons.prems by simp
  show ?case
    using r f Cons.IH[OF k] by (cases x) simp_all
qed

lemma pull_loop_acc: "set acc \<subseteq> set (fst (pull_loop env es acc st))"
proof (induction es arbitrary: acc st)
  case Nil
  then show ?case by simp
next
  case (Cons e es)
  obtain x st' where r: "run_entry env e st = (x, st')" by fastforce
  show ?case
  proof (cases x)
    case (Inl msg)
    then show ?thesis
      using r Cons.IH[of "acc @ [\<lparr>entity = entry_name e, pulled = 0, errors = [msg]\<rparr>]" st'] by auto
  next
    case (Inr res)
    then show ?thesis using r Cons.IH[of "acc @ [res]" st'] by auto
  qed
qed

lemma runFullSync_unfold:
  assumes "isConfigured (pl_config env)"
  shows "runFullSync env False st =
           (fst (pull_loop env entities [] st), False, snd (pull_loop env entities [] st))"
  using assms by (simp add: runFullSync_def split_beta)

lemma runFullSync_names:
  assumes "isConfigured (pl_config env)"
  shows "map entity (fst (runFullSync env False st)) = map entry_name entities"
  using pull_loop_names[of env entities "[]" st]
  by (simp add: runFullSync_unfold[OF assms])

lemma direct_handlers:
  "\<forall>e \<in> set entities. \<forall>hdl. e = Generic hdl \<longrightarrow>
      (h_fetch hdl = Direct) = (h_entity hdl \<in> set direct_entities)"
  by (simp add: entities_def mk_handler_def direct_entities_def)

lemma run_handler_404:
  assumes "Generic hdl \<in> set entities"
    and "cloud_request (pl_network env (h_path hdl) (handler_params hdl st)) = Inr res"
    and "cr_status res = 404"
  shows "fst (run_handler env hdl st) =
           Inr \<lparr>entity = h_entity hdl, pulled = 0,
                errors = (if h_entity hdl \<in> set direct_entities then [''HTTP 404''] else [])\<rparr>"
proof -
  note n = cloud_request_404[OF assms(2,3)]
  have d: "(h_fetch hdl = Direct) = (h_entity hdl \<in> set direct_entities)"
    using direct_handlers assms(1) by blast
  show ?thesis
  proof (cases "h_fetch hdl")
    case FetchAndTransform
    then have "h_write hdl = Upsert \<and> h_extra hdl = NoExtra"
      using fetch_handlers_plain assms(1) by blast
    then have "store_items env hdl JNull [] st =
           (Inr \<lparr>entity = h_entity hdl, pulled = 0, errors = []\<rparr>,
            st\<lparr>sync_state := updateSyncState (h_entity hdl) 0 (pl_now env) (sync_state st)\<rparr>)"
      by (intro store_items_empty) simp_all
    then show ?thesis
      using FetchAndTransform d n assms(2,3) by (simp add: run_handler_def)
  next
    case Direct
    then show ?thesis using d n assms(2,3) by (simp add: run_handler_def)
  next
    case Direct404
    then show ?thesis using d n assms(2,3) by (simp add: run_handler_def)
  qed
qed

lemma pullLocationSettings_404:
  assumes "cloud_request (pl_network env ''/api/hub/sync/location-settings'' []) = Inr res"
    and "cr_status res = 404"
  shows "fst (pullLocationSettings env st) =
           Inr \<lparr>entity = ''location_settings'', pulled = 0, errors = [''HTTP 404'']\<rparr>"
  using cloud_request_404[OF assms] assms(1) by (simp add: pullLocationSettings_def)

lemma terminal_loop_404:
  assumes "\<forall>tid \<in> set ts. \<exists>res.
             cloud_request (pl_network env ''/api/hub/sync/terminal-settings'' [(''terminalId'', tid)]) = Inr res
             \<and> cr_status res = 404"
  shows "terminal_loop env ts n errs t =
           (Inr (n, errs @ map (\<lambda>tid. ''Terminal '' @ tid @ '': HTTP 404'') ts), t)"
  using assms
proof (induction ts arbitrary: errs)
  case Nil
  then show ?case by simp
next
  case (Cons tid ts)
  obtain res where res:
    "cloud_request (pl_network env ''/api/hub/sync/terminal-settings'' [(''terminalId'', tid)]) = Inr res"
    "cr_status res = 404"
    using Cons.prems by auto
  note n = cloud_request_404[OF res]
  have "\<forall>tid \<in> set ts. \<exists>res.
             cloud_request (pl_network env ''/api/hub/sync/terminal-settings'' [(''terminalId'', tid)]) = Inr res
             \<and> cr_status res = 404"
    using Cons.prems by simp
  from Cons.IH[OF this] show ?case using res(1) n by simp
qed

lemma pullTerminalSettings_404:
  assumes "\<forall>tid. \<exists>res.
             cloud_request (pl_network env ''/api/hub/sync/terminal-settings'' [(''terminalId'', tid)]) = Inr res
             \<and> cr_status res = 404"
  shows "fst (pullTerminalSettings env st) =
           Inr \<lparr>entity = ''terminal_settings'', pulled = 0,
                errors = map (\<lambda>tid. ''Terminal '' @ tid @ '': HTTP 404'') (pl_terminals env (ref_tables st))\<rparr>"
proof -
  have "terminal_loop env (pl_terminals env (ref_tables st)) 0 [] (ref_tables st) =
           (Inr (0, [] @ map (\<lambda>tid. ''Terminal '' @ tid @ '': HTTP 404'') (pl_terminals env (ref_tables st))),
            ref_tables st)"
    by (rule terminal_loop_404) (use assms in blast)
  then show ?thesis by (simp add: pullTerminalSettings_def Let_def)
qed

lemma pull_404_by_handler:
  "(\<forall>hdl res. Generic hdl \<in> set entities
       \<and> cloud_request (pl_network env (h_path hdl) (handler_params hdl st)) = Inr res
       \<and> cr_status res = 404 \<longrightarrow>
       fst (run_handler env hdl st) =
         Inr \<lparr>entity = h_entity hdl, pulled = 0,
              errors = (if h_entity hdl \<in> set direct_entities then [''HTTP 404''] else [])\<rparr>)
   \<and> (\<forall>res. cloud_request (pl_network env ''/api/hub/sync/location-settings'' []) = Inr res
       \<and> cr_status res = 404 \<longrightarrow>
       fst (pullLocationSettings env st) =
         Inr \<lparr>entity = ''location_settings'', pulled = 0, errors = [''HTTP 404'']\<rparr>)
   \<and> ((\<forall>tid. \<exists>res.
          cloud_request (pl_network env ''/api/hub/sync/terminal-settings'' [(''terminalId'', tid)]) = Inr res
          \<and> cr_status res = 404) \<longrightarrow>
       fst (pullTerminalSettings env st) =
         Inr \<lparr>entity = ''terminal_settings'', pulled = 0,
              errors = map (\<lambda>tid. ''Terminal '' @ tid @ '': HTTP 404'') (pl_terminals env (ref_tables st))\<rparr>)
   \<and> (isConfigured (pl_config env) \<longrightarrow>
       map entity (fst (runFullSync env False st)) = map entry_name entities)"
  using run_handler_404 pullLocationSettings_404 pullTerminalSettings_404 runFullSync_names
  by blast


lemma write_rows_ok:
  assumes "pl_prepare env (h_entity hdl)" and "h_write hdl \<noteq> ReplaceThenCount"
  shows "\<exists>n t'. write_rows env hdl rows t = (Inr n, t')"
  using assms
  by (cases "h_write hdl")
     (auto simp: write_rows_def upsertRows_def replaceTable_def split: prod.splits)

lemma run_handler_completes:
  assumes "pull_completes env hdl" and "h_write hdl \<noteq> ReplaceThenCount"
  shows "\<exists>n st'. run_handler env hdl st = (Inr \<lparr>entity = h_entity hdl, pulled = n, errors = []\<rparr>, st')
           \<and> (\<exists>row. sync_state st' (h_entity hdl) = Some row \<and> sync_status row = ''SUCCESS''
                \<and> record_count row = n \<and> last_synced_at row = Some (pl_now env))"
proof -
  obtain res rows where res:
    "cloud_request (pl_network env (h_path hdl) (handler_params hdl st)) = Inr res" "cr_ok res"
    "map_rows (pl_row_of env (h_entity hdl)) (extractItems (cr_data res)) = Inr rows"
    "\<forall>t. snd (pl_extra env (h_entity hdl) (cr_data res) t) = None"
    using assms(1) unfolding pull_completes_def by blast
  have prep: "pl_prepare env (h_entity hdl)" using assms(1) unfolding pull_completes_def by blast
  obtain n t' where w: "write_rows env hdl rows (ref_tables st) = (Inr n, t')"
    using write_rows_ok[OF prep assms(2)] by blast
  obtain t'' where x: "pl_extra env (h_entity hdl) (cr_data res) t' = (t'', None)"
    using res(4)[rule_format, of t'] by (cases "pl_extra env (h_entity hdl) (cr_data res) t'") auto
  have run: "run_handler env hdl st = store_items env hdl (cr_data res) (extractItems (cr_data res)) st"
    using res(1,2) by (simp add: run_handler_def)
  obtain row where row: "updateSyncState (h_entity hdl) n (pl_now env) (sync_state st) (h_entity hdl) = Some row"
    "sync_status row = ''SUCCESS''" "record_count row = n" "last_synced_at row = Some (pl_now env)"
    using updateSyncState_same by blast
  show ?thesis
    unfolding run
    by (cases "h_extra hdl") (use res(3) w x row in \<open>simp_all add: store_items_def\<close>)
qed

lemma run_handler_fails:
  assumes "pull_fails env hdl"
  shows "snd (run_handler env hdl st) = st
       \<and> (\<exists>msg. fst (run_handler env hdl st) = Inl msg
              \<or> fst (run_handler env hdl st) = Inr \<lparr>entity = h_entity hdl, pulled = 0, errors = [msg]\<rparr>)"
proof (cases "cloud_request (pl_network env (h_path hdl) (handler_params hdl st))")
  case (Inl e)
  then show ?thesis by (simp add: run_handler_def)
next
  case (Inr res)
  then have "\<not> cr_ok res \<and> cr_status res \<noteq> 404"
    using assms[unfolded pull_fails_def, rule_format, of "handler_params hdl st"] by simp
  then show ?thesis using Inr by (cases "h_fetch hdl") (simp_all add: run_handler_def)
qed

lemma pull_loop_completes:
  assumes "Generic hdl \<in> set es" and "distinct (map entry_name es)"
    and "pull_completes env hdl" and "h_write hdl \<noteq> ReplaceThenCount"
  shows "succeeded_with env (h_entity hdl) (fst (pull_loop env es acc st)) (snd (pull_loop env es acc st))"
  using assms(1,2)
proof (induction es arbitrary: acc st)
  case Nil
  then show ?case by simp
next
  case (Cons e es)
  show ?case
  proof (cases "e = Generic hdl")
    case True
    obtain n st' row where r:
      "run_handler env hdl st = (Inr \<lparr>entity = h_entity hdl, pulled = n, errors = []\<rparr>, st')"
      "sync_state st' (h_entity hdl) = Some row" "sync_status row = ''SUCCESS''"
      "record_count row = n" "last_synced_at row = Some (pl_now env)"
      using run_handler_completes[OF assms(3,4), of st] by blast
    let ?acc = "acc @ [\<lparr>entity = h_entity hdl, pulled = n, errors = []\<rparr>]"
    have notin: "h_entity hdl \<notin> entry_name ` set es" using Cons.prems(2) True by auto
    have s: "sync_state (snd (pull_loop env es ?acc st')) (h_entity hdl) = Some row"
      using pull_loop_frame[OF notin, of env ?acc st'] r(2) by simp
    have m: "\<lparr>entity = h_entity hdl, pulled = n, errors = []\<rparr> \<in> set (fst (pull_loop env es ?acc st'))"
      using pull_loop_acc[of ?acc env es st'] by auto
    show ?thesis
      using True r s m by (auto simp: succeeded_with_def)
  next
    case False
    then have i: "Generic hdl \<in> set es" using Cons.prems(1) by simp
    have d: "distinct (map entry_name es)" using Cons.prems(2) by simp
    obtain x st' where r: "run_entry env e st = (x, st')" by fastforce
    show ?thesis
      using Cons.IH[OF i d] r by (cases x) simp_all
  qed
qed

lemma pull_loop_fails:
  assumes "Generic hdl \<in> set es" and "distinct (map entry_name es)" and "pull_fails env hdl"
  shows "sync_state (snd (pull_loop env es acc st)) (h_entity hdl) = sync_state st (h_entity hdl)
       \<and> (\<exists>msg. \<lparr>entity = h_entity hdl, pulled = 0, errors = [msg]\<rparr> \<in> set (fst (pull_loop env es acc st)))"
  using assms(1,2)
proof (induction es arbitrary: acc st)
  case Nil
  then show ?case by simp
next
  case (Cons e es)
  show ?case
  proof (cases "e = Generic hdl")
    case True
    have notin: "h_entity hdl \<notin> entry_name ` set es" using Cons.prems(2) True by auto
    obtain msg where f: "snd (run_handler env hdl st) = st"
      "fst (run_handler env hdl st) = Inl msg
       \<or> fst (run_handler env hdl st) = Inr \<lparr>entity = h_entity hdl, pulled = 0, errors = [msg]\<rparr>"
      using run_handler_fails[OF assms(3), of st] by blast
    let ?acc = "acc @ [\<lparr>entity = h_entity hdl, pulled = 0, errors = [msg]\<rparr>]"
    have step: "pull_loop env (e # es) acc st = pull_loop env es ?acc st"
      using f True by (cases "run_handler env hdl st") auto
    have m: "\<lparr>entity = h_entity hdl, pulled = 0, errors = [msg]\<rparr> \<in> set (fst (pull_loop env es ?acc st))"
      using pull_loop_acc[of ?acc env es st] by auto
    show ?thesis
      unfolding step using pull_loop_frame[OF notin, of env ?acc st] m by blast
  next
    case False
    then have i: "Generic hdl \<in> set es" using Cons.prems(1) by simp
    have d: "distinct (map entry_name es)" using Cons.prems(2) by simp
    have "entry_name (Generic hdl) \<in> entry_name ` set es" using i by (rule imageI)
    moreover have "entry_name e \<notin> entry_name ` set es" using Cons.prems(2) by simp
    ultimately have ne: "h_entity hdl \<noteq> entry_name e" by auto
    obtain x st' where r: "run_entry env e st = (x, st')" by fastforce
    have fr: "sync_state st' (h_entity hdl) = sync_state st (h_entity hdl)"
      using run_entry_frame[OF ne, of env st] r by simp
    show ?thesis
      using Cons.IH[OF i d] r fr by (cases x) simp_all
  qed
qed

















section \<open>The statements at concrete inputs\<close>

lemma cfg0_configured: "isConfigured cfg0"
  by (simp add: cfg0_def isConfigured_def baseUrl_def apiKey_def)

lemma sale_endpoint: "js_index pushEndpoints ''sale'' = Own ''/api/hub/push/sale''"
  by (simp add: js_index_def pushEndpoints_def)

lemma first_cycle:
  "snd (snd (snd (processOutbox push_env_500 20 False db_one_sale))) =
     db_one_sale\<lparr>outbox_queue := [sale_row\<lparr>attempts := 1, status := ''PENDING'',
                                            error := Some ''HTTP 500: Server error''\<rparr>]\<rparr>"
  by (simp add: processOutbox_def select_pending_def eligible_def db_one_sale_def empty_db_def
      sale_row_def push_env_500_def cfg0_configured process_item_def mark_def update_outbox_def
      sale_endpoint parse_braces_def cloud_request_def no_result_def inc_failed_def
      string_of_int_def string_of_nat.simps digit_char_def error_or_def Let_def)

lemma string_of_int_1: "string_of_int 1 = ''1''"
  by (simp add: string_of_int_def string_of_nat.simps digit_char_def)

lemma post_sale_example:
  "fst (post_sale route_env0 (Some sale_body) hub0) =
     Inr (200, JObj [(''id'', JStr ''id0''), (''receiptNumber'', JStr ''20240101-0001''),
                     (''status'', JStr ''COMPLETED''), (''total'', JNum 10),
                     (''createdAt'', JStr ''2024-01-01T12:00:00.000Z'')])"
  by (simp add: post_sale_def transaction_def sale_txn_def nextReceiptNumber_def
      route_env0_def hub0_def empty_db_def sale_body_def example_ids_def example_stringify_def
      cfg0_def or_empty_def string_of_int_1 padStart_def sale_reply_def
      run_insert_def bind_args_def placeholders_def violates_def col_def
      sale_columns_def sale_args_def sales_def_def
      sale_item_columns_def sale_item_args_def sale_items_def_def
      payment_columns_def payment_args_def payments_def_def insert_outbox_def Let_def
      numeral_3_eq_3)

text \<open>
  The sale of a 10.00 tea paid in cash, on an empty store: one row in each of the three
  business tables and one outbox row.
\<close>

theorem post_sale_atomic_example:
  "\<exists>sale item pay.
      sales (store (snd (post_sale route_env0 (Some sale_body) hub0))) = [sale]
    \<and> col sale ''id'' = SText ''id0''
    \<and> sale_items (store (snd (post_sale route_env0 (Some sale_body) hub0))) = [item]
    \<and> col item ''sale_id'' = SText ''id0''
    \<and> payments (store (snd (post_sale route_env0 (Some sale_body) hub0))) = [pay]
    \<and> col pay ''sale_id'' = SText ''id0''
    \<and> outbox_queue (store (snd (post_sale route_env0 (Some sale_body) hub0))) =
        [\<lparr>ob_id = 1, entity_type = ''sale'', entity_id = ''id0'', action = ''create'',
          payload = ''{}'', correlation_id = Some ''id0'', priority = 10, attempts = 0,
          max_attempts = 5, status = ''PENDING'', error = None,
          created_at = ''2024-01-01 12:00:00'', synced_at = None\<rparr>]"
proof -
  obtain h' where p: "post_sale route_env0 (Some sale_body) hub0 =
     (Inr (200, JObj [(''id'', JStr ''id0''), (''receiptNumber'', JStr ''20240101-0001''),
                     (''status'', JStr ''COMPLETED''), (''total'', JNum 10),
                     (''createdAt'', JStr ''2024-01-01T12:00:00.000Z'')]), h')"
    using post_sale_example by (metis prod.collapse)
  have i: "js_iterate (dflt (js_prop sale_body ''items'') (JArr [])) =
             Inr [JObj [(''productId'', JStr ''p1''), (''productName'', JStr ''Tea''),
                        (''quantity'', JNum 1), (''unitPrice'', JNum 10)] ]"
    and q: "js_iterate (dflt (js_prop sale_body ''payments'') (JArr [])) =
             Inr [JObj [(''method'', JStr ''CASH''), (''amount'', JNum 10)] ]"
    by (simp_all add: sale_body_def)
  from post_sale_atomic[where env = route_env0 and req_body = "Some sale_body" and h = hub0]
  obtain sale items pays where r:
    "sales (store h') = sales (store hub0) @ [sale]" "col sale ''id'' = SText (re_ids route_env0 0)"
    "sale_items (store h') = sale_items (store hub0) @ items" "length items = 1"
    "\<forall>r \<in> set items. col r ''sale_id'' = SText (re_ids route_env0 0)"
    "payments (store h') = payments (store hub0) @ pays" "length pays = 1"
    "\<forall>r \<in> set pays. col r ''sale_id'' = SText (re_ids route_env0 0)"
    "outbox_queue (store h') = outbox_queue (store hub0) @ [sale_outbox_row route_env0 sale_body (store hub0)]"
    unfolding p using i q by auto
  obtain item where item: "items = [item]" using r(4) by (cases items) auto
  obtain pay where pay: "pays = [pay]" using r(7) by (cases pays) auto
  show ?thesis
    unfolding p snd_conv
    using r item pay
    by (simp add: hub0_def empty_db_def route_env0_def example_ids_def example_stringify_def
        sale_outbox_row_def)
qed

text \<open>
  Eleven attempts with PIN 1234 from 10.0.0.7 at the same instant.
\<close>

theorem pin_eleventh_attempt_429_witness:
  "fst (post_auth_pin route_env0 pin_req
          (fold auth_step (replicate 9 (PinRequest route_env0 pin_req))
             (auth_step (PinRequest route_env0 pin_req) hub0))) =
     Inr (429, JObj [(''error'', JStr ''Too many PIN attempts. Try again later.'')])"
  using pin_eleventh_attempt_429[where ip = "''10.0.0.7''" and ?env1.0 = route_env0 and ?req1.0 = pin_req and h = hub0
      and evs = "replicate 9 (PinRequest route_env0 pin_req)" and req = pin_req and env = route_env0]
  by (simp add: pin_req_def pin_malformed_def hub0_def route_env0_def PIN_RATE_WINDOW_MS_def)

text \<open>
  Four bumps of order k1.
\<close>

theorem bump_advances_order_witness:
  "order_col (snd (post_bump route_env0 ''k1'' (snd (post_bump route_env0 ''k1''
       (snd (post_bump route_env0 ''k1'' hub_k1)))))) ''k1'' ''status'' = SText ''COMPLETED''
   \<and> post_bump route_env0 ''k1'' (snd (post_bump route_env0 ''k1'' (snd (post_bump route_env0 ''k1''
       (snd (post_bump route_env0 ''k1'' hub_k1)))))) =
      (Inr (200, JObj [(''success'', JBool False),
                       (''message'', JStr ''Cannot bump from status COMPLETED'')]),
       snd (post_bump route_env0 ''k1'' (snd (post_bump route_env0 ''k1''
          (snd (post_bump route_env0 ''k1'' hub_k1))))))"
proof -
  have g: "get_by_id ''k1'' (kitchen_orders (store hub_k1)) = Some order_k1"
    by (simp add: hub_k1_def hub0_def empty_db_def get_by_id_def order_k1_def col_def)
  have s: "col order_k1 ''status'' = SText ''PENDING''"
    by (simp add: order_k1_def col_def)
  show ?thesis
    using bump_advances_order[OF g s refl refl refl, of route_env0 route_env0 route_env0 route_env0] by simp
qed

lemma change_pin_example:
  "post_change_pin route_env0 ''u1'' ''4321'' hub_u1 =
     (Inr (200, JObj [(''success'', JBool True)]),
      hub_u1\<lparr>store := empty_db\<lparr>
        users := [ [(''id'', SText ''u1''), (''tenant_id'', SText ''t1''), (''name'', SText ''Ann''),
                   (''pin_hash'', SText ''$2a$12$hash''), (''is_active'', SNum 1),
                   (''updated_at'', SText ''2024-01-01 12:00:00'')] ],
        outbox_queue := [\<lparr>ob_id = 1, entity_type = ''user'', entity_id = ''u1'',
                           action = ''update_pin'', payload = ''{}'', correlation_id = None,
                           priority = 5, attempts = 0, max_attempts = 5, status = ''PENDING'',
                           error = None, created_at = ''2024-01-01 12:00:00'', synced_at = None\<rparr>],
        outbox_seq := 1\<rparr>\<rparr>)"
  by (simp add: post_change_pin_def transaction_def change_pin_txn_def insert_outbox_def
      hub_u1_def hub0_def empty_db_def route_env0_def cfg0_def or_empty_def col_def
      update_by_id_def example_stringify_def)

text \<open>
  Claim C9 says the list is cleared by a PIN update. Here the update succeeds and the
  list still holds u1.
\<close>

theorem change_pin_cache_not_cleared:
  "fst (post_change_pin route_env0 ''u1'' ''4321'' hub_u1) = Inr (200, JObj [(''success'', JBool True)])
   \<and> recentUserIds (snd (post_change_pin route_env0 ''u1'' ''4321'' hub_u1)) = [''u1'']"
  by (simp add: change_pin_example) (simp add: hub_u1_def)

text \<open>
  A PIN change for user u1 while u1 is in the list, and a sixth user entering a full list.
\<close>

theorem change_pin_keeps_recent_users_witness:
  "recentUserIds (snd (post_change_pin route_env0 ''u1'' ''4321'' hub_u1)) = [''u1'']
   \<and> recordRecentUser ''f'' [''a'', ''b'', ''c'', ''d'', ''e''] = [''f'', ''a'', ''b'', ''c'', ''d'']
   \<and> length (recentUserIds (snd (post_auth_pin route_env0 pin_req hub_u1))) \<le> 5"
  using change_pin_keeps_recent_users[of route_env0 "''u1''" "''4321''" hub_u1 route_env0 pin_req
      "[''a'', ''b'', ''c'', ''d'', ''e'']" "''f''"]
  by (simp add: hub_u1_def)

text \<open>
  A thousand calls on 2024-01-01, starting from an empty store.
\<close>

theorem receipt_numbers_contiguous_witness:
  "length (fst (receipt_calls 1000 ''20240101'' empty_db)) = 1000
   \<and> distinct (fst (receipt_calls 1000 ''20240101'' empty_db))
   \<and> fst (receipt_calls 1000 ''20240101'' empty_db) ! 0 = ''20240101-0001''
   \<and> is_receipt_form (fst (receipt_calls 1000 ''20240101'' empty_db) ! 0)"
proof -
  have h: "map_of (order_sequence empty_db) ''20240101'' = None" by (simp add: empty_db_def)
  have p: "padStart 4 (CHR ''0'') (string_of_nat (Suc 0)) = ''0001''"
    by (simp add: padStart_def string_of_nat.simps digit_char_def numeral_3_eq_3)
  have dk: "list_all is_digit ''20240101''" by (simp add: is_digit_def)
  have t: "length (fst (receipt_calls 1000 ''20240101'' empty_db)) = 1000
       \<and> distinct (fst (receipt_calls 1000 ''20240101'' empty_db))
       \<and> (\<forall>i<1000. fst (receipt_calls 1000 ''20240101'' empty_db) ! i
                   = ''20240101'' @ ''-'' @ padStart 4 (CHR ''0'') (string_of_nat (Suc i))
               \<and> nat_of_digits (drop (length ''20240101'' + 1) (fst (receipt_calls 1000 ''20240101'' empty_db) ! i)) = Suc i
               \<and> (Suc i \<le> 9999 \<and> length ''20240101'' = 8 \<and> list_all is_digit ''20240101''
                    \<longrightarrow> is_receipt_form (fst (receipt_calls 1000 ''20240101'' empty_db) ! i)))"
    using receipt_numbers_contiguous[OF h, of 1000] .
  have lt: "(0::nat) < 1000" and le: "Suc 0 \<le> 9999" and l8: "length ''20240101'' = 8"
    by simp_all
  have z: "fst (receipt_calls 1000 ''20240101'' empty_db) ! 0
                   = ''20240101'' @ ''-'' @ padStart 4 (CHR ''0'') (string_of_nat (Suc 0))"
    using t lt by blast
  have f: "is_receipt_form (fst (receipt_calls 1000 ''20240101'' empty_db) ! 0)"
    using t lt le l8 dk by blast
  show ?thesis using t z f p by simp
qed

lemma products_in_plan: "Generic pullProducts \<in> set entities"
  by (simp add: entities_def pullProducts_def)

lemma categories_in_plan: "Generic pullCategories \<in> set entities"
  by (simp add: entities_def pullCategories_def)

lemma string_of_int_404: "string_of_int 404 = ''404''"
  by (simp add: string_of_int_def string_of_nat.simps digit_char_def)

lemma db_one_sale_wf: "outbox_wf db_one_sale"
  by (simp add: outbox_wf_def db_one_sale_def sale_row_def)

lemma after_first_cycle_wf:
  "outbox_wf (db_one_sale\<lparr>outbox_queue := [sale_row\<lparr>attempts := 1, status := ''PENDING'',
                                            error := Some ''HTTP 500: Server error''\<rparr>]\<rparr>)"
  by (simp add: outbox_wf_def db_one_sale_def sale_row_def)

lemma three_ticks_pickups: "pickups 1 three_ticks_500 db_one_sale = 3"
  by (simp add: three_ticks_500_def first_cycle insert_outbox_def
      processOutbox_def select_pending_def eligible_def db_one_sale_def empty_db_def
      sale_row_def push_env_500_def cfg0_configured process_item_def mark_def update_outbox_def
      js_index_def pushEndpoints_def Object_prototype_keys_def
      parse_braces_def cloud_request_def no_result_def inc_failed_def inc_deadLettered_def
      string_of_int_def string_of_nat.simps digit_char_def error_or_def Let_def)

text \<open>
  Scenario S6 of the specification: \<open>max_attempts = 3\<close> and three ticks against a cloud
  that answers 500, with a PIN change enqueued in between.
\<close>

theorem push_always_500_dead_letters_witness:
  "pickups 1 three_ticks_500 db_one_sale = 3
   \<and> (\<exists>x. outbox_row (outbox_run three_ticks_500 db_one_sale) 1 = Some x
          \<and> attempts x = 3 \<and> status x = ''DEAD_LETTER'')"
proof -
  have r: "sale_row \<in> set (outbox_queue db_one_sale)" by (simp add: db_one_sale_def)
  have e: "\<not> falsy (js_index pushEndpoints (entity_type sale_row))"
    by (simp add: sale_row_def sale_endpoint)
  have t: "\<forall>ev \<in> set three_ticks_500. tick_500 (ob_id sale_row) (payload sale_row) ev"
    by (simp add: three_ticks_500_def sale_row_def push_env_500_def parse_braces_def always_500_def)
  have h: "status sale_row = ''PENDING''" "attempts sale_row = int 0" "max_attempts sale_row = int 3"
    "ob_id sale_row = 1"
    by (simp_all add: sale_row_def)
  have lt: "(0::nat) < 3" by simp
  show ?thesis
    using push_always_500_dead_letters[OF db_one_sale_wf r e t h(1,2,3) lt] three_ticks_pickups
    by (auto simp: h(4))
qed

text \<open>
  Claim C3 speaks of every 409. When the 409 announces JSON and its body does not parse,
  \<open>res.json()\<close> rejects inside \<open>CloudClient.post\<close>, the \<open>catch\<close> block reports status 0
  with the parser's message, and the engine puts the row back to PENDING.
\<close>

theorem push_409_unreadable_body_not_synced:
  "outbox_row (outbox_step (PushTick push_env_409_unreadable 20) db_one_sale) 1 =
     Some (sale_row\<lparr>attempts := 1, status := ''PENDING'',
                     error := Some ''HTTP 0: Unexpected end of JSON input''\<rparr>)"
  by (simp add: outbox_row_def processOutbox_def select_pending_def eligible_def db_one_sale_def
      empty_db_def sale_row_def push_env_409_unreadable_def cfg0_configured process_item_def
      mark_def update_outbox_def sale_endpoint parse_braces_def cloud_request_def no_result_def
      inc_failed_def string_of_int_def string_of_nat.simps digit_char_def error_or_def Let_def)

text \<open>
  A row whose first POST is answered with 500 and whose second is answered with 409; a
  third tick leaves it alone.
\<close>

theorem push_409_marks_synced_witness:
  "outbox_row (outbox_run [PushTick push_env_500 20, PushTick push_env_409 20, PushTick push_env_409 20]
       db_one_sale) 1 =
     Some (sale_row\<lparr>attempts := 2, status := ''SYNCED'', synced_at := Some ''2024-01-01 00:00:10'',
                     error := Some ''Duplicate (409)''\<rparr>)"
proof -
  let ?r = "sale_row\<lparr>attempts := 1, status := ''PENDING'', error := Some ''HTTP 500: Server error''\<rparr>"
  let ?d = "db_one_sale\<lparr>outbox_queue := [?r]\<rparr>"
  have c: "isConfigured (pe_config push_env_409)" by (simp add: push_env_409_def cfg0_configured)
  have s: "?r \<in> set (select_pending 20 (outbox_queue ?d))"
    by (simp add: select_pending_def eligible_def sale_row_def)
  have e: "\<not> falsy (js_index pushEndpoints (entity_type ?r))"
    by (simp add: sale_row_def sale_endpoint)
  have p: "pe_parse push_env_409 (payload ?r) \<noteq> None"
    by (simp add: push_env_409_def sale_row_def parse_braces_def)
  have n: "pe_network push_env_409 ?r = Responded 409 NotJson" by (simp add: push_env_409_def)
  have b: "\<forall>msg. NotJson \<noteq> BadJson msg" by simp
  have st: "(200 \<le> (409::int) \<and> (409::int) \<le> 299) \<or> (409::int) = 409" by simp
  show ?thesis
    using push_409_marks_synced[OF after_first_cycle_wf c s e p n b st, of "[PushTick push_env_409 20]"]
    by (simp add: outbox_run_def first_cycle sale_row_def push_env_409_def)
qed

text \<open>
  The outbox row written by a PIN change, picked up by the next tick and passed over by
  the one after.
\<close>

theorem push_unknown_entity_dead_letters_witness:
  "outbox_row (outbox_run [PushTick push_env_201 20, PushTick push_env_201 20]
       (store (snd (post_change_pin route_env0 ''u1'' ''4321'' hub_u1)))) 1 =
     Some \<lparr>ob_id = 1, entity_type = ''user'', entity_id = ''u1'', action = ''update_pin'',
           payload = ''{}'', correlation_id = None, priority = 5, attempts = 1, max_attempts = 5,
           status = ''DEAD_LETTER'', error = Some ''Unknown entity type'',
           created_at = ''2024-01-01 12:00:00'', synced_at = None\<rparr>
   \<and> ''user'' \<notin> p_entityType ` set (run_posts [PushTick push_env_201 20, PushTick push_env_201 20]
       (store (snd (post_change_pin route_env0 ''u1'' ''4321'' hub_u1))))"
proof -
  let ?row = "\<lparr>ob_id = 1, entity_type = ''user'', entity_id = ''u1'', action = ''update_pin'',
           payload = ''{}'', correlation_id = None, priority = 5, attempts = 0, max_attempts = 5,
           status = ''PENDING'', error = None, created_at = ''2024-01-01 12:00:00'',
           synced_at = None\<rparr>"
  let ?d = "store (snd (post_change_pin route_env0 ''u1'' ''4321'' hub_u1))"
  have q: "outbox_queue ?d = [?row]" "outbox_seq ?d = 1"
    by (simp_all add: change_pin_example)
  have c: "isConfigured (pe_config push_env_201)" by (simp add: push_env_201_def cfg0_configured)
  have s: "?row \<in> set (select_pending 20 (outbox_queue ?d))"
    unfolding q by (simp add: select_pending_def eligible_def)
  have a: "entity_type ?row \<notin> fst ` set pushEndpoints" by (simp add: pushEndpoints_def)
  have b: "entity_type ?row \<notin> set Object_prototype_keys" by (simp add: Object_prototype_keys_def)
  have w: "outbox_wf ?d" unfolding outbox_wf_def q by simp
  show ?thesis
    using push_unknown_entity_dead_letters[OF w c s a b, of "[PushTick push_env_201 20]"]
    by (simp add: outbox_run_def)
qed

text \<open>
  Claim C1 at POST /api/kitchen-orders/:orderId/items/:itemId/status. On a hub that holds
  order k1 with one item i1 in status PENDING, the request with body \<open>{status: "READY"}\<close>
  is answered with success and has changed the item row, and the outbox is still empty:
  no outbox row records the change, and nothing ran inside \<open>transaction\<close>. The bump route
  of the same file, on the same hub, leaves one outbox row.
\<close>

theorem item_status_writes_no_outbox_row:
  "fst (post_item_status route_env0 ''k1'' ''i1'' (Some (JObj [(''status'', JStr ''READY'')])) hub_item) =
     Inr (200, JObj [(''success'', JBool True)])
   \<and> kitchen_order_items (store (snd (post_item_status route_env0 ''k1'' ''i1''
        (Some (JObj [(''status'', JStr ''READY'')])) hub_item))) =
       [ [(''id'', SText ''i1''), (''kitchen_order_id'', SText ''k1''), (''product_id'', SText ''p1''),
         (''product_name'', SText ''Tea''), (''quantity'', SNum 1), (''status'', SText ''READY'')] ]
   \<and> outbox_queue (store (snd (post_item_status route_env0 ''k1'' ''i1''
        (Some (JObj [(''status'', JStr ''READY'')])) hub_item))) = []
   \<and> length (outbox_queue (store (snd (post_bump route_env0 ''k1'' hub_item)))) = 1"
  by (simp add: post_item_status_def post_bump_def bump_txn_def transaction_def insert_outbox_def
      hub_item_def hub0_def empty_db_def item_i1_def order_k1_def col_def get_by_id_def
      bind_args_def update_by_id_def statusFlow_def js_index_def Let_def)

lemma pull_loop_fixed_results:
  assumes "\<forall>e \<in> set es. \<forall>st. fst (run_entry env e st) = Inr (f e)"
  shows "fst (pull_loop env es acc st) = acc @ map f es"
  using assms
proof (induction es arbitrary: acc st)
  case Nil
  then show ?case by simp
next
  case (Cons e es)
  have "fst (run_entry env e st) = Inr (f e)" using Cons.prems by simp
  then obtain st' where r: "run_entry env e st = (Inr (f e), st')"
    by (cases "run_entry env e st") simp
  have "\<forall>e \<in> set es. \<forall>st. fst (run_entry env e st) = Inr (f e)" using Cons.prems by simp
  from Cons.IH[OF this] show ?case using r by simp
qed

lemma env_404_answers:
  "cloud_request (pl_network env_404 p ps) =
     Inr \<lparr>cr_ok = False, cr_status = 404, cr_data = JNull, cr_error = None\<rparr>"
  by (simp add: env_404_def cloud_request_def)

lemma env_404_entry: 
  assumes "e \<in> set entities"
  shows "fst (run_entry env_404 e st) = Inr (result_404 e)"
proof (cases e)
  case (Generic hdl)
  then show ?thesis
    using pull_404_by_handler[of env_404 st] assms env_404_answers by simp
next
  case LocationSettings
  then show ?thesis
    using pull_404_by_handler[of env_404 st] env_404_answers by simp
next
  case TerminalSettings
  then show ?thesis
    by (simp add: pullTerminalSettings_def env_404_def env_one_500_def)
qed

text \<open>
  Claim C4 at the products endpoint. With a cloud that answers 404 to every request,
  \<open>pullProducts\<close> returns the 404 as an error, while \<open>pullCategories\<close>, which reads
  through \<open>fetchAndTransform\<close>, returns none. The cycle runs all 53 entities, and eleven of
  the results carry an error: those of the ten handlers that test \<open>!res.ok\<close> only, and
  that of location_settings. No terminal is registered on this hub, so terminal_settings
  makes no request.
\<close>

theorem pull_products_404_is_error:
  "fst (run_handler env_404 pullProducts pull_state0) =
     Inr \<lparr>entity = ''products'', pulled = 0, errors = [''HTTP 404'']\<rparr>
   \<and> fst (run_handler env_404 pullCategories pull_state0) =
     Inr \<lparr>entity = ''categories'', pulled = 0, errors = []\<rparr>
   \<and> entities_with_errors (fst (runFullSync env_404 False pull_state0)) =
       [''products'', ''discount_templates'', ''gift_cards'', ''coupon_codes'', ''deals'', ''users'',
        ''location_settings'', ''floors'', ''areas'', ''tables'', ''courses'']
   \<and> length (fst (runFullSync env_404 False pull_state0)) = 53"
proof -
  have c: "isConfigured (pl_config env_404)"
    by (simp add: env_404_def env_one_500_def cfg0_def isConfigured_def baseUrl_def apiKey_def)
  have a: "fst (run_handler env_404 pullProducts pull_state0) =
     Inr \<lparr>entity = ''products'', pulled = 0, errors = [''HTTP 404'']\<rparr>"
    using env_404_entry[OF products_in_plan, of pull_state0]
    by (simp add: pullProducts_def mk_handler_def direct_entities_def)
  have b: "fst (run_handler env_404 pullCategories pull_state0) =
     Inr \<lparr>entity = ''categories'', pulled = 0, errors = []\<rparr>"
    using env_404_entry[OF categories_in_plan, of pull_state0]
    by (simp add: pullCategories_def mk_handler_def direct_entities_def)
  have r: "fst (runFullSync env_404 False pull_state0) = map result_404 entities"
    using pull_loop_fixed_results[of entities env_404 result_404 "[]" pull_state0] env_404_entry
    by (simp add: runFullSync_unfold[OF c])
  have e: "entities_with_errors (map result_404 entities) =
       [''products'', ''discount_templates'', ''gift_cards'', ''coupon_codes'', ''deals'', ''users'',
        ''location_settings'', ''floors'', ''areas'', ''tables'', ''courses'']"
    by (simp add: entities_with_errors_def entities_def mk_handler_def direct_entities_def)
  have l: "length (map result_404 entities) = 53" by (simp add: entities_def)
  show ?thesis using a b e l unfolding r by simp
qed


end
